(* ===== verification/Routing_Prelude.thy ===== *)
theory Routing_Prelude
  imports Main "HOL-Library.Word" "HOL-Library.Multiset" "HOL-Library.Sublist"
begin

text \<open>
  The pieces of the Rust language and of its standard library that the components share:
  machine integers, \<open>std::cmp::Ordering\<close> and comparators, the stable \<open>sort_by\<close>,
  \<open>min_by\<close> and \<open>max_by_key\<close>, \<open>BTreeMap\<close> and \<open>BTreeSet\<close> (as key-sorted lists,
  which is the order their iterators yield), \<open>Result\<close> with the \<open>?\<close> operator, and the
  state-and-error computations of the \<open>&mut self\<close> methods that return a \<open>Result\<close>.
  The locale \<open>total_cmp\<close> is the contract of a comparator, on which the sorting and
  selection lemmas rest.
\<close>

section \<open>Collections of facts\<close>

named_theorems bt_simps \<open>lookups and invariants of the ordered maps\<close>
named_theorems comp_defs \<open>the combinators of results and of state-and-error computations\<close>

section \<open>Integers\<close>

type_synonym u8 = "8 word"
type_synonym u64 = "64 word"
type_synonym bytes = "u8 list"

section \<open>Orderings and comparators\<close>

datatype ordering = Less | Equal | Greater

definition ord_cmp :: "'a::linorder \<Rightarrow> 'a \<Rightarrow> ordering" where
  "ord_cmp a b = (if a < b then Less else if a = b then Equal else Greater)"

definition then_with :: "ordering \<Rightarrow> ordering \<Rightarrow> ordering" where
  "then_with a b = (case a of Equal \<Rightarrow> b | _ \<Rightarrow> a)"

lemma then_with_simps [simp]:
  "then_with Equal b = b" "then_with Less b = Less" "then_with Greater b = Greater"
  by (simp_all add: then_with_def)

lemma then_with_Less: "then_with a b = Less \<longleftrightarrow> a = Less \<or> a = Equal \<and> b = Less"
  by (cases a) auto

lemma then_with_Equal: "then_with a b = Equal \<longleftrightarrow> a = Equal \<and> b = Equal"
  by (cases a) auto

lemma then_with_Greater: "then_with a b = Greater \<longleftrightarrow> a = Greater \<or> a = Equal \<and> b = Greater"
  by (cases a) auto

fun insort_by :: "('a \<Rightarrow> 'a \<Rightarrow> ordering) \<Rightarrow> 'a \<Rightarrow> 'a list \<Rightarrow> 'a list" where
  "insort_by cmp x [] = [x]"
| "insort_by cmp x (y # ys) =
     (if cmp x y = Greater then y # insort_by cmp x ys else x # y # ys)"

fun sort_by :: "('a \<Rightarrow> 'a \<Rightarrow> ordering) \<Rightarrow> 'a list \<Rightarrow> 'a list" where
  "sort_by cmp [] = []"
| "sort_by cmp (x # xs) = insort_by cmp x (sort_by cmp xs)"

text \<open>\<open>Iterator::min_by\<close> keeps the first of several minimal elements and
  \<open>Iterator::max_by_key\<close> the last of several maximal ones.\<close>

fun min_by :: "('a \<Rightarrow> 'a \<Rightarrow> ordering) \<Rightarrow> 'a list \<Rightarrow> 'a option" where
  "min_by cmp [] = None"
| "min_by cmp (x # xs) = Some (foldl (\<lambda>a b. if cmp a b = Greater then b else a) x xs)"

fun max_by_key :: "('a \<Rightarrow> 'k::linorder) \<Rightarrow> 'a list \<Rightarrow> 'a option" where
  "max_by_key f [] = None"
| "max_by_key f (x # xs) = Some (foldl (\<lambda>a b. if f a \<le> f b then b else a) x xs)"

lemma mset_insort_by [simp]: "mset (insort_by cmp x xs) = add_mset x (mset xs)"
  by (induction xs) auto

lemma mset_sort_by [simp]: "mset (sort_by cmp xs) = mset xs"
  by (induction xs) auto

lemma set_sort_by [simp]: "set (sort_by cmp xs) = set xs"
  by (metis mset_sort_by set_mset_mset)

lemma length_sort_by [simp]: "length (sort_by cmp xs) = length xs"
  by (metis mset_sort_by size_mset)

lemma distinct_sort_by [simp]: "distinct (sort_by cmp xs) = distinct xs"
  by (metis mset_sort_by mset_eq_imp_distinct_iff)

lemma distinct_map_sort_by [simp]: "distinct (map f (sort_by cmp xs)) = distinct (map f xs)"
  by (metis mset_sort_by mset_map mset_eq_imp_distinct_iff)

lemma foldl_select_mem:
  assumes "\<And>a b. sel a b = a \<or> sel a b = b"
  shows "foldl sel x xs \<in> insert x (set xs)"
proof (induction xs arbitrary: x)
  case (Cons y ys)
  show ?case using Cons.IH [of "sel x y"] assms [of x y] by auto
qed simp

lemma min_by_mem: "min_by cmp xs = Some m \<Longrightarrow> m \<in> set xs"
proof (cases xs)
  case (Cons y ys)
  have "foldl (\<lambda>a b. if cmp a b = Greater then b else a) y ys \<in> insert y (set ys)"
    by (rule foldl_select_mem) simp
  then show "min_by cmp xs = Some m \<Longrightarrow> m \<in> set xs" using Cons by auto
qed simp

lemma max_by_key_mem: "max_by_key f xs = Some m \<Longrightarrow> m \<in> set xs"
proof (cases xs)
  case (Cons y ys)
  have "foldl (\<lambda>a b. if f a \<le> f b then b else a) y ys \<in> insert y (set ys)"
    by (rule foldl_select_mem) simp
  then show "max_by_key f xs = Some m \<Longrightarrow> m \<in> set xs" using Cons by auto
qed simp

lemma min_by_None [simp]: "min_by cmp xs = None \<longleftrightarrow> xs = []"
  by (cases xs) auto

lemma max_by_key_None [simp]: "max_by_key f xs = None \<longleftrightarrow> xs = []"
  by (cases xs) auto

lemma foldl_max_key:
  "f x \<le> f (foldl (\<lambda>a b. if f a \<le> f b then b else a) x xs) \<and>
   (\<forall>y \<in> set xs. f y \<le> f (foldl (\<lambda>a b. if f a \<le> f b then b else a) x xs))"
  for f :: "'a \<Rightarrow> 'k::linorder"
proof (induction xs arbitrary: x)
  case (Cons z zs)
  show ?case
    using Cons.IH [of "if f x \<le> f z then z else x"] by (auto split: if_splits intro: order_trans)
qed simp

lemma max_by_key_max: "max_by_key f xs = Some m \<Longrightarrow> y \<in> set xs \<Longrightarrow> f y \<le> f m"
  using foldl_max_key [of f] by (cases xs) auto

subsection \<open>The contract of a comparator\<close>

text \<open>A comparator in the sense of \<open>Ord::cmp\<close>: swapping the arguments reverses the
  result, and \<open>\<le>\<close> is transitive.\<close>

locale total_cmp =
  fixes cmp :: "'a \<Rightarrow> 'a \<Rightarrow> ordering"
  assumes cmp_swap: "cmp a b = Less \<longleftrightarrow> cmp b a = Greater"
    and cmp_trans: "cmp a b \<noteq> Greater \<Longrightarrow> cmp b c \<noteq> Greater \<Longrightarrow> cmp a c \<noteq> Greater"
begin

lemma cmp_refl [simp]: "cmp a a = Equal"
  using cmp_swap [of a a] by (cases "cmp a a") auto

lemma cmp_le_total: "cmp a b = Greater \<Longrightarrow> cmp b a \<noteq> Greater"
  using cmp_swap [of b a] by simp

lemma sorted_insort_by:
  "sorted_wrt (\<lambda>a b. cmp a b \<noteq> Greater) xs \<Longrightarrow>
   sorted_wrt (\<lambda>a b. cmp a b \<noteq> Greater) (insort_by cmp x xs)"
proof (induction xs)
  case (Cons y ys)
  have set: "set (insort_by cmp x ys) = insert x (set ys)"
    using mset_insort_by [of cmp x ys] by (metis set_mset_add_mset_insert set_mset_mset)
  show ?case
  proof (cases "cmp x y = Greater")
    case True
    then show ?thesis using Cons cmp_le_total by (auto simp: set)
  next
    case False
    then show ?thesis using Cons.prems cmp_trans by auto
  qed
qed simp

lemma sorted_sort_by: "sorted_wrt (\<lambda>a b. cmp a b \<noteq> Greater) (sort_by cmp xs)"
  by (induction xs) (auto intro: sorted_insort_by)

lemma sort_by_best:
  assumes "a \<in> set (take n (sort_by cmp xs))" and "b \<in> set (drop n (sort_by cmp xs))"
  shows "cmp a b \<noteq> Greater"
proof -
  have "sorted_wrt (\<lambda>a b. cmp a b \<noteq> Greater) (take n (sort_by cmp xs) @ drop n (sort_by cmp xs))"
    by (simp only: append_take_drop_id) (rule sorted_sort_by)
  then show ?thesis using assms by (simp only: sorted_wrt_append) blast
qed

lemma foldl_min_least:
  "(let m = foldl (\<lambda>a b. if cmp a b = Greater then b else a) x xs
    in cmp m x \<noteq> Greater \<and> (\<forall>y \<in> set xs. cmp m y \<noteq> Greater))"
proof (induction xs arbitrary: x)
  case (Cons z zs)
  let ?x = "if cmp x z = Greater then z else x"
  let ?m = "foldl (\<lambda>a b. if cmp a b = Greater then b else a) ?x zs"
  have IH: "cmp ?m ?x \<noteq> Greater" "\<forall>y \<in> set zs. cmp ?m y \<noteq> Greater"
    using Cons.IH [of ?x] by (auto simp: Let_def)
  have "cmp ?x x \<noteq> Greater" "cmp ?x z \<noteq> Greater"
    using cmp_le_total by auto
  then have "cmp ?m x \<noteq> Greater" "cmp ?m z \<noteq> Greater"
    using IH(1) cmp_trans by blast+
  then show ?case using IH(2) by (simp add: Let_def)
qed simp

lemma min_by_least: "min_by cmp xs = Some m \<Longrightarrow> y \<in> set xs \<Longrightarrow> cmp m y \<noteq> Greater"
  using foldl_min_least by (cases xs) (auto simp: Let_def)

end

interpretation ord: total_cmp "ord_cmp :: 'a::linorder \<Rightarrow> 'a \<Rightarrow> ordering"
  by unfold_locales (auto simp: ord_cmp_def split: if_splits)

lemma total_cmp_then_with:
  assumes "total_cmp f" and "total_cmp g"
  shows "total_cmp (\<lambda>a b. then_with (f a b) (g a b))"
proof
  fix a b c
  show "then_with (f a b) (g a b) = Less \<longleftrightarrow> then_with (f b a) (g b a) = Greater"
    using total_cmp.cmp_swap [OF assms(1), of a b] total_cmp.cmp_swap [OF assms(1), of b a]
      total_cmp.cmp_swap [OF assms(2), of a b]
    by (cases "f a b"; cases "f b a") auto
  assume h: "then_with (f a b) (g a b) \<noteq> Greater" "then_with (f b c) (g b c) \<noteq> Greater"
  have ac: "f a c \<noteq> Greater"
    using h total_cmp.cmp_trans [OF assms(1), of a b c] by (auto simp: then_with_Greater)
  show "then_with (f a c) (g a c) \<noteq> Greater"
  proof (cases "f a c")
    case Equal
    then have "f c a \<noteq> Greater" using total_cmp.cmp_swap [OF assms(1), of a c] by simp
    then have "f b a \<noteq> Greater" "f c b \<noteq> Greater"
      using h total_cmp.cmp_trans [OF assms(1)] by (metis then_with_Greater)+
    then have "f a b = Equal" "f b c = Equal"
      using h total_cmp.cmp_swap [OF assms(1)] by (metis ordering.exhaust then_with_Greater)+
    then show ?thesis using h Equal total_cmp.cmp_trans [OF assms(2), of a b c] by simp
  qed (use ac in auto)
qed

lemma total_cmp_key: "total_cmp f \<Longrightarrow> total_cmp (\<lambda>a b. f (k a) (k b))"
  unfolding total_cmp_def by blast

lemma total_cmp_flip: "total_cmp f \<Longrightarrow> total_cmp (\<lambda>a b. f b a)"
  unfolding total_cmp_def by blast

section \<open>Ordered maps and sets\<close>

text \<open>A \<open>BTreeMap\<close> is the list of its entries in key order (the order of \<open>iter\<close>,
  \<open>keys\<close> and \<open>values\<close>); \<open>bt_inv\<close> says that the keys increase strictly. A
  \<open>BTreeSet\<close> is a strictly increasing list.\<close>

type_synonym ('k, 'v) btree_map = "('k \<times> 'v) list"
type_synonym 'k btree_set = "'k list"

definition bt_inv :: "('k::linorder, 'v) btree_map \<Rightarrow> bool" where
  "bt_inv m \<longleftrightarrow> sorted_wrt (<) (map fst m)"

fun bt_insert :: "'k::linorder \<Rightarrow> 'v \<Rightarrow> ('k, 'v) btree_map \<Rightarrow> ('k, 'v) btree_map" where
  "bt_insert k v [] = [(k, v)]"
| "bt_insert k v (p # m) =
     (if k < fst p then (k, v) # p # m
      else if k = fst p then (k, v) # m
      else p # bt_insert k v m)"

definition bt_remove :: "'k \<Rightarrow> ('k, 'v) btree_map \<Rightarrow> ('k, 'v) btree_map" where
  "bt_remove k m = filter (\<lambda>p. fst p \<noteq> k) m"

abbreviation bt_get :: "('k, 'v) btree_map \<Rightarrow> 'k \<Rightarrow> 'v option" where
  "bt_get \<equiv> map_of"

abbreviation bt_keys :: "('k, 'v) btree_map \<Rightarrow> 'k list" where
  "bt_keys \<equiv> map fst"

abbreviation bt_values :: "('k, 'v) btree_map \<Rightarrow> 'v list" where
  "bt_values \<equiv> map snd"

definition bt_contains :: "('k, 'v) btree_map \<Rightarrow> 'k \<Rightarrow> bool" where
  "bt_contains m k \<longleftrightarrow> k \<in> fst ` set m"

text \<open>\<open>Iterator::collect\<close> into a map: later entries replace earlier ones.\<close>

definition bt_collect :: "('k::linorder \<times> 'v) list \<Rightarrow> ('k, 'v) btree_map" where
  "bt_collect ps = foldl (\<lambda>m p. bt_insert (fst p) (snd p) m) [] ps"

definition bts_collect :: "'k::linorder list \<Rightarrow> 'k btree_set" where
  "bts_collect xs = sort (remdups xs)"

lemma bt_inv_Nil [simp]: "bt_inv []"
  by (simp add: bt_inv_def)

lemma bt_inv_Cons [simp]: "bt_inv (p # m) \<longleftrightarrow> (\<forall>q \<in> set m. fst p < fst q) \<and> bt_inv m"
  by (auto simp: bt_inv_def)

lemma bt_inv_distinct: "bt_inv m \<Longrightarrow> distinct (map fst m)"
  by (simp add: bt_inv_def strict_sorted_iff)

lemma fst_set_bt_insert [simp]: "fst ` set (bt_insert k v m) = insert k (fst ` set m)"
  by (induction m) auto

lemma set_bt_insert: "bt_inv m \<Longrightarrow> set (bt_insert k v m) = insert (k, v) {p \<in> set m. fst p \<noteq> k}"
  by (induction m) (auto simp: less_le_not_le)

lemma bt_inv_insert [bt_simps, simp]: "bt_inv m \<Longrightarrow> bt_inv (bt_insert k v m)"
proof (induction m)
  case (Cons p m)
  then show ?case by (auto simp: set_bt_insert)
qed simp

lemma map_of_bt_insert [bt_simps, simp]: "bt_inv m \<Longrightarrow> map_of (bt_insert k v m) = (map_of m)(k \<mapsto> v)"
proof (induction m)
  case (Cons p m)
  then show ?case by (cases p) (auto simp: fun_eq_iff)
qed (simp add: fun_eq_iff)

lemma bt_inv_filter [bt_simps, simp]: "bt_inv m \<Longrightarrow> bt_inv (filter P m)"
  by (induction m) auto

lemma bt_inv_remove [bt_simps, simp]: "bt_inv m \<Longrightarrow> bt_inv (bt_remove k m)"
  by (simp add: bt_remove_def)

lemma map_of_bt_remove [bt_simps, simp]: "map_of (bt_remove k m) = (map_of m)(k := None)"
  by (induction m) (auto simp: bt_remove_def fun_eq_iff)

lemma set_bt_remove [bt_simps, simp]: "set (bt_remove k m) = {p \<in> set m. fst p \<noteq> k}"
  by (auto simp: bt_remove_def)

lemma bt_contains_iff: "bt_contains m k \<longleftrightarrow> map_of m k \<noteq> None"
  by (simp add: bt_contains_def map_of_eq_None_iff)

lemma map_of_filter_key:
  "map_of (filter (\<lambda>p. P (fst p)) m) k = (if P k then map_of m k else None)"
  by (induction m) auto

lemma bt_map_of_Some: "bt_inv m \<Longrightarrow> map_of m k = Some v \<longleftrightarrow> (k, v) \<in> set m"
  using bt_inv_distinct by (metis map_of_eq_Some_iff)

lemma bt_inv_collect [bt_simps, simp]: "bt_inv (bt_collect ps)"
proof -
  have "bt_inv m \<Longrightarrow> bt_inv (foldl (\<lambda>m p. bt_insert (fst p) (snd p) m) m ps)" for m
    by (induction ps arbitrary: m) auto
  then show ?thesis by (simp add: bt_collect_def)
qed

lemma fst_set_bt_collect [bt_simps, simp]: "fst ` set (bt_collect ps) = fst ` set ps"
proof -
  have "fst ` set (foldl (\<lambda>m p. bt_insert (fst p) (snd p) m) m ps) = fst ` set m \<union> fst ` set ps" for m
    by (induction ps arbitrary: m) auto
  then show ?thesis by (simp add: bt_collect_def)
qed

lemma map_of_bt_collect [bt_simps]: "map_of (bt_collect ps) = map_of (rev ps)"
proof -
  have "bt_inv m \<Longrightarrow> map_of (foldl (\<lambda>m p. bt_insert (fst p) (snd p) m) m ps) = map_of m ++ map_of (rev ps)" for m
    by (induction ps arbitrary: m) (auto simp: map_add_def fun_eq_iff split: option.splits)
  then show ?thesis by (simp add: bt_collect_def)
qed

lemma length_bt_insert:
  "length (bt_insert k v m) \<le> Suc (length m)"
  "bt_inv m \<Longrightarrow> k \<in> fst ` set m \<Longrightarrow> length (bt_insert k v m) = length m"
  by (induction m rule: bt_insert.induct [where ?a0.0 = k and ?a1.0 = v]) (auto simp: image_iff)

lemma length_bt_collect: "length (bt_collect ps) \<le> length ps"
proof -
  have "length (foldl (\<lambda>m p. bt_insert (fst p) (snd p) m) m ps) \<le> length m + length ps" for m
  proof (induction ps arbitrary: m)
    case (Cons p ps)
    show ?case
      using Cons.IH [of "bt_insert (fst p) (snd p) m"] length_bt_insert(1) [of "fst p" "snd p" m]
      by simp
  qed simp
  from this [of "[]"] show ?thesis by (simp add: bt_collect_def)
qed

lemma bt_eqI:
  assumes "bt_inv m" "bt_inv m'" "map_of m = map_of m'"
  shows "m = m'"
proof -
  have "set m = set m'"
    using assms by (metis map_of_eqI bt_inv_distinct map_of_inject_set set_map_of_compr)
  moreover have "inj_on fst (set m \<union> set m')"
    using calculation bt_inv_distinct [OF assms(1)] by (simp add: distinct_map)
  ultimately show ?thesis
    using assms(1,2) unfolding bt_inv_def
    by (metis list.set_map map_inj_on strict_sorted_equal)
qed

lemma bt_collect_id: "bt_inv m \<Longrightarrow> bt_collect m = m"
proof (rule bt_eqI)
  assume inv: "bt_inv m"
  have "distinct (map fst (rev m))"
    using bt_inv_distinct [OF inv] by (simp add: rev_map [symmetric])
  then show "map_of (bt_collect m) = map_of m"
    using bt_inv_distinct [OF inv] by (simp add: map_of_bt_collect map_of_inject_set)
qed simp_all

lemma bts_collect_simps [bt_simps, simp]:
  "set (bts_collect xs) = set xs" "distinct (bts_collect xs)" "sorted (bts_collect xs)"
  by (simp_all add: bts_collect_def)

lemma bts_collect_eq_iff: "bts_collect xs = bts_collect ys \<longleftrightarrow> set xs = set ys"
  by (metis bts_collect_simps sorted_distinct_set_unique)

section \<open>Results, and computations with state and errors\<close>

text \<open>\<open>Result<T, E>\<close> is \<open>'e + 't\<close>, and \<open>r?\<close> followed by the rest of a body is
  \<open>and_then r (\<lambda>x. rest)\<close>. A \<open>&mut self\<close> method that returns a \<open>Result\<close> is a function
  from the state to its result and the new state: the changes made before an error stay.\<close>

definition and_then :: "'e + 'a \<Rightarrow> ('a \<Rightarrow> 'e + 'b) \<Rightarrow> 'e + 'b" where
  "and_then r f = (case r of Inl e \<Rightarrow> Inl e | Inr x \<Rightarrow> f x)"

definition map_err :: "('e \<Rightarrow> 'f) \<Rightarrow> 'e + 'a \<Rightarrow> 'f + 'a" where
  "map_err g r = (case r of Inl e \<Rightarrow> Inl (g e) | Inr x \<Rightarrow> Inr x)"

definition ok_or :: "'e \<Rightarrow> 'a option \<Rightarrow> 'e + 'a" where
  "ok_or e x = (case x of None \<Rightarrow> Inl e | Some y \<Rightarrow> Inr y)"

definition is_ok :: "'e + 'a \<Rightarrow> bool" where
  "is_ok r = (case r of Inl _ \<Rightarrow> False | Inr _ \<Rightarrow> True)"

fun collect_results :: "('e + 'a) list \<Rightarrow> 'e + 'a list" where
  "collect_results [] = Inr []"
| "collect_results (r # rs) = and_then r (\<lambda>x. and_then (collect_results rs) (\<lambda>xs. Inr (x # xs)))"

lemma and_then_simps [simp]: "and_then (Inl e) f = Inl e" "and_then (Inr x) f = f x"
  by (simp_all add: and_then_def)

lemma map_err_simps [simp]: "map_err g (Inl e) = Inl (g e)" "map_err g (Inr x) = Inr x"
  by (simp_all add: map_err_def)

lemma ok_or_simps [simp]: "ok_or e None = Inl e" "ok_or e (Some x) = Inr x"
  by (simp_all add: ok_or_def)

lemma is_ok_simps [simp]: "\<not> is_ok (Inl e)" "is_ok (Inr x)"
  by (simp_all add: is_ok_def)

lemma and_then_eq_Inr [simp]: "and_then r f = Inr y \<longleftrightarrow> (\<exists>x. r = Inr x \<and> f x = Inr y)"
  by (cases r) auto

lemma collect_results_Inr:
  "collect_results rs = Inr xs \<longleftrightarrow> rs = map Inr xs"
proof (induction rs arbitrary: xs)
  case (Cons r rs)
  show ?case by (cases xs) (auto simp: Cons.IH)
qed auto

type_synonym ('s, 'e, 'a) comp = "'s \<Rightarrow> ('e + 'a) \<times> 's"

definition ret :: "'a \<Rightarrow> ('s, 'e, 'a) comp" where
  "ret x s = (Inr x, s)"

definition fail :: "'e \<Rightarrow> ('s, 'e, 'a) comp" where
  "fail e s = (Inl e, s)"

definition bind :: "('s, 'e, 'a) comp \<Rightarrow> ('a \<Rightarrow> ('s, 'e, 'b) comp) \<Rightarrow> ('s, 'e, 'b) comp" where
  "bind m f s = (case m s of (Inl e, s') \<Rightarrow> (Inl e, s') | (Inr x, s') \<Rightarrow> f x s')"

definition gets :: "('s \<Rightarrow> 'a) \<Rightarrow> ('s, 'e, 'a) comp" where
  "gets f s = (Inr (f s), s)"

definition modify :: "('s \<Rightarrow> 's) \<Rightarrow> ('s, 'e, unit) comp" where
  "modify f s = (Inr (), f s)"

definition lift_result :: "('s \<Rightarrow> 'e + 'a) \<Rightarrow> ('s, 'e, 'a) comp" where
  "lift_result f s = (f s, s)"

lemmas comp_unfold [comp_defs] =
  ret_def fail_def bind_def gets_def modify_def lift_result_def

end
