(* ===== verification/Xor_Space.thy ===== *)
theory Xor_Space
  imports Routing_Prelude "HOL-Library.List_Lexorder"
begin

text \<open>
  Names and prefixes. \<open>XorName\<close> and \<open>Prefix\<close> come from the crate \<open>xor_name\<close>: a name is
  32 bytes (here one 256-bit word, most significant byte first) and a prefix is a string
  of at most 256 bits (here the list of its bits). The crate's functions are not part of
  the repository, so every definition that calls them takes them as a record \<open>xor_ops\<close>.
  The locale \<open>xor_space\<close> states the documented behaviour the code relies on, and
  \<open>bit_ops\<close> is an executable instance of it on all 256-bit names.
\<close>

section \<open>Names, prefixes and the operations of the crate\<close>

type_synonym xor_name = "256 word"
type_synonym pfx = "bool list"
type_synonym socket_addr = nat

text \<open>\<open>name[XOR_NAME_LEN - 1]\<close>: the last byte of a name, which the program reads as the
  age of the node.\<close>

definition last_byte :: "xor_name \<Rightarrow> u8" where
  "last_byte n = ucast n"

text \<open>\<open>name.0\<close>: the 32 bytes of a name, most significant first.\<close>

definition name_bytes :: "xor_name \<Rightarrow> bytes" where
  "name_bytes n = map (\<lambda>i. ucast (drop_bit (8 * (31 - i)) n)) [0..<32]"

record xor_ops =
  xn_bit :: "xor_name \<Rightarrow> nat \<Rightarrow> bool"
  xn_cmp_distance :: "xor_name \<Rightarrow> xor_name \<Rightarrow> xor_name \<Rightarrow> ordering"
  pf_bit_count :: "pfx \<Rightarrow> nat"
  pf_is_empty :: "pfx \<Rightarrow> bool"
  pf_name :: "pfx \<Rightarrow> xor_name"
  pf_matches :: "pfx \<Rightarrow> xor_name \<Rightarrow> bool"
  pf_is_extension_of :: "pfx \<Rightarrow> pfx \<Rightarrow> bool"
  pf_popped :: "pfx \<Rightarrow> pfx"
  pf_pushed :: "pfx \<Rightarrow> bool \<Rightarrow> pfx"
  pf_sibling :: "pfx \<Rightarrow> pfx"
  pf_is_covered_by :: "pfx \<Rightarrow> pfx list \<Rightarrow> bool"
  pf_substituted_in :: "pfx \<Rightarrow> xor_name \<Rightarrow> xor_name"
  pf_cmp :: "pfx \<Rightarrow> pfx \<Rightarrow> ordering"
  pf_cmp_distance :: "pfx \<Rightarrow> pfx \<Rightarrow> xor_name \<Rightarrow> ordering"

section \<open>What the code relies on\<close>

locale xor_space =
  fixes X :: xor_ops
  assumes bits_exist: "\<exists>n. \<forall>i < 256. xn_bit X n i = f i"
    and bit_count [simp]: "pf_bit_count X p = length p"
    and is_empty [simp]: "pf_is_empty X p \<longleftrightarrow> p = []"
    and matches_iff:
      "pf_matches X p n \<longleftrightarrow> length p \<le> 256 \<and> (\<forall>i < length p. xn_bit X n i = p ! i)"
    and is_extension_of [simp]: "pf_is_extension_of X p q \<longleftrightarrow> strict_prefix q p"
    and popped [simp]: "pf_popped X p = butlast p"
    and pushed: "length p < 256 \<Longrightarrow> pf_pushed X p b = p @ [b]"
    and sibling: "p \<noteq> [] \<Longrightarrow> pf_sibling X p = butlast p @ [\<not> last p]"
    and covered_iff: "pf_is_covered_by X p ps \<longleftrightarrow>
      (\<forall>n. pf_matches X p n \<longrightarrow> (\<exists>q \<in> set ps. pf_matches X q n))"
    and substituted_in: "length p \<le> 256 \<Longrightarrow> pf_matches X p (pf_substituted_in X p n)"
    and pf_cmp_total: "total_cmp (pf_cmp X)"
    and pf_cmp_Equal [simp]: "pf_cmp X p q = Equal \<longleftrightarrow> p = q"
    and closer_match:
      "pf_matches X p n \<Longrightarrow> \<not> pf_matches X q n \<Longrightarrow>
       pf_cmp_distance X p q n = Less \<and> pf_cmp_distance X q p n = Greater"
    and distance_total: "total_cmp (xn_cmp_distance X n)"
begin

lemma matches_Nil [simp]: "pf_matches X [] n"
  by (simp add: matches_iff)

lemma matches_append:
  "pf_matches X (p @ q) n \<Longrightarrow> pf_matches X p n"
  by (auto simp: matches_iff nth_append dest: spec [where x = "_ :: nat"])

lemma matches_prefix: "prefix p q \<Longrightarrow> pf_matches X q n \<Longrightarrow> pf_matches X p n"
  by (auto simp: prefix_def matches_append)

lemma matches_butlast: "pf_matches X p n \<Longrightarrow> pf_matches X (butlast p) n"
  using matches_prefix prefixeq_butlast by blast

lemma matches_compatible:
  assumes "pf_matches X p n" "pf_matches X q n" "length p \<le> length q"
  shows "prefix p q"
proof -
  have "p = take (length p) q"
    using assms by (auto simp: matches_iff intro!: nth_equalityI)
  then show ?thesis by (metis take_is_prefix)
qed

lemma matches_same_length:
  "pf_matches X p n \<Longrightarrow> pf_matches X q n \<Longrightarrow> length p = length q \<Longrightarrow> p = q"
  by (metis matches_compatible order_refl prefix_order.antisym)

lemma matches_snoc:
  assumes "length p < 256"
  shows "pf_matches X (p @ [b]) n \<longleftrightarrow> pf_matches X p n \<and> xn_bit X n (length p) = b"
  using assms by (auto simp: matches_iff nth_append less_Suc_eq)

lemma matches_exists: "length p \<le> 256 \<Longrightarrow> \<exists>n. pf_matches X p n"
  using substituted_in by blast

lemma sibling_disjoint:
  assumes "p \<noteq> []" "pf_matches X p n"
  shows "\<not> pf_matches X (pf_sibling X p) n"
proof
  assume "pf_matches X (pf_sibling X p) n"
  then have "pf_sibling X p = p"
    using assms sibling matches_same_length by (metis append_butlast_last_id length_append_singleton)
  then show False using assms(1) sibling by (metis append_butlast_last_id append1_eq_conv)
qed

lemma sibling_sibling: "p \<noteq> [] \<Longrightarrow> pf_sibling X (pf_sibling X p) = p"
  by (simp add: sibling)

lemma sibling_neq: "p \<noteq> [] \<Longrightarrow> pf_sibling X p \<noteq> p"
  by (metis append_butlast_last_id append1_eq_conv sibling)

lemma parent_split:
  assumes "p \<noteq> []" "length p \<le> 256"
  shows "pf_matches X (butlast p) n \<longleftrightarrow> pf_matches X p n \<or> pf_matches X (pf_sibling X p) n"
proof -
  have len: "length (butlast p) < 256" using assms by (cases p) auto
  have "p = butlast p @ [last p]" using assms(1) by simp
  then show ?thesis
    using matches_snoc [OF len, of "last p" n] matches_snoc [OF len, of "\<not> last p" n]
      sibling [OF assms(1)] by metis
qed

lemma closest_matches:
  assumes "min_by (\<lambda>a b. pf_cmp_distance X (f a) (f b) n) xs = Some m"
    and "x \<in> set xs" and "pf_matches X (f x) n"
  shows "pf_matches X (f m) n"
proof -
  let ?sel = "\<lambda>a b. if pf_cmp_distance X (f a) (f b) n = Greater then b else a"
  have sel: "pf_matches X (f (?sel a b)) n \<longleftrightarrow> pf_matches X (f a) n \<or> pf_matches X (f b) n" for a b
    using closer_match [of "f a" n "f b"] closer_match [of "f b" n "f a"]
    by (cases "pf_matches X (f a) n"; cases "pf_matches X (f b) n") auto
  have "pf_matches X (f (foldl ?sel y ys)) n \<longleftrightarrow> (\<exists>z \<in> insert y (set ys). pf_matches X (f z) n)" for y ys
  proof (induction ys arbitrary: y)
    case (Cons z zs)
    show ?case using Cons.IH [of "?sel y z"] sel [of y z] by simp
  qed simp
  then show ?thesis using assms by (cases xs) auto
qed

end

section \<open>An executable instance\<close>

definition name_bit :: "xor_name \<Rightarrow> nat \<Rightarrow> bool" where
  "name_bit n i = bit n (255 - i)"

definition name_bits :: "xor_name \<Rightarrow> bool list" where
  "name_bits n = map (name_bit n) [0..<256]"

definition name_of_bits :: "bool list \<Rightarrow> xor_name" where
  "name_of_bits bs = horner_sum of_bool 2 (rev bs)"

definition bits_match :: "pfx \<Rightarrow> xor_name \<Rightarrow> bool" where
  "bits_match p n \<longleftrightarrow> length p \<le> 256 \<and> take (length p) (name_bits n) = p"

fun bits_cover :: "nat \<Rightarrow> pfx \<Rightarrow> pfx list \<Rightarrow> bool" where
  "bits_cover 0 p ps = list_ex (\<lambda>q. prefix q p) ps"
| "bits_cover (Suc k) p ps =
     (list_ex (\<lambda>q. prefix q p) ps \<or>
      length p < 256 \<and> (bits_cover k (p @ [False]) ps \<and> bits_cover k (p @ [True]) ps))"

definition bits_covered :: "pfx \<Rightarrow> pfx list \<Rightarrow> bool" where
  "bits_covered p ps \<longleftrightarrow>
     256 < length p \<or>
     bits_cover (foldr (\<lambda>q. max (length q)) ps 0 - length p) p (filter (\<lambda>q. length q \<le> 256) ps)"

definition bits_substituted :: "pfx \<Rightarrow> xor_name \<Rightarrow> xor_name" where
  "bits_substituted p n = name_of_bits (take 256 (p @ drop (length p) (name_bits n)))"

text \<open>The number of leading bits of a name that a prefix has.\<close>

definition common_bits :: "pfx \<Rightarrow> xor_name \<Rightarrow> nat" where
  "common_bits p n = length (takeWhile (\<lambda>(a, b). a = b) (zip p (name_bits n)))"

definition bits_cmp_distance :: "pfx \<Rightarrow> pfx \<Rightarrow> xor_name \<Rightarrow> ordering" where
  "bits_cmp_distance p q n =
     (if bits_match p n = bits_match q n then ord_cmp (common_bits q n) (common_bits p n)
      else if bits_match p n then Less else Greater)"

unbundle bit_operations_syntax

definition bit_ops :: xor_ops where
  "bit_ops = \<lparr>
     xn_bit = name_bit,
     xn_cmp_distance = (\<lambda>t a b. ord_cmp (t XOR a) (t XOR b)),
     pf_bit_count = length,
     pf_is_empty = List.null,
     pf_name = (\<lambda>p. bits_substituted p 0),
     pf_matches = bits_match,
     pf_is_extension_of = (\<lambda>p q. strict_prefix q p),
     pf_popped = butlast,
     pf_pushed = (\<lambda>p b. if length p < 256 then p @ [b] else p),
     pf_sibling = (\<lambda>p. if p = [] then [] else butlast p @ [\<not> last p]),
     pf_is_covered_by = bits_covered,
     pf_substituted_in = bits_substituted,
     pf_cmp = ord_cmp,
     pf_cmp_distance = bits_cmp_distance\<rparr>"

lemma length_name_bits [simp]: "length (name_bits n) = 256"
  by (simp add: name_bits_def)

lemma nth_name_bits [simp]: "i < 256 \<Longrightarrow> name_bits n ! i = name_bit n i"
  by (simp add: name_bits_def)

lemma bits_match_iff:
  "bits_match p n \<longleftrightarrow> length p \<le> 256 \<and> (\<forall>i < length p. name_bit n i = p ! i)"
  by (auto simp: bits_match_def list_eq_iff_nth_eq)

lemma name_bit_of_bits:
  assumes "length bs = 256" "i < 256"
  shows "name_bit (name_of_bits bs) i = bs ! i"
proof -
  have "255 - i < 256" by simp
  then show ?thesis
    using assms by (simp add: name_bit_def name_of_bits_def bit_horner_sum_bit_word_iff rev_nth)
qed

lemma bits_exist_names: "\<exists>n. \<forall>i < 256. name_bit n i = f i"
  by (rule exI [of _ "name_of_bits (map f [0..<256])"]) (simp add: name_bit_of_bits)

lemma bits_match_substituted: "length p \<le> 256 \<Longrightarrow> bits_match p (bits_substituted p n)"
  by (auto simp: bits_match_iff bits_substituted_def name_bit_of_bits nth_append)

lemma bits_match_prefix: "prefix q p \<Longrightarrow> bits_match p n \<Longrightarrow> bits_match q n"
  by (auto simp: bits_match_iff prefix_def nth_append split: if_splits)

lemma bits_match_shorter:
  "bits_match p n \<Longrightarrow> bits_match q n \<Longrightarrow> length q \<le> length p \<Longrightarrow> prefix q p"
  by (metis bits_match_def take_is_prefix take_take min.absorb1)

lemma bits_match_snoc:
  "length p < 256 \<Longrightarrow> bits_match (p @ [b]) n \<longleftrightarrow> bits_match p n \<and> name_bit n (length p) = b"
  by (auto simp: bits_match_iff nth_append less_Suc_eq)

lemma bits_cover_sound: "bits_cover k p ps \<Longrightarrow> bits_match p n \<Longrightarrow> \<exists>q \<in> set ps. bits_match q n"
proof (induction k arbitrary: p)
  case 0
  then show ?case by (auto simp: list_ex_iff intro: bits_match_prefix)
next
  case (Suc k)
  show ?case
  proof (cases "list_ex (\<lambda>q. prefix q p) ps")
    case True
    then show ?thesis using Suc.prems by (auto simp: list_ex_iff intro: bits_match_prefix)
  next
    case False
    with Suc.prems have "bits_cover k (p @ [b]) ps" "length p < 256" for b
      by (cases b; simp)+
    then show ?thesis using Suc.IH Suc.prems(2) bits_match_snoc by blast
  qed
qed

lemma bits_cover_complete:
  assumes "\<forall>n. bits_match p n \<longrightarrow> (\<exists>q \<in> set ps. bits_match q n)"
    and "length p \<le> 256" and "\<forall>q \<in> set ps. length q \<le> length p + k"
  shows "bits_cover k p ps"
  using assms
proof (induction k arbitrary: p)
  case 0
  obtain n where "bits_match p n" using bits_match_substituted 0(2) by blast
  then show ?case using 0 bits_match_shorter by (fastforce simp: list_ex_iff)
next
  case (Suc k)
  show ?case
  proof (cases "length p < 256")
    case True
    have "bits_cover k (p @ [b]) ps" for b
      using Suc.prems True by (intro Suc.IH) (auto simp: bits_match_snoc)
    then show ?thesis using True by simp
  next
    case False
    obtain n where n: "bits_match p n" using bits_match_substituted Suc.prems(2) by blast
    then obtain q where "q \<in> set ps" "bits_match q n" using Suc.prems(1) by blast
    moreover from this have "length q \<le> length p" using False by (simp add: bits_match_def)
    ultimately show ?thesis using n bits_match_shorter by (auto simp: list_ex_iff)
  qed
qed

lemma foldr_max_length: "q \<in> set ps \<Longrightarrow> length q \<le> foldr (\<lambda>q. max (length q)) ps 0"
  by (induction ps) auto

lemma bits_covered_iff:
  "bits_covered p ps \<longleftrightarrow> (\<forall>n. bits_match p n \<longrightarrow> (\<exists>q \<in> set ps. bits_match q n))"
proof (cases "length p \<le> 256")
  case True
  let ?qs = "filter (\<lambda>q. length q \<le> 256) ps"
  let ?k = "foldr (\<lambda>q. max (length q)) ps 0 - length p"
  have "bits_cover ?k p ?qs \<longleftrightarrow> (\<forall>n. bits_match p n \<longrightarrow> (\<exists>q \<in> set ?qs. bits_match q n))"
  proof
    assume "\<forall>n. bits_match p n \<longrightarrow> (\<exists>q \<in> set ?qs. bits_match q n)"
    moreover have "\<forall>q \<in> set ?qs. length q \<le> length p + ?k" using foldr_max_length by fastforce
    ultimately show "bits_cover ?k p ?qs" using True by (blast intro: bits_cover_complete)
  qed (blast dest: bits_cover_sound)
  then show ?thesis using True by (auto simp: bits_covered_def bits_match_def)
next
  case False
  then show ?thesis by (simp add: bits_covered_def bits_match_def)
qed

interpretation bits: xor_space bit_ops
proof (rule xor_space.intro)
  show "\<exists>n. \<forall>i < 256. xn_bit bit_ops n i = f i" for f
    using bits_exist_names by (simp add: bit_ops_def)
  show "pf_matches bit_ops p n \<longleftrightarrow> length p \<le> 256 \<and> (\<forall>i < length p. xn_bit bit_ops n i = p ! i)"
    for p n by (simp add: bit_ops_def bits_match_iff)
  show "pf_is_covered_by bit_ops p ps \<longleftrightarrow>
      (\<forall>n. pf_matches bit_ops p n \<longrightarrow> (\<exists>q \<in> set ps. pf_matches bit_ops q n))" for p ps
    by (simp add: bit_ops_def bits_covered_iff)
  show "total_cmp (pf_cmp bit_ops)"
    by (simp add: bit_ops_def ord.total_cmp_axioms)
  show "total_cmp (xn_cmp_distance bit_ops n)" for n
    using total_cmp_key [OF ord.total_cmp_axioms, of "\<lambda>a. n XOR a"] by (simp add: bit_ops_def)
qed (auto simp: bit_ops_def bits_match_substituted bits_cmp_distance_def ord_cmp_def)

end
