(* ===== verification/Wire_Types.thy ===== *)
theory Wire_Types
  imports Xor_Space
begin

text \<open>
  The data the components exchange. The structs and enums are those of \<open>sn_messaging\<close>,
  \<open>bls\<close>, \<open>ed25519_dalek\<close> and \<open>secured_linked_list\<close> as far as the sources under
  \<open>src/\<close> build them, read their fields or match on them; keys, signatures and identifiers
  are opaque tokens. The functions of those crates are fields of the records
  \<open>chain_ops\<close> and \<open>crypto_ops\<close>, which the definitions take as arguments
  (together with the \<open>xor_ops\<close> of \<open>Xor_Space\<close> in one record \<open>env\<close>). The error
  enum is \<open>src/error.rs\<close>.
\<close>

section \<open>Keys, signatures, identifiers\<close>

datatype bls_public_key = BlsPk nat
datatype bls_signature = BlsSig nat
datatype public_key_share = PkShare nat
datatype signature_share = SigShare nat
datatype public_key_set = PkSet nat
datatype secret_key_share = SkShare nat
datatype ed_public_key = EdPk nat
datatype ed_signature = EdSig nat
datatype message_id = MessageId nat
datatype dkg_message = DkgMsg nat

record keypair =
  kp_secret :: nat
  kp_public :: ed_public_key

record node =
  nd_keypair :: keypair
  nd_addr :: socket_addr

text \<open>Identifiers are ordered, as the keys of a \<open>BTreeMap\<close> need them to be.\<close>

instantiation message_id :: linorder
begin

fun less_eq_message_id :: "message_id \<Rightarrow> message_id \<Rightarrow> bool" where
  "less_eq_message_id (MessageId a) (MessageId b) = (a \<le> b)"

fun less_message_id :: "message_id \<Rightarrow> message_id \<Rightarrow> bool" where
  "less_message_id (MessageId a) (MessageId b) = (a < b)"

instance
proof
  fix x y z :: message_id
  show "(x < y) = (x \<le> y \<and> \<not> y \<le> x)" by (cases x; cases y) auto
  show "x \<le> x" by (cases x) simp
  show "x \<le> y \<Longrightarrow> y \<le> z \<Longrightarrow> x \<le> z" by (cases x; cases y; cases z) simp
  show "x \<le> y \<Longrightarrow> y \<le> x \<Longrightarrow> x = y" by (cases x; cases y) simp
  show "x \<le> y \<or> y \<le> x" by (cases x; cases y) auto
qed

end

section \<open>Section data\<close>

record peer =
  peer_name :: xor_name
  peer_addr :: socket_addr
  peer_reachable :: bool

datatype membership_state = Joined | Left | Relocated xor_name

record node_state =
  ns_peer :: peer
  ns_state :: membership_state

record signed =
  sg_public_key :: bls_public_key
  sg_signature :: bls_signature

record 'a section_signed =
  ss_value :: 'a
  ss_signed :: signed

record signed_share =
  sh_public_key_set :: public_key_set
  sh_index :: nat
  sh_signature_share :: signature_share

record elder_candidates =
  ec_elders :: "(xor_name, socket_addr) btree_map"
  ec_prefix :: pfx

record section_auth =
  sa_prefix :: pfx
  sa_public_key_set :: public_key_set
  sa_elders :: "(xor_name, socket_addr) btree_map"

type_synonym section_peers = "(xor_name, node_state section_signed) btree_map"

record 'c section_state =
  sec_genesis_key :: bls_public_key
  sec_chain :: 'c
  sec_auth :: "section_auth section_signed"
  sec_members :: section_peers

record other_section =
  os_section_auth :: "section_auth section_signed"
  os_key_signed :: "signed option"

text \<open>\<open>Network\<close> holds a \<open>PrefixMap<OtherSection>\<close>, given by the entries its iterator
  yields.\<close>

record network =
  nw_sections :: "other_section list"

record dkg_key =
  dk_hash :: bytes
  dk_generation :: u64

record dkg_failure_signed =
  df_public_key :: ed_public_key
  df_signature :: ed_signature

record dkg_failure_signed_set =
  dfs_signeds :: "dkg_failure_signed list"
  dfs_non_participants :: "xor_name btree_set"

record section_key_share =
  ks_public_key_set :: public_key_set
  ks_index :: nat
  ks_secret_key_share :: secret_key_share

section \<open>Messages\<close>

record end_user =
  eu_xorname :: xor_name
  eu_socket_id :: xor_name

datatype dst_location =
    DstNode xor_name
  | DstSection xor_name
  | DstEndUser end_user
  | DirectAndUnrouted

datatype src_location =
    SrcNode xor_name
  | SrcSection xor_name
  | SrcEndUser end_user

datatype aggregation = AggNone | AtSource | AtDestination

text \<open>The destination name of a \<open>DestInfo\<close>. Where the code draws \<open>XorName::random()\<close>
  (the value is overwritten when the message is sent) the draw is left symbolic.\<close>

datatype dest_name = Dest xor_name | RandomDest

record dest_info =
  di_dest :: dest_name
  di_section_pk :: bls_public_key

record relocate_details =
  rd_pub_id :: xor_name
  rd_destination :: xor_name
  rd_destination_key :: bls_public_key
  rd_age :: u8

record relocate_promise =
  rp_name :: xor_name
  rp_destination :: xor_name

record resource_proof_response =
  rpr_solution :: u64
  rpr_data :: bytes
  rpr_nonce :: bytes
  rpr_nonce_signature :: ed_signature

record join_request =
  jr_section_key :: bls_public_key
  jr_resource_proof_response :: "resource_proof_response option"

datatype join_rejection_reason = NodeNotReachableReason socket_addr | JoinsDisallowed

datatype 'c join_response =
    Approval bls_public_key "section_auth section_signed" "node_state section_signed" 'c
  | Retry section_auth
  | Redirect section_auth
  | Rejected join_rejection_reason
  | ResourceChallenge nat u8 bytes ed_signature

datatype 'c join_as_relocated_response =
    RelocatedApproval "section_auth section_signed" "node_state section_signed" 'c
  | RelocatedRetry section_auth
  | RelocatedRedirect section_auth
  | RelocatedNodeNotReachable socket_addr

datatype 'c src_authority =
    NodeAuth ed_public_key ed_signature
  | BlsShareAuth xor_name signed_share 'c
  | SectionSrcAuth xor_name signed 'c

datatype 'c routing_msg =
    RoutingMsg (msg_id: message_id) (msg_src: "'c src_authority") (msg_dst: dst_location)
      (msg_aggregation: aggregation) (msg_variant: "'c variant") (msg_section_pk: bls_public_key)
and 'c variant =
    SectionKnowledge "section_auth section_signed" 'c "'c routing_msg option"
  | Sync "'c section_state" network
  | Relocate relocate_details
  | RelocatePromise relocate_promise
  | StartConnectivityTest xor_name
  | JoinRequest join_request
  | JoinResponse "'c join_response"
  | JoinAsRelocatedRequest bls_public_key "'c relocate_payload option"
  | JoinAsRelocatedResponse "'c join_as_relocated_response"
  | UserMessage bytes
  | BouncedUntrustedMessage "'c routing_msg" dest_info
  | SectionKnowledgeQuery "bls_public_key option" "'c routing_msg"
  | DkgStart dkg_key elder_candidates
  | DkgMessage dkg_key dkg_message
  | DkgFailureObservation dkg_key dkg_failure_signed "xor_name btree_set"
  | DkgFailureAgreement dkg_failure_signed_set
  | Propose "'c proposal" signed_share
and 'c proposal =
    Online node_state "xor_name option" "bls_public_key option"
  | Offline node_state
  | SectionInfo section_auth
  | OurElders "section_auth section_signed"
  | AccumulateAtSrc "'c plain_message" 'c
  | JoinsAllowed message_id bool
and 'c plain_message =
    PlainMessage (pm_src: xor_name) (pm_dst: dst_location) (pm_dst_key: bls_public_key)
      (pm_variant: "'c variant")
and 'c relocate_payload =
    RelocatePayload (pl_details: "'c routing_msg") (pl_signature: ed_signature)

datatype get_section_response = Success section_auth | RedirectTo section_auth

section \<open>Errors\<close>

datatype sll_error = InvalidOperation | OtherChainError nat

datatype aggregator_error = NotEnoughShares | OtherAggregatorError nat

datatype proposal_error = Aggregation aggregator_error | InvalidProposal

datatype create_error = CreateFailedSignature | PublicKeyMismatch

datatype error =
    FailedSignature
  | CannotRoute
  | EmptyRecipientList
  | InvalidConfig
  | CannotConnectEndpoint
  | AddressNotReachable
  | InvalidState
  | InvalidSrcLocation
  | InvalidDstLocation
  | InvalidMessage
  | InvalidSignatureShare
  | MissingSecretKeyShare
  | FailedSend socket_addr xor_name
  | ConnectionClosed
  | InvalidSectionChain sll_error
  | Messaging nat
  | ProposalError proposal_error
  | CreateError create_error
  | InvalidPayload
  | TryJoinLater
  | NoMatchingSection
  | NoMatchingElder
  | NodeNotReachable socket_addr

section \<open>The functions of the crates\<close>

text \<open>\<open>SecuredLinkedList\<close>: the chain of section keys, of an abstract type \<open>'c\<close>.\<close>

record 'c chain_ops =
  sll_new :: "bls_public_key \<Rightarrow> 'c"
  sll_keys :: "'c \<Rightarrow> bls_public_key list"
  sll_has_key :: "'c \<Rightarrow> bls_public_key \<Rightarrow> bool"
  sll_last_key :: "'c \<Rightarrow> bls_public_key"
  sll_prev_key :: "'c \<Rightarrow> bls_public_key"
  sll_root_key :: "'c \<Rightarrow> bls_public_key"
  sll_main_branch_len :: "'c \<Rightarrow> nat"
  sll_cmp_by_position :: "'c \<Rightarrow> bls_public_key \<Rightarrow> bls_public_key \<Rightarrow> ordering"
  sll_insert :: "'c \<Rightarrow> bls_public_key \<Rightarrow> bls_public_key \<Rightarrow> bls_signature \<Rightarrow> sll_error + 'c"
  sll_merge :: "'c \<Rightarrow> 'c \<Rightarrow> sll_error + 'c"
  sll_extend :: "'c \<Rightarrow> bls_public_key \<Rightarrow> 'c \<Rightarrow> sll_error + 'c"
  sll_minimize :: "'c \<Rightarrow> bls_public_key list \<Rightarrow> sll_error + 'c"
  sll_proof_chain :: "'c \<Rightarrow> bls_public_key \<Rightarrow> sll_error + 'c"
  sll_check_trust :: "'c \<Rightarrow> bls_public_key list \<Rightarrow> bool"

text \<open>What is serialised with \<open>bincode\<close> for signing, hashing or sending.\<close>

datatype 'c payload =
    PNodeState node_state
  | PSectionAuth section_auth
  | PPublicKey bls_public_key
  | PView dst_location "'c variant"
  | PJoinsAllowed message_id bool
  | PNonce xor_name bytes
  | PSocketAddr socket_addr

datatype id_content =
    IdEdSignature ed_signature
  | IdSignatureShare signature_share
  | IdSignature bls_signature
  | IdNames "xor_name list"

record 'c crypto_ops =
  serialize :: "'c payload \<Rightarrow> bytes option"
  signed_verify :: "signed \<Rightarrow> bytes \<Rightarrow> bool"
  bls_verify :: "bls_public_key \<Rightarrow> bls_signature \<Rightarrow> bytes \<Rightarrow> bool"
  sig_cmp :: "bls_signature \<Rightarrow> bls_signature \<Rightarrow> ordering"
  sig_bytes :: "bls_signature \<Rightarrow> bytes"
  share_verify :: "signed_share \<Rightarrow> bytes \<Rightarrow> bool"
  share_sign :: "secret_key_share \<Rightarrow> bytes \<Rightarrow> signature_share"
  combine_signatures :: "public_key_set \<Rightarrow> (nat \<times> signature_share) list \<Rightarrow> bls_signature option"
  pks_public_key :: "public_key_set \<Rightarrow> bls_public_key"
  pks_public_key_share :: "public_key_set \<Rightarrow> nat \<Rightarrow> public_key_share"
  sks_public_key_share :: "secret_key_share \<Rightarrow> public_key_share"
  ed_sign :: "keypair \<Rightarrow> bytes \<Rightarrow> ed_signature"
  ed_verify :: "ed_public_key \<Rightarrow> bytes \<Rightarrow> ed_signature \<Rightarrow> bool"
  ed_to_bytes :: "ed_public_key \<Rightarrow> xor_name"
  ed_from_bytes :: "xor_name \<Rightarrow> ed_public_key option"
  name_from_public_key :: "ed_public_key \<Rightarrow> xor_name"
  name_from_content :: "bytes list \<Rightarrow> xor_name"
  sha3_256 :: "bytes list \<Rightarrow> bytes"
  id_from_content :: "id_content \<Rightarrow> message_id option"
  id_default :: message_id

record 'c env =
  ev_xor :: xor_ops
  ev_chain :: "'c chain_ops"
  ev_crypto :: "'c crypto_ops"

end
