(* ===== verification/Peers_Nodes.thy ===== *)
theory Peers_Nodes
  imports Wire_Types
begin

text \<open>
  Peers, our node, membership states and key pairs: \<open>src/peer.rs\<close>, \<open>src/node.rs\<close>,
  \<open>src/section/node_state.rs\<close> and \<open>src/ed25519.rs\<close>. The last byte of a name is the age of
  the node. \<open>gen_keypair\<close> takes the key pairs its random generator would yield as a list.
\<close>

section \<open>Peers\<close>

definition peer_new :: "xor_name \<Rightarrow> socket_addr \<Rightarrow> peer" where
  "peer_new name addr = \<lparr>peer_name = name, peer_addr = addr, peer_reachable = False\<rparr>"

definition set_reachable :: "bool \<Rightarrow> peer \<Rightarrow> peer" where
  "set_reachable reachable p = p\<lparr>peer_reachable := reachable\<rparr>"

definition peer_age :: "peer \<Rightarrow> u8" where
  "peer_age p = last_byte (peer_name p)"

section \<open>Our node\<close>

definition node_new :: "keypair \<Rightarrow> socket_addr \<Rightarrow> node" where
  "node_new keypair addr = \<lparr>nd_keypair = keypair, nd_addr = addr\<rparr>"

definition node_name :: "'c crypto_ops \<Rightarrow> node \<Rightarrow> xor_name" where
  "node_name cr n = name_from_public_key cr (kp_public (nd_keypair n))"

definition node_peer :: "'c crypto_ops \<Rightarrow> node \<Rightarrow> peer" where
  "node_peer cr n = peer_new (node_name cr n) (nd_addr n)"

definition node_age :: "'c crypto_ops \<Rightarrow> node \<Rightarrow> u8" where
  "node_age cr n = last_byte (node_name cr n)"

section \<open>Membership\<close>

definition MIN_AGE :: u8 where
  "MIN_AGE = 4"

definition MIN_ADULT_AGE :: u8 where
  "MIN_ADULT_AGE = MIN_AGE + 1"

definition FIRST_SECTION_MIN_AGE :: u8 where
  "FIRST_SECTION_MIN_AGE = MIN_ADULT_AGE + 1"

definition FIRST_SECTION_MAX_AGE :: u8 where
  "FIRST_SECTION_MAX_AGE = 100"

definition joined_state :: "peer \<Rightarrow> node_state" where
  "joined_state p = \<lparr>ns_peer = p, ns_state = Joined\<rparr>"

definition is_mature :: "node_state \<Rightarrow> bool" where
  "is_mature ns \<longleftrightarrow> MIN_AGE < peer_age (ns_peer ns)"

definition leave :: "node_state \<Rightarrow> error + node_state" where
  "leave ns = (case ns_state ns of Relocated _ \<Rightarrow> Inl InvalidState | _ \<Rightarrow> Inr (ns\<lparr>ns_state := Left\<rparr>))"

definition relocate :: "xor_name \<Rightarrow> node_state \<Rightarrow> node_state" where
  "relocate destination ns = ns\<lparr>ns_state := Relocated destination\<rparr>"

section \<open>Key pairs\<close>

definition ed_pub_key :: "'c crypto_ops \<Rightarrow> xor_name \<Rightarrow> ed_public_key option" where
  "ed_pub_key cr name = ed_from_bytes cr name"

definition ed_name :: "'c crypto_ops \<Rightarrow> ed_public_key \<Rightarrow> xor_name" where
  "ed_name cr pk = ed_to_bytes cr pk"

fun gen_keypair :: "'c crypto_ops \<Rightarrow> xor_name \<times> xor_name \<Rightarrow> u8 \<Rightarrow> keypair list \<Rightarrow> keypair option" where
  "gen_keypair cr interval age [] = None"
| "gen_keypair cr interval age (keypair # draws) =
     (let new_name = name_from_public_key cr (kp_public keypair)
      in if fst interval \<le> new_name \<and> new_name \<le> snd interval \<and> age = last_byte new_name
         then Some keypair
         else gen_keypair cr interval age draws)"

section \<open>Lemmas\<close>

lemma peer_new_simps [simp]:
  "peer_name (peer_new n a) = n" "peer_addr (peer_new n a) = a" "\<not> peer_reachable (peer_new n a)"
  by (simp_all add: peer_new_def)

lemma set_reachable_simps [simp]:
  "peer_name (set_reachable r p) = peer_name p" "peer_addr (set_reachable r p) = peer_addr p"
  "peer_reachable (set_reachable r p) = r"
  by (simp_all add: set_reachable_def)

lemma joined_state_simps [simp]:
  "ns_peer (joined_state p) = p" "ns_state (joined_state p) = Joined"
  by (simp_all add: joined_state_def)

lemma relocate_simps [simp]:
  "ns_peer (relocate d ns) = ns_peer ns" "ns_state (relocate d ns) = Relocated d"
  by (simp_all add: relocate_def)

lemma leave_Inr [simp]:
  "leave ns = Inr ns' \<longleftrightarrow> (\<forall>d. ns_state ns \<noteq> Relocated d) \<and> ns' = ns\<lparr>ns_state := Left\<rparr>"
  by (auto simp: leave_def split: membership_state.splits)

lemma gen_keypair_Some:
  assumes "gen_keypair cr (lo, hi) age draws = Some kp"
  shows "kp \<in> set draws \<and> lo \<le> node_name cr (node_new kp a) \<and> node_name cr (node_new kp a) \<le> hi \<and>
    node_age cr (node_new kp a) = age"
  using assms
  by (induction draws) (auto simp: Let_def node_name_def node_age_def node_new_def split: if_splits)

end
