(* ===== verification/Section_Authority.thy ===== *)
theory Section_Authority
  imports Peers_Nodes
begin

text \<open>
  Elder candidates of a key generation round and the section authority provider, the named
  set of elders with their section key: \<open>src/section/section_authority_provider.rs\<close>.
\<close>

section \<open>Elder candidates\<close>

definition elder_candidates_new :: "peer list \<Rightarrow> pfx \<Rightarrow> elder_candidates" where
  "elder_candidates_new elders pre =
     \<lparr>ec_elders = bt_collect (map (\<lambda>p. (peer_name p, peer_addr p)) elders), ec_prefix = pre\<rparr>"

definition ec_peers :: "elder_candidates \<Rightarrow> peer list" where
  "ec_peers ec = map (\<lambda>(name, addr). set_reachable True (peer_new name addr)) (ec_elders ec)"

fun position_of :: "'a \<Rightarrow> 'a list \<Rightarrow> nat option" where
  "position_of x [] = None"
| "position_of x (y # ys) = (if y = x then Some 0 else map_option Suc (position_of x ys))"

definition ec_position :: "elder_candidates \<Rightarrow> xor_name \<Rightarrow> nat option" where
  "ec_position ec name = position_of name (bt_keys (ec_elders ec))"

section \<open>The section authority provider\<close>

definition section_auth_new :: "peer list \<Rightarrow> pfx \<Rightarrow> public_key_set \<Rightarrow> section_auth" where
  "section_auth_new elders pre pk_set =
     \<lparr>sa_prefix = pre, sa_public_key_set = pk_set,
      sa_elders = bt_collect (map (\<lambda>p. (peer_name p, peer_addr p)) elders)\<rparr>"

definition from_elder_candidates :: "elder_candidates \<Rightarrow> public_key_set \<Rightarrow> section_auth" where
  "from_elder_candidates ec pk_set =
     \<lparr>sa_prefix = ec_prefix ec, sa_public_key_set = pk_set, sa_elders = bt_collect (ec_elders ec)\<rparr>"

definition sap_elders :: "section_auth \<Rightarrow> (xor_name, socket_addr) btree_map" where
  "sap_elders sap = bt_collect (sa_elders sap)"

definition sap_elder_candidates :: "section_auth \<Rightarrow> elder_candidates" where
  "sap_elder_candidates sap = \<lparr>ec_elders = sap_elders sap, ec_prefix = sa_prefix sap\<rparr>"

definition sap_peers :: "section_auth \<Rightarrow> peer list" where
  "sap_peers sap = map (\<lambda>(name, addr). set_reachable True (peer_new name addr)) (sa_elders sap)"

definition elder_count :: "section_auth \<Rightarrow> nat" where
  "elder_count sap = length (sa_elders sap)"

definition contains_elder :: "section_auth \<Rightarrow> xor_name \<Rightarrow> bool" where
  "contains_elder sap name \<longleftrightarrow> bt_contains (sa_elders sap) name"

definition get_addr :: "section_auth \<Rightarrow> xor_name \<Rightarrow> socket_addr option" where
  "get_addr sap name = bt_get (sa_elders sap) name"

definition sap_names :: "section_auth \<Rightarrow> xor_name btree_set" where
  "sap_names sap = bts_collect (bt_keys (sa_elders sap))"

definition sap_addresses :: "section_auth \<Rightarrow> socket_addr list" where
  "sap_addresses sap = bt_values (sa_elders sap)"

definition section_key :: "'c crypto_ops \<Rightarrow> section_auth \<Rightarrow> bls_public_key" where
  "section_key cr sap = pks_public_key cr (sa_public_key_set sap)"

section \<open>Lemmas\<close>

definition sap_inv :: "section_auth \<Rightarrow> bool" where
  "sap_inv sap \<longleftrightarrow> bt_inv (sa_elders sap)"

definition ec_inv :: "elder_candidates \<Rightarrow> bool" where
  "ec_inv ec \<longleftrightarrow> bt_inv (ec_elders ec)"

lemma contains_elder_iff: "contains_elder sap name \<longleftrightarrow> name \<in> fst ` set (sa_elders sap)"
  by (simp add: contains_elder_def bt_contains_iff map_of_eq_None_iff)

lemma set_sap_names [simp]: "set (sap_names sap) = fst ` set (sa_elders sap)"
  by (simp add: sap_names_def)

lemma sap_peers_names: "map peer_name (sap_peers sap) = bt_keys (sa_elders sap)"
  by (simp add: sap_peers_def split_beta)

lemma sap_peers_entries: "map (\<lambda>p. (peer_name p, peer_addr p)) (sap_peers sap) = sa_elders sap"
  by (simp add: sap_peers_def split_beta o_def)

lemma names_sap_peers: "peer_name ` set (sap_peers sap) = fst ` set (sa_elders sap)"
  by (metis list.set_map sap_peers_names)

lemma ec_peers_names: "map peer_name (ec_peers ec) = bt_keys (ec_elders ec)"
  by (simp add: ec_peers_def split_beta)

lemma ec_inv_new [simp]: "ec_inv (elder_candidates_new ps p)"
  by (simp add: ec_inv_def elder_candidates_new_def)

lemma sap_inv_new [simp]: "sap_inv (section_auth_new ps p k)"
  by (simp add: sap_inv_def section_auth_new_def)

lemma sap_inv_from_elder_candidates [simp]: "sap_inv (from_elder_candidates ec k)"
  by (simp add: sap_inv_def from_elder_candidates_def)

lemma names_elder_candidates_new:
  "fst ` set (ec_elders (elder_candidates_new ps p)) = peer_name ` set ps"
  by (simp add: elder_candidates_new_def image_image)

lemma ec_prefix_new [simp]: "ec_prefix (elder_candidates_new ps p) = p"
  by (simp add: elder_candidates_new_def)

lemma sa_prefix_new [simp]:
  "sa_prefix (section_auth_new ps p k) = p" "sa_prefix (from_elder_candidates ec k) = ec_prefix ec"
  by (simp_all add: section_auth_new_def from_elder_candidates_def)

lemma section_key_new [simp]:
  "section_key cr (section_auth_new ps p k) = pks_public_key cr k"
  "section_key cr (from_elder_candidates ec k) = pks_public_key cr k"
  by (simp_all add: section_key_def section_auth_new_def from_elder_candidates_def)

lemma position_of_Some: "position_of x ys = Some i \<Longrightarrow> i < length ys \<and> ys ! i = x"
  by (induction ys arbitrary: i) (auto split: if_splits)

lemma position_of_None: "position_of x ys = None \<longleftrightarrow> x \<notin> set ys"
  by (induction ys) auto

text \<open>Elder candidates survive the round trip through a section authority provider, and
  the candidates built from a provider's peers are that provider's own: nothing but the key
  set is added.\<close>

theorem elder_candidates_roundtrip:
  assumes "ec_inv ec" and "sap_inv sap"
  shows "sap_elder_candidates (from_elder_candidates ec k) = ec \<and>
    elder_candidates_new (sap_peers sap) (sa_prefix sap) = sap_elder_candidates sap \<and>
    from_elder_candidates (sap_elder_candidates sap) (sa_public_key_set sap) = sap"
  using assms
  by (simp add: sap_elder_candidates_def from_elder_candidates_def sap_elders_def ec_inv_def sap_inv_def
      bt_collect_id elder_candidates_new_def sap_peers_entries)

theorem elder_candidates_roundtrip_witness:
  "sap_elder_candidates (from_elder_candidates \<lparr>ec_elders = [(1, 5), (2, 6)], ec_prefix = []\<rparr> (PkSet 0)) =
   \<lparr>ec_elders = [(1, 5), (2, 6)], ec_prefix = []\<rparr>"
  using elder_candidates_roundtrip [of "\<lparr>ec_elders = [(1, 5), (2, 6)], ec_prefix = []\<rparr>"
      "section_auth_new [] [] (PkSet 0)"]
  by (simp add: ec_inv_def)

text \<open>A position handed out for an elder is its index among the elders in name order, so
  it is below the number of elders, different elders have different positions and exactly
  the elders have one: the positions are usable as key share indices.\<close>

theorem position_is_share_index:
  shows "(ec_position ec a = None \<longleftrightarrow> a \<notin> fst ` set (ec_elders ec)) \<and>
    (\<forall>i. ec_position ec a = Some i \<longrightarrow> i < length (ec_elders ec) \<and> bt_keys (ec_elders ec) ! i = a) \<and>
    (\<forall>i. ec_position ec a = Some i \<and> ec_position ec b = Some i \<longrightarrow> a = b)"
  using position_of_Some [of a "bt_keys (ec_elders ec)"] position_of_Some [of b "bt_keys (ec_elders ec)"]
  by (auto simp: ec_position_def position_of_None)

theorem position_is_share_index_witness:
  "ec_position \<lparr>ec_elders = [(1, 5), (2, 6)], ec_prefix = []\<rparr> 2 \<noteq> None"
  using position_is_share_index [of "\<lparr>ec_elders = [(1, 5), (2, 6)], ec_prefix = []\<rparr>" 2]
  by simp

end
