(* ===== verification/Quorum.thy ===== *)
theory Quorum
  imports Wire_Types
begin

text \<open>
  The sizes and quorums of \<open>src/lib.rs\<close>, and the rule of \<open>src/dkg/dkg_msgs_utils.rs\<close> for
  when enough participants have reported the failure of a key generation. The locale
  \<open>byzantine_quorum\<close> is what the protocol needs of a quorum size; \<open>supermajority\<close> is
  an instance.
\<close>

section \<open>Definitions\<close>

definition ELDER_SIZE :: nat where
  "ELDER_SIZE = 7"

definition RECOMMENDED_SECTION_SIZE :: nat where
  "RECOMMENDED_SECTION_SIZE = 2 * ELDER_SIZE"

definition supermajority :: "nat \<Rightarrow> nat" where
  "supermajority group_size = 1 + group_size * 2 div 3"

text \<open>Subtraction on \<open>usize\<close>: an underflow is an arithmetic overflow panic (\<open>None\<close>).\<close>

definition usize_sub :: "nat \<Rightarrow> nat \<Rightarrow> nat option" where
  "usize_sub a b = (if b \<le> a then Some (a - b) else None)"

definition has_failure_agreement :: "nat \<Rightarrow> nat \<Rightarrow> bool option" where
  "has_failure_agreement num_participants num_votes =
     map_option (\<lambda>d. d < num_votes) (usize_sub num_participants (supermajority num_participants))"

section \<open>Quorums\<close>

locale byzantine_quorum =
  fixes quorum :: "nat \<Rightarrow> nat"
  assumes quorum_le: "0 < n \<Longrightarrow> quorum n \<le> n"
    and quorum_overlap: "4 * n < 6 * quorum n"
begin

lemma card_overlap:
  assumes "finite G" "A \<subseteq> G" "B \<subseteq> G"
  shows "card A + card B \<le> card G + card (A \<inter> B)"
proof -
  have "card A + card B = card (A \<union> B) + card (A \<inter> B)"
    using assms by (metis card_Un_Int finite_subset)
  then show ?thesis using card_mono [of G "A \<union> B"] assms by simp
qed

lemma overlap_third:
  assumes "finite G" "A \<subseteq> G" "B \<subseteq> G" "quorum (card G) \<le> card A" "quorum (card G) \<le> card B"
  shows "card G < 3 * card (A \<inter> B)"
  using card_overlap [OF assms(1-3)] quorum_overlap [of "card G"] assms(4,5) by linarith

lemma honest_overlap:
  assumes "finite G" "A \<subseteq> G" "B \<subseteq> G" "quorum (card G) \<le> card A" "quorum (card G) \<le> card B"
    and "3 * card F \<le> card G" "finite F"
  shows "\<exists>x \<in> A \<inter> B. x \<notin> F"
proof (rule ccontr)
  assume "\<not> ?thesis"
  then have "card (A \<inter> B) \<le> card F" using assms(7) by (intro card_mono) auto
  then show False using overlap_third [OF assms(1-5)] assms(6) by linarith
qed

lemma blocking_overlap:
  assumes "finite G" "A \<subseteq> G" "B \<subseteq> G" "quorum (card G) \<le> card A" "card G - quorum (card G) < card B"
  shows "A \<inter> B \<noteq> {}"
proof
  assume "A \<inter> B = {}"
  then have "card A + card B \<le> card G" using card_overlap [OF assms(1-3)] by simp
  then show False using assms(4,5) by linarith
qed

end

lemma supermajority_le: "0 < n \<Longrightarrow> supermajority n \<le> n"
  by (simp add: supermajority_def)

interpretation sm: byzantine_quorum supermajority
  by unfold_locales (auto simp: supermajority_le supermajority_def)

lemma supermajority_pos [simp]: "0 < supermajority n"
  by (simp add: supermajority_def)

lemma has_failure_agreement_Some:
  "0 < n \<Longrightarrow> has_failure_agreement n v = Some (n - supermajority n < v)"
  by (simp add: has_failure_agreement_def usize_sub_def supermajority_le)

section \<open>Properties\<close>

text \<open>C1. Two groups of members that each reach the supermajority of the same section share
  more members than a third of the section: whenever at most a third of the section is
  faulty, some member that is not faulty took part in both decisions.
\<close>

theorem supermajorities_share_honest_member:
  assumes "finite G" "A \<subseteq> G" "B \<subseteq> G"
    and "supermajority (card G) \<le> card A" "supermajority (card G) \<le> card B"
    and "finite F" "3 * card F \<le> card G"
  shows "card G < 3 * card (A \<inter> B) \<and> (\<exists>x \<in> A \<inter> B. x \<notin> F)"
  using sm.overlap_third [OF assms(1-5)] sm.honest_overlap [OF assms(1-5,7,6)] by blast

theorem supermajorities_share_honest_member_witness:
  "card {0..<7::nat} < 3 * card ({0..<5} \<inter> {2..<7::nat}) \<and>
   (\<exists>x \<in> {0..<5} \<inter> {2..<7::nat}. x \<notin> {2, 3})"
  by (rule supermajorities_share_honest_member) (auto simp: supermajority_def)

text \<open>C2. The failure rule of the key generation: with at least one participant the check
  never underflows; it holds exactly when the participants that have not reported the
  failure are too few for a supermajority; and the reporters of an agreed failure share a
  member with every group that reaches the supermajority.
\<close>

theorem failure_agreement_excludes_success:
  assumes "finite G" "G \<noteq> {}" "B \<subseteq> G"
  shows "has_failure_agreement (card G) (card B) \<noteq> None \<and>
    (has_failure_agreement (card G) (card B) = Some True \<longleftrightarrow>
       card (G - B) < supermajority (card G)) \<and>
    (has_failure_agreement (card G) (card B) = Some True \<longrightarrow>
       (\<forall>A. A \<subseteq> G \<longrightarrow> supermajority (card G) \<le> card A \<longrightarrow> A \<inter> B \<noteq> {}))"
proof -
  have pos: "0 < card G" using assms(1,2) by (simp add: card_gt_0_iff)
  have diff: "card (G - B) = card G - card B" "card B \<le> card G"
    using assms by (auto simp: card_Diff_subset finite_subset card_mono)
  show ?thesis
    using sm.blocking_overlap [OF assms(1) _ assms(3)] supermajority_le [OF pos] pos diff
    by (auto simp: has_failure_agreement_Some)
qed

theorem failure_agreement_excludes_success_witness:
  "has_failure_agreement 7 3 = Some True \<and> has_failure_agreement 7 2 = Some False \<and>
   has_failure_agreement (card {0..<7::nat}) (card {0..<3::nat}) \<noteq> None"
  using failure_agreement_excludes_success [of "{0..<7::nat}" "{0..<3}"]
  by (auto simp: has_failure_agreement_def usize_sub_def supermajority_def)

end
