(* ===== verification/Stand_Ins.thy ===== *)
theory Stand_Ins
  imports Wire_Types
begin

text \<open>
  Executable functions that stand in for the crates of the parameters \<open>crypto_ops\<close> and
  \<open>chain_ops\<close> where a property is applied to concrete data. Keys and signatures are
  tokens: a signature is valid for a key exactly when it carries the key's number. A chain is
  the list of its keys, the root first.
\<close>

fun pk_number :: "bls_public_key \<Rightarrow> nat" where
  "pk_number (BlsPk k) = k"

fun sig_number :: "bls_signature \<Rightarrow> nat" where
  "sig_number (BlsSig s) = s"

fun share_number :: "signature_share \<Rightarrow> nat" where
  "share_number (SigShare s) = s"

fun sk_number :: "secret_key_share \<Rightarrow> nat" where
  "sk_number (SkShare k) = k"

fun pks_number :: "public_key_set \<Rightarrow> nat" where
  "pks_number (PkSet k) = k"

fun ed_number :: "ed_public_key \<Rightarrow> nat" where
  "ed_number (EdPk k) = k"

fun id_content_number :: "id_content \<Rightarrow> nat" where
  "id_content_number (IdEdSignature (EdSig n)) = n"
| "id_content_number (IdSignatureShare (SigShare n)) = n"
| "id_content_number (IdSignature (BlsSig n)) = n"
| "id_content_number (IdNames ns) = length ns"

definition token_crypto :: "'c crypto_ops" where
  "token_crypto = \<lparr>
     serialize = (\<lambda>_. Some []),
     signed_verify = (\<lambda>sg _. sig_number (sg_signature sg) = pk_number (sg_public_key sg)),
     bls_verify = (\<lambda>pk s _. sig_number s = pk_number pk),
     sig_cmp = (\<lambda>a b. ord_cmp (sig_number a) (sig_number b)),
     sig_bytes = (\<lambda>s. [of_nat (sig_number s)]),
     share_verify = (\<lambda>sh _. share_number (sh_signature_share sh) = sh_index sh),
     share_sign = (\<lambda>sk _. SigShare (sk_number sk)),
     combine_signatures = (\<lambda>pks shares. if shares = [] then None else Some (BlsSig (pks_number pks))),
     pks_public_key = (\<lambda>pks. BlsPk (pks_number pks)),
     pks_public_key_share = (\<lambda>_ i. PkShare i),
     sks_public_key_share = (\<lambda>sk. PkShare (sk_number sk)),
     ed_sign = (\<lambda>kp _. EdSig (ed_number (kp_public kp))),
     ed_verify = (\<lambda>pk _ s. s = EdSig (ed_number pk)),
     ed_to_bytes = (\<lambda>pk. of_nat (ed_number pk)),
     ed_from_bytes = (\<lambda>n. Some (EdPk (unat n))),
     name_from_public_key = (\<lambda>pk. of_nat (ed_number pk)),
     name_from_content = (\<lambda>bss. of_nat (length (concat bss))),
     sha3_256 = concat,
     id_from_content = (\<lambda>c. Some (MessageId (id_content_number c))),
     id_default = MessageId 0\<rparr>"

fun index_in :: "'a \<Rightarrow> 'a list \<Rightarrow> nat" where
  "index_in x [] = 0"
| "index_in x (y # ys) = (if y = x then 0 else Suc (index_in x ys))"

definition list_chain :: "bls_public_key list chain_ops" where
  "list_chain = \<lparr>
     sll_new = (\<lambda>k. [k]),
     sll_keys = (\<lambda>c. c),
     sll_has_key = (\<lambda>c k. k \<in> set c),
     sll_last_key = last,
     sll_prev_key = (\<lambda>c. if length c < 2 then last c else last (butlast c)),
     sll_root_key = hd,
     sll_main_branch_len = length,
     sll_cmp_by_position = (\<lambda>c a b. ord_cmp (index_in a c) (index_in b c)),
     sll_insert = (\<lambda>c parent key s.
       if parent \<notin> set c then Inl InvalidOperation
       else if key \<in> set c then Inr c
       else if parent = last c \<and> sig_number s = pk_number parent then Inr (c @ [key])
       else Inl InvalidOperation),
     sll_merge = (\<lambda>c d.
       if hd d \<notin> set c then Inl InvalidOperation
       else if last d \<in> set c then Inr c
       else Inr (c @ filter (\<lambda>k. k \<notin> set c) d)),
     sll_extend = (\<lambda>c trusted d.
       if trusted \<in> set d \<and> last d = last c then Inr (dropWhile (\<lambda>k. k \<noteq> trusted) d)
       else Inl InvalidOperation),
     sll_minimize = (\<lambda>c ks. Inr (dropWhile (\<lambda>k. k \<notin> set ks) c)),
     sll_proof_chain = (\<lambda>c k. if k \<in> set c then Inr (dropWhile (\<lambda>j. j \<noteq> k) c) else Inl InvalidOperation),
     sll_check_trust = (\<lambda>c ks. list_ex (\<lambda>k. k \<in> set c) ks)\<rparr>"

definition token_env :: "bls_public_key list env" where
  "token_env = \<lparr>ev_xor = bit_ops, ev_chain = list_chain, ev_crypto = token_crypto\<rparr>"

text \<open>A value signed by the key with the given number.\<close>

definition token_signed :: "nat \<Rightarrow> 'a \<Rightarrow> 'a section_signed" where
  "token_signed k v = \<lparr>ss_value = v, ss_signed = \<lparr>sg_public_key = BlsPk k, sg_signature = BlsSig k\<rparr>\<rparr>"

lemma token_crypto_simps:
  "serialize token_crypto = (\<lambda>_. Some [])"
  "signed_verify token_crypto = (\<lambda>sg _. sig_number (sg_signature sg) = pk_number (sg_public_key sg))"
  "bls_verify token_crypto = (\<lambda>pk s _. sig_number s = pk_number pk)"
  "sig_cmp token_crypto = (\<lambda>a b. ord_cmp (sig_number a) (sig_number b))"
  "sig_bytes token_crypto = (\<lambda>s. [of_nat (sig_number s)])"
  "share_verify token_crypto = (\<lambda>sh _. share_number (sh_signature_share sh) = sh_index sh)"
  "share_sign token_crypto = (\<lambda>sk _. SigShare (sk_number sk))"
  "combine_signatures token_crypto = (\<lambda>pks shares. if shares = [] then None else Some (BlsSig (pks_number pks)))"
  "pks_public_key token_crypto = (\<lambda>pks. BlsPk (pks_number pks))"
  "pks_public_key_share token_crypto = (\<lambda>_ i. PkShare i)"
  "sks_public_key_share token_crypto = (\<lambda>sk. PkShare (sk_number sk))"
  "ed_sign token_crypto = (\<lambda>kp _. EdSig (ed_number (kp_public kp)))"
  "ed_verify token_crypto = (\<lambda>pk _ s. s = EdSig (ed_number pk))"
  "ed_to_bytes token_crypto = (\<lambda>pk. of_nat (ed_number pk))"
  "ed_from_bytes token_crypto = (\<lambda>n. Some (EdPk (unat n)))"
  "name_from_public_key token_crypto = (\<lambda>pk. of_nat (ed_number pk))"
  "name_from_content token_crypto = (\<lambda>bss. of_nat (length (concat bss)))"
  "sha3_256 token_crypto = concat"
  "id_from_content token_crypto = (\<lambda>c. Some (MessageId (id_content_number c)))"
  "id_default token_crypto = MessageId 0"
  by (simp_all add: token_crypto_def)

lemma list_chain_simps:
  "sll_new list_chain = (\<lambda>k. [k])"
  "sll_keys list_chain = (\<lambda>c. c)"
  "sll_has_key list_chain = (\<lambda>c k. k \<in> set c)"
  "sll_last_key list_chain = last"
  "sll_prev_key list_chain = (\<lambda>c. if length c < 2 then last c else last (butlast c))"
  "sll_root_key list_chain = hd"
  "sll_main_branch_len list_chain = length"
  "sll_cmp_by_position list_chain = (\<lambda>c a b. ord_cmp (index_in a c) (index_in b c))"
  "sll_insert list_chain = (\<lambda>c parent key s. if parent \<notin> set c then Inl InvalidOperation else if key \<in> set c then Inr c else if parent = last c \<and> sig_number s = pk_number parent then Inr (c @ [key]) else Inl InvalidOperation)"
  "sll_merge list_chain = (\<lambda>c d. if hd d \<notin> set c then Inl InvalidOperation else if last d \<in> set c then Inr c else Inr (c @ filter (\<lambda>k. k \<notin> set c) d))"
  "sll_extend list_chain = (\<lambda>c trusted d. if trusted \<in> set d \<and> last d = last c then Inr (dropWhile (\<lambda>k. k \<noteq> trusted) d) else Inl InvalidOperation)"
  "sll_minimize list_chain = (\<lambda>c ks. Inr (dropWhile (\<lambda>k. k \<notin> set ks) c))"
  "sll_proof_chain list_chain = (\<lambda>c k. if k \<in> set c then Inr (dropWhile (\<lambda>j. j \<noteq> k) c) else Inl InvalidOperation)"
  "sll_check_trust list_chain = (\<lambda>c ks. list_ex (\<lambda>k. k \<in> set c) ks)"
  by (simp_all add: list_chain_def)

lemma token_signed_simps [simp]:
  "ss_value (token_signed k v) = v"
  "ss_signed (token_signed k v) = \<lparr>sg_public_key = BlsPk k, sg_signature = BlsSig k\<rparr>"
  by (simp_all add: token_signed_def)

lemma token_sig_cmp: "total_cmp (sig_cmp (token_crypto :: 'c crypto_ops))"
  using total_cmp_key [OF ord.total_cmp_axioms, of sig_number] by (simp add: token_crypto_def)

lemma token_env_simps [simp]:
  "ev_xor token_env = bit_ops" "ev_chain token_env = list_chain" "ev_crypto token_env = token_crypto"
  by (simp_all add: token_env_def)

end
