(* ===== verification/Dkg_Failures.thy ===== *)
theory Dkg_Failures
  imports Section_Authority Quorum Stand_Ins
begin

text \<open>
  The identifier of a key generation session and the signed observations of its failure:
  \<open>src/dkg/dkg_msgs_utils.rs\<close>. \<open>None\<close> as the result of an agreement check is the
  arithmetic panic of \<open>has_failure_agreement\<close> for an empty set of participants.
\<close>

section \<open>Definitions\<close>

text \<open>\<open>u64::to_le_bytes\<close>\<close>

definition le_bytes :: "u64 \<Rightarrow> bytes" where
  "le_bytes w = map (\<lambda>i. ucast (drop_bit (8 * i) w)) [0..<8]"

definition dkg_key_new :: "'c env \<Rightarrow> elder_candidates \<Rightarrow> u64 \<Rightarrow> dkg_key" where
  "dkg_key_new E elder_candidates generation =
     \<lparr>dk_hash = sha3_256 (ev_crypto E)
        (map (\<lambda>peer. name_bytes (peer_name peer)) (ec_peers elder_candidates) @
         [name_bytes (pf_name (ev_xor E) (ec_prefix elder_candidates)),
          le_bytes (of_nat (pf_bit_count (ev_xor E) (ec_prefix elder_candidates)))]),
      dk_generation = generation\<rparr>"

text \<open>\<open>b"failure"\<close>\<close>

definition failure_tag :: bytes where
  "failure_tag = [102, 97, 105, 108, 117, 114, 101]"

definition failure_signed_hash :: "'c crypto_ops \<Rightarrow> dkg_key \<Rightarrow> xor_name btree_set \<Rightarrow> bytes" where
  "failure_signed_hash cr dkg_key non_participants =
     sha3_256 cr ([dk_hash dkg_key, le_bytes (dk_generation dkg_key)] @ map name_bytes non_participants @ [failure_tag])"

definition dkg_failure_signed_new ::
  "'c crypto_ops \<Rightarrow> keypair \<Rightarrow> xor_name btree_set \<Rightarrow> dkg_key \<Rightarrow> dkg_failure_signed" where
  "dkg_failure_signed_new cr keypair non_participants dkg_key =
     \<lparr>df_public_key = kp_public keypair,
      df_signature = ed_sign cr keypair (failure_signed_hash cr dkg_key non_participants)\<rparr>"

definition failure_signed_verify ::
  "'c crypto_ops \<Rightarrow> dkg_failure_signed \<Rightarrow> dkg_key \<Rightarrow> xor_name btree_set \<Rightarrow> bool" where
  "failure_signed_verify cr sg dkg_key non_participants =
     (let hash = failure_signed_hash cr dkg_key non_participants
      in ed_verify cr (df_public_key sg) hash (df_signature sg))"

definition failure_set_default :: dkg_failure_signed_set where
  "failure_set_default = \<lparr>dfs_signeds = [], dfs_non_participants = []\<rparr>"

definition failure_set_insert ::
  "dkg_failure_signed_set \<Rightarrow> dkg_failure_signed \<Rightarrow> xor_name btree_set \<Rightarrow> bool \<times> dkg_failure_signed_set" where
  "failure_set_insert fs sg non_participants =
     (let fs1 = (if dfs_non_participants fs = [] then fs\<lparr>dfs_non_participants := non_participants\<rparr> else fs)
      in if list_all (\<lambda>existing_signed. df_public_key existing_signed \<noteq> df_public_key sg) (dfs_signeds fs1)
         then (True, fs1\<lparr>dfs_signeds := dfs_signeds fs1 @ [sg]\<rparr>)
         else (False, fs1))"

definition failure_set_has_agreement :: "dkg_failure_signed_set \<Rightarrow> elder_candidates \<Rightarrow> bool option" where
  "failure_set_has_agreement fs elder_candidates =
     has_failure_agreement (length (ec_elders elder_candidates)) (length (dfs_signeds fs))"

definition failure_set_verify ::
  "'c env \<Rightarrow> dkg_failure_signed_set \<Rightarrow> elder_candidates \<Rightarrow> u64 \<Rightarrow> bool option" where
  "failure_set_verify E fs elder_candidates generation =
     (let hash = failure_signed_hash (ev_crypto E) (dkg_key_new E elder_candidates generation) (dfs_non_participants fs);
          votes = length (filter (\<lambda>sg.
                    bt_contains (ec_elders elder_candidates) (ed_to_bytes (ev_crypto E) (df_public_key sg)) \<and>
                    ed_verify (ev_crypto E) (df_public_key sg) hash (df_signature sg)) (dfs_signeds fs))
      in has_failure_agreement (length (ec_elders elder_candidates)) votes)"

section \<open>Votes\<close>

text \<open>A set of votes for one session: the voters are distinct participants.\<close>

definition failure_set_inv :: "'c crypto_ops \<Rightarrow> elder_candidates \<Rightarrow> dkg_failure_signed_set \<Rightarrow> bool" where
  "failure_set_inv cr ec fs \<longleftrightarrow>
     distinct (map df_public_key (dfs_signeds fs)) \<and>
     (\<forall>sg \<in> set (dfs_signeds fs). bt_contains (ec_elders ec) (ed_to_bytes cr (df_public_key sg)))"

text \<open>Every vote is over the set of non-participants that the set of votes reports.\<close>

definition votes_agree :: "'c crypto_ops \<Rightarrow> dkg_key \<Rightarrow> dkg_failure_signed_set \<Rightarrow> bool" where
  "votes_agree cr key fs \<longleftrightarrow>
     (\<forall>sg \<in> set (dfs_signeds fs). failure_signed_verify cr sg key (dfs_non_participants fs))"

lemma failure_set_default_inv [simp]:
  "failure_set_inv cr ec failure_set_default" "votes_agree cr key failure_set_default"
  by (simp_all add: failure_set_inv_def votes_agree_def failure_set_default_def)

lemma failure_set_insert_inv:
  assumes "failure_set_inv cr ec fs" "bt_contains (ec_elders ec) (ed_to_bytes cr (df_public_key sg))"
  shows "failure_set_inv cr ec (snd (failure_set_insert fs sg np))"
  using assms by (auto simp: failure_set_inv_def failure_set_insert_def Let_def list_all_iff)

lemma failure_set_insert_agree:
  assumes "votes_agree cr key fs" "failure_signed_verify cr sg key np"
    and "dfs_signeds fs = [] \<or> dfs_non_participants fs = np"
    and "dfs_non_participants fs = [] \<or> dfs_non_participants fs = np"
  shows "votes_agree cr key (snd (failure_set_insert fs sg np))"
  using assms by (auto simp: votes_agree_def failure_set_insert_def Let_def)

lemma failure_set_insert_new:
  "fst (failure_set_insert fs sg np) \<longleftrightarrow> df_public_key sg \<notin> df_public_key ` set (dfs_signeds fs)"
  "dfs_signeds (snd (failure_set_insert fs sg np)) =
     dfs_signeds fs @ (if fst (failure_set_insert fs sg np) then [sg] else [])"
  by (auto simp: failure_set_insert_def Let_def list_all_iff intro: rev_image_eqI)

lemma agreed_set_verifies:
  assumes "failure_set_inv (ev_crypto E) ec fs" "votes_agree (ev_crypto E) (dkg_key_new E ec g) fs"
  shows "failure_set_verify E fs ec g = failure_set_has_agreement fs ec"
proof -
  have "filter (\<lambda>sg. bt_contains (ec_elders ec) (ed_to_bytes (ev_crypto E) (df_public_key sg)) \<and>
      ed_verify (ev_crypto E) (df_public_key sg)
        (failure_signed_hash (ev_crypto E) (dkg_key_new E ec g) (dfs_non_participants fs)) (df_signature sg))
      (dfs_signeds fs) = dfs_signeds fs"
    using assms by (auto simp: failure_set_inv_def votes_agree_def failure_signed_verify_def Let_def intro!: filter_True)
  then show ?thesis by (simp add: failure_set_verify_def failure_set_has_agreement_def Let_def)
qed

end
