(* ===== verification/Bounded_Queue.thy ===== *)
theory Bounded_Queue
  imports Routing_Prelude
begin

text \<open>
  \<open>VecDeque\<close> as the sources use it for bounded histories: a list with the capacity it was
  allocated with. \<open>VecDeque::with_capacity\<close> may allocate more than requested, so the
  allocator is an argument. The contract \<open>recent_queue\<close> is that of a queue which drops its
  oldest element to make room; its clients are the backlogs of the key generation and of
  the join procedure.
\<close>

record 'a vec_deque =
  vd_list :: "'a list"
  vd_capacity :: nat

definition vd_with_capacity :: "(nat \<Rightarrow> nat) \<Rightarrow> nat \<Rightarrow> 'a vec_deque" where
  "vd_with_capacity alloc n = \<lparr>vd_list = [], vd_capacity = alloc n\<rparr>"

text \<open>Pushing onto a full buffer reallocates.\<close>

definition vd_push_back :: "'a \<Rightarrow> 'a vec_deque \<Rightarrow> 'a vec_deque" where
  "vd_push_back x q = \<lparr>vd_list = vd_list q @ [x], vd_capacity = max (vd_capacity q) (Suc (length (vd_list q)))\<rparr>"

definition vd_pop_front :: "'a vec_deque \<Rightarrow> 'a option \<times> 'a vec_deque" where
  "vd_pop_front q =
     (case vd_list q of [] \<Rightarrow> (None, q) | x # l \<Rightarrow> (Some x, q\<lparr>vd_list := l\<rparr>))"

text \<open>\<open>if queue.len() == queue.capacity() { queue.pop_front(); } queue.push_back(x)\<close>\<close>

definition vd_push_recent :: "'a vec_deque \<Rightarrow> 'a \<Rightarrow> 'a vec_deque" where
  "vd_push_recent q x =
     vd_push_back x (if length (vd_list q) = vd_capacity q then snd (vd_pop_front q) else q)"

locale recent_queue =
  fixes items :: "'s \<Rightarrow> 'a list"
    and bound :: "'s \<Rightarrow> nat"
    and push :: "'s \<Rightarrow> 'a \<Rightarrow> 's"
  assumes push_items: "0 < bound s \<Longrightarrow> length (items s) \<le> bound s \<Longrightarrow>
      items (push s x) = (if length (items s) = bound s then tl (items s) else items s) @ [x]"
    and push_bound: "0 < bound s \<Longrightarrow> length (items s) \<le> bound s \<Longrightarrow> bound (push s x) = bound s"
begin

lemma push_length:
  "0 < bound s \<Longrightarrow> length (items s) \<le> bound s \<Longrightarrow> length (items (push s x)) \<le> bound (push s x)"
  by (cases "items s") (auto simp: push_items push_bound)

text \<open>After any number of pushes the queue holds the most recent elements, as many as fit.\<close>

lemma pushes_keep_recent:
  assumes "0 < bound s" "length (items s) \<le> bound s"
  shows "items (foldl push s xs) = drop (length (items s @ xs) - bound s) (items s @ xs)"
  using assms
proof (induction xs arbitrary: s)
  case (Cons x xs)
  have "items (foldl push (push s x) xs) =
      drop (length (items (push s x) @ xs) - bound s) (items (push s x) @ xs)"
    using Cons push_length push_bound by auto
  also have "\<dots> = drop (length (items s @ x # xs) - bound s) (items s @ x # xs)"
  proof (cases "length (items s) = bound s")
    case True
    then obtain a l where "items s = a # l" "bound s = Suc (length l)" using Cons.prems by (cases "items s") auto
    then show ?thesis using Cons.prems by (simp add: push_items)
  qed (use Cons.prems in \<open>simp add: push_items\<close>)
  finally show ?case by simp
qed simp

end

interpretation recent: recent_queue vd_list vd_capacity vd_push_recent
  by unfold_locales
    (auto simp: vd_push_recent_def vd_push_back_def vd_pop_front_def split: list.split)

end
