(* ===== verification/Dkg_Session.thy ===== *)
theory Dkg_Session
  imports Dkg_Failures Bounded_Queue
begin

text \<open>
  One session of distributed key generation and the backlog of early messages:
  \<open>src/dkg/session.rs\<close>, with the commands of \<open>src/dkg/commands.rs\<close>. The key generator of
  \<open>bls_dkg\<close> is a parameter \<open>'g keygen_ops\<close> over its states \<open>'g\<close> (a state carries the
  random draws it will make). Timer tokens come from the global counter, which is passed
  along. The calls of \<open>process_message\<close> and \<open>broadcast\<close> are mutually recursive for as
  long as the generator answers its own messages, so a call is a partial function: \<open>None\<close>
  when it does not return.
\<close>

section \<open>Definitions\<close>

record key_outcome =
  ko_public_key_set :: public_key_set
  ko_secret_key_share :: secret_key_share

record 'g keygen_ops =
  kg_initialize :: "xor_name \<Rightarrow> nat \<Rightarrow> xor_name btree_set \<Rightarrow> ('g \<times> dkg_message) option"
  kg_handle_message :: "'g \<Rightarrow> dkg_message \<Rightarrow> dkg_message list option \<times> 'g"
  kg_timed_phase_transition :: "'g \<Rightarrow> dkg_message list option \<times> 'g"
  kg_is_finalized :: "'g \<Rightarrow> bool"
  kg_generate_keys :: "'g \<Rightarrow> (xor_name btree_set \<times> key_outcome) option"

datatype dkg_command =
    DkgSendMessage "(xor_name \<times> socket_addr) list" dkg_key dkg_message
  | DkgScheduleTimeout nat u64
  | DkgHandleOutcome section_auth section_key_share
  | DkgSendFailureObservation "(xor_name \<times> socket_addr) list" dkg_key dkg_failure_signed "xor_name btree_set"
  | DkgHandleFailureAgreement dkg_failure_signed_set

text \<open>In nanoseconds.\<close>

definition DKG_PROGRESS_INTERVAL :: nat where
  "DKG_PROGRESS_INTERVAL = 30 * 1000000000"

definition BACKLOG_CAPACITY :: nat where
  "BACKLOG_CAPACITY = 100"

record 'g session =
  se_elder_candidates :: elder_candidates
  se_participant_index :: nat
  se_key_gen :: 'g
  se_timer_token :: u64
  se_failures :: dkg_failure_signed_set
  se_complete :: bool

text \<open>\<open>fetch_add(1)\<close> on the counter wraps around.\<close>

definition next_timer_token :: "u64 \<Rightarrow> u64 \<times> u64" where
  "next_timer_token counter = (counter, counter + 1)"

definition session_reset_timer :: "'g session \<Rightarrow> u64 \<Rightarrow> dkg_command \<times> 'g session \<times> u64" where
  "session_reset_timer s counter =
     (let (token, counter') = next_timer_token counter
      in (DkgScheduleTimeout DKG_PROGRESS_INTERVAL token, s\<lparr>se_timer_token := token\<rparr>, counter'))"

definition session_recipients :: "'g session \<Rightarrow> (xor_name \<times> socket_addr) list" where
  "session_recipients s =
     map snd (filter (\<lambda>(index, _). index \<noteq> se_participant_index s)
       (enumerate 0 (ec_elders (se_elder_candidates s))))"

definition check_failure_agreement :: "'g session \<Rightarrow> (dkg_command option \<times> 'g session) option" where
  "check_failure_agreement s =
     (case failure_set_has_agreement (se_failures s) (se_elder_candidates s) of
        None \<Rightarrow> None
      | Some True \<Rightarrow> Some (Some (DkgHandleFailureAgreement (se_failures s)),
                         s\<lparr>se_complete := True, se_failures := failure_set_default\<rparr>)
      | Some False \<Rightarrow> Some (None, s))"

definition report_failure ::
  "'c crypto_ops \<Rightarrow> dkg_key \<Rightarrow> xor_name btree_set \<Rightarrow> keypair \<Rightarrow> 'g session \<Rightarrow> (dkg_command list \<times> 'g session) option" where
  "report_failure cr dkg_key non_participants keypair s =
     (let sg = dkg_failure_signed_new cr keypair non_participants dkg_key;
          (inserted, failures) = failure_set_insert (se_failures s) sg non_participants;
          s1 = s\<lparr>se_failures := failures\<rparr>
      in if \<not> inserted then Some ([], s1)
         else case check_failure_agreement s1 of
                None \<Rightarrow> None
              | Some (agreement, s2) \<Rightarrow>
                  Some ((case agreement of None \<Rightarrow> [] | Some c \<Rightarrow> [c]) @
                        [DkgSendFailureObservation (session_recipients s2) dkg_key sg non_participants], s2))"

definition session_process_failure ::
  "'c crypto_ops \<Rightarrow> dkg_key \<Rightarrow> xor_name btree_set \<Rightarrow> dkg_failure_signed \<Rightarrow> 'g session
    \<Rightarrow> (dkg_command option \<times> 'g session) option" where
  "session_process_failure cr dkg_key non_participants sg s =
     (if \<not> bt_contains (ec_elders (se_elder_candidates s)) (ed_to_bytes cr (df_public_key sg)) then Some (None, s)
      else if \<not> failure_signed_verify cr sg dkg_key non_participants then Some (None, s)
      else let (inserted, failures) = failure_set_insert (se_failures s) sg non_participants;
               s1 = s\<lparr>se_failures := failures\<rparr>
           in if \<not> inserted then Some (None, s1) else check_failure_agreement s1)"

definition session_check ::
  "'g keygen_ops \<Rightarrow> 'c crypto_ops \<Rightarrow> dkg_key \<Rightarrow> keypair \<Rightarrow> 'g session \<Rightarrow> (dkg_command list \<times> 'g session) option" where
  "session_check G cr dkg_key keypair s =
     (if se_complete s then Some ([], s)
      else if \<not> kg_is_finalized G (se_key_gen s) then Some ([], s)
      else case kg_generate_keys G (se_key_gen s) of
             None \<Rightarrow> Some ([], s)
           | Some (participants, outcome) \<Rightarrow>
               if participants \<noteq> bt_keys (ec_elders (se_elder_candidates s))
               then let non_participants = filter (\<lambda>elder. elder \<notin> set participants)
                          (bt_keys (ec_elders (se_elder_candidates s)))
                    in report_failure cr dkg_key non_participants keypair s
               else if pks_public_key_share cr (ko_public_key_set outcome) (se_participant_index s) \<noteq>
                       sks_public_key_share cr (ko_secret_key_share outcome)
               then report_failure cr dkg_key [] keypair s
               else let section_auth = from_elder_candidates (se_elder_candidates s) (ko_public_key_set outcome);
                        share = \<lparr>ks_public_key_set = ko_public_key_set outcome, ks_index = se_participant_index s,
                                 ks_secret_key_share = ko_secret_key_share outcome\<rparr>
                    in Some ([DkgHandleOutcome section_auth share], s\<lparr>se_complete := True\<rparr>))"

text \<open>\<open>dkg_run (Inl m)\<close> is \<open>process_message\<close> on \<open>m\<close>, \<open>dkg_run (Inr ms)\<close> is
  \<open>broadcast\<close> on each of \<open>ms\<close> in turn. The responses reset the timer before they are
  broadcast; the command for it comes after them.\<close>

partial_function (option) dkg_run ::
  "'g keygen_ops \<Rightarrow> 'c crypto_ops \<Rightarrow> dkg_key \<Rightarrow> keypair \<Rightarrow> dkg_message + dkg_message list \<Rightarrow> 'g session \<Rightarrow> u64
    \<Rightarrow> (dkg_command list \<times> 'g session \<times> u64) option" where
  "dkg_run G cr dkg_key keypair work s counter =
     (case work of
        Inl message \<Rightarrow>
          (let (handled, key_gen) = kg_handle_message G (se_key_gen s) message;
               responses = (case handled of None \<Rightarrow> [] | Some rs \<Rightarrow> rs);
               s1 = s\<lparr>se_key_gen := key_gen\<rparr>;
               (reset, s2, counter2) =
                 (if responses = [] then ([], s1, counter)
                  else let (c, s', counter') = session_reset_timer s1 counter in ([c], s', counter'))
           in Option.bind (dkg_run G cr dkg_key keypair (Inr responses) s2 counter2) (\<lambda>(commands, s3, counter3).
              Option.bind (session_check G cr dkg_key keypair s3) (\<lambda>(checked, s4).
              Some (commands @ reset @ checked, s4, counter3))))
      | Inr messages \<Rightarrow>
          (case messages of
             [] \<Rightarrow> Some ([], s, counter)
           | message # rest \<Rightarrow>
               (let recipients = session_recipients s;
                    send = (if recipients \<noteq> [] then [DkgSendMessage recipients dkg_key message] else [])
                in Option.bind (dkg_run G cr dkg_key keypair (Inl message) s counter) (\<lambda>(commands, s1, counter1).
                   Option.bind (dkg_run G cr dkg_key keypair (Inr rest) s1 counter1) (\<lambda>(commands', s2, counter2).
                   Some (send @ commands @ commands', s2, counter2))))))"

definition session_process_message ::
  "'g keygen_ops \<Rightarrow> 'c crypto_ops \<Rightarrow> dkg_key \<Rightarrow> keypair \<Rightarrow> dkg_message \<Rightarrow> 'g session \<Rightarrow> u64
    \<Rightarrow> (dkg_command list \<times> 'g session \<times> u64) option" where
  "session_process_message G cr dkg_key keypair message = dkg_run G cr dkg_key keypair (Inl message)"

definition session_broadcast ::
  "'g keygen_ops \<Rightarrow> 'c crypto_ops \<Rightarrow> dkg_key \<Rightarrow> keypair \<Rightarrow> dkg_message \<Rightarrow> 'g session \<Rightarrow> u64
    \<Rightarrow> (dkg_command list \<times> 'g session \<times> u64) option" where
  "session_broadcast G cr dkg_key keypair message = dkg_run G cr dkg_key keypair (Inr [message])"

definition session_handle_timeout ::
  "'g keygen_ops \<Rightarrow> 'c crypto_ops \<Rightarrow> dkg_key \<Rightarrow> keypair \<Rightarrow> 'g session \<Rightarrow> u64
    \<Rightarrow> (dkg_command list \<times> 'g session \<times> u64) option" where
  "session_handle_timeout G cr dkg_key keypair s counter =
     (if se_complete s then Some ([], s, counter)
      else let (transition, key_gen) = kg_timed_phase_transition G (se_key_gen s);
               s1 = s\<lparr>se_key_gen := key_gen\<rparr>
           in case transition of
                Some messages \<Rightarrow>
                  Option.bind (dkg_run G cr dkg_key keypair (Inr messages) s1 counter) (\<lambda>(commands, s2, counter2).
                  let (reset, s3, counter3) = session_reset_timer s2 counter2
                  in Option.bind (session_check G cr dkg_key keypair s3) (\<lambda>(checked, s4).
                     Some (commands @ [reset] @ checked, s4, counter3)))
              | None \<Rightarrow>
                  Option.bind (report_failure cr dkg_key [] keypair s1) (\<lambda>(commands, s2).
                  Some (commands, s2, counter)))"

section \<open>The backlog\<close>

record backlog =
  bl_queue :: "(dkg_key \<times> dkg_message) vec_deque"

definition backlog_new :: "(nat \<Rightarrow> nat) \<Rightarrow> backlog" where
  "backlog_new alloc = \<lparr>bl_queue = vd_with_capacity alloc BACKLOG_CAPACITY\<rparr>"

definition backlog_push :: "backlog \<Rightarrow> dkg_key \<Rightarrow> dkg_message \<Rightarrow> backlog" where
  "backlog_push b dkg_key message =
     (let q = (if length (vd_list (bl_queue b)) = vd_capacity (bl_queue b) then snd (vd_pop_front (bl_queue b))
               else bl_queue b)
      in \<lparr>bl_queue = vd_push_back (dkg_key, message) q\<rparr>)"

fun backlog_take_loop ::
  "nat \<Rightarrow> dkg_key \<Rightarrow> (dkg_key \<times> dkg_message) vec_deque \<Rightarrow> dkg_message list \<Rightarrow>
    dkg_message list \<times> (dkg_key \<times> dkg_message) vec_deque" where
  "backlog_take_loop 0 dkg_key q output = (output, q)"
| "backlog_take_loop (Suc n) dkg_key q output =
     (case vd_pop_front q of
        (Some (message_dkg_key, message), q') \<Rightarrow>
          if message_dkg_key = dkg_key then backlog_take_loop n dkg_key q' (output @ [message])
          else backlog_take_loop n dkg_key (vd_push_back (message_dkg_key, message) q') output
      | (None, q') \<Rightarrow> backlog_take_loop n dkg_key q' output)"

definition backlog_take :: "backlog \<Rightarrow> dkg_key \<Rightarrow> dkg_message list \<times> backlog" where
  "backlog_take b dkg_key =
     (let (output, q) = backlog_take_loop (length (vd_list (bl_queue b))) dkg_key (bl_queue b) []
      in (output, \<lparr>bl_queue = q\<rparr>))"

definition backlog_prune :: "backlog \<Rightarrow> dkg_key \<Rightarrow> backlog" where
  "backlog_prune b dkg_key =
     \<lparr>bl_queue = (bl_queue b)\<lparr>vd_list :=
        filter (\<lambda>(old_dkg_key, _). dk_generation dkg_key \<le> dk_generation old_dkg_key) (vd_list (bl_queue b))\<rparr>\<rparr>"

section \<open>Runs of a session\<close>

lemma dkg_run_Nil [simp]: "dkg_run G cr k kp (Inr []) s t = Some ([], s, t)"
  by (subst dkg_run.simps) simp

lemma dkg_run_Cons:
  "dkg_run G cr k kp (Inr (m # ms)) s t =
     Option.bind (dkg_run G cr k kp (Inl m) s t) (\<lambda>(c1, s1, t1).
     Option.bind (dkg_run G cr k kp (Inr ms) s1 t1) (\<lambda>(c2, s2, t2).
     Some ((if session_recipients s \<noteq> [] then [DkgSendMessage (session_recipients s) k m] else []) @ c1 @ c2, s2, t2)))"
  by (subst dkg_run.simps) (simp add: Let_def)

definition handled_session :: "'g keygen_ops \<Rightarrow> dkg_message \<Rightarrow> 'g session \<Rightarrow> u64 \<Rightarrow> 'g session \<times> u64" where
  "handled_session G m s t =
     (let (handled, g) = kg_handle_message G (se_key_gen s) m
      in case handled of
           Some (r # rs) \<Rightarrow> (s\<lparr>se_key_gen := g, se_timer_token := t\<rparr>, t + 1)
         | _ \<Rightarrow> (s\<lparr>se_key_gen := g\<rparr>, t))"

definition handled_responses :: "'g keygen_ops \<Rightarrow> dkg_message \<Rightarrow> 'g session \<Rightarrow> dkg_message list" where
  "handled_responses G m s = (case fst (kg_handle_message G (se_key_gen s) m) of None \<Rightarrow> [] | Some rs \<Rightarrow> rs)"

lemma dkg_run_message:
  "dkg_run G cr k kp (Inl m) s t =
     Option.bind (dkg_run G cr k kp (Inr (handled_responses G m s)) (fst (handled_session G m s t)) (snd (handled_session G m s t)))
       (\<lambda>(c1, s1, t1). Option.bind (session_check G cr k kp s1) (\<lambda>(c2, s2).
         Some (c1 @ (if handled_responses G m s = [] then [] else [DkgScheduleTimeout DKG_PROGRESS_INTERVAL t]) @ c2, s2, t1)))"
  by (subst dkg_run.simps)
    (auto simp: handled_responses_def handled_session_def session_reset_timer_def next_timer_token_def Let_def
      split: prod.split option.split list.split)

lemma handled_session_fields [simp]:
  "se_elder_candidates (fst (handled_session G m s t)) = se_elder_candidates s"
  "se_participant_index (fst (handled_session G m s t)) = se_participant_index s"
  "se_failures (fst (handled_session G m s t)) = se_failures s"
  "se_complete (fst (handled_session G m s t)) = se_complete s"
  "se_key_gen (fst (handled_session G m s t)) = snd (kg_handle_message G (se_key_gen s) m)"
  by (auto simp: handled_session_def Let_def split: prod.split option.split list.split)

section \<open>Invariant and effect of a session\<close>

text \<open>We are the participant with our index, and the failure votes are by distinct
  participants.\<close>

definition session_inv :: "'c crypto_ops \<Rightarrow> keypair \<Rightarrow> 'g session \<Rightarrow> bool" where
  "session_inv cr kp s \<longleftrightarrow>
     ec_position (se_elder_candidates s) (ed_to_bytes cr (kp_public kp)) = Some (se_participant_index s) \<and>
     failure_set_inv cr (se_elder_candidates s) (se_failures s)"

fun is_terminal :: "dkg_command \<Rightarrow> bool" where
  "is_terminal (DkgHandleOutcome _ _) = True"
| "is_terminal (DkgHandleFailureAgreement _) = True"
| "is_terminal _ = False"

text \<open>What a concluding command promises: an outcome carries our share of the key of exactly
  the candidates; an agreement on failure carries the votes of enough distinct
  participants.\<close>

fun conclusion_ok :: "'c crypto_ops \<Rightarrow> 'g session \<Rightarrow> dkg_command \<Rightarrow> bool" where
  "conclusion_ok cr s (DkgHandleOutcome sa ks) \<longleftrightarrow>
     sa = from_elder_candidates (se_elder_candidates s) (ks_public_key_set ks) \<and>
     ks_index ks = se_participant_index s \<and>
     pks_public_key_share cr (ks_public_key_set ks) (ks_index ks) = sks_public_key_share cr (ks_secret_key_share ks)"
| "conclusion_ok cr s (DkgHandleFailureAgreement fs) \<longleftrightarrow>
     failure_set_inv cr (se_elder_candidates s) fs \<and>
     failure_set_has_agreement fs (se_elder_candidates s) = Some True"
| "conclusion_ok cr s _ \<longleftrightarrow> True"

definition session_effect :: "'c crypto_ops \<Rightarrow> keypair \<Rightarrow> 'g session \<Rightarrow> dkg_command list \<Rightarrow> 'g session \<Rightarrow> bool" where
  "session_effect cr kp s cmds s' \<longleftrightarrow>
     session_inv cr kp s' \<and>
     se_elder_candidates s' = se_elder_candidates s \<and> se_participant_index s' = se_participant_index s \<and>
     length (filter is_terminal cmds) = (if se_complete s' \<and> \<not> se_complete s then 1 else 0) \<and>
     (se_complete s \<longrightarrow> se_complete s') \<and> list_all (conclusion_ok cr s) cmds"

lemma conclusion_ok_cong:
  assumes "se_elder_candidates s' = se_elder_candidates s" "se_participant_index s' = se_participant_index s"
  shows "conclusion_ok cr s' c = conclusion_ok cr s c"
  using assms by (cases c) auto

lemma session_effectD:
  assumes "session_effect cr kp s cmds s'"
  shows "session_inv cr kp s'" "se_elder_candidates s' = se_elder_candidates s"
    "se_participant_index s' = se_participant_index s"
    "length (filter is_terminal cmds) = (if se_complete s' \<and> \<not> se_complete s then 1 else 0)"
    "se_complete s \<Longrightarrow> se_complete s'" "list_all (conclusion_ok cr s) cmds"
  using assms unfolding session_effect_def by blast+

lemma session_effect_trans:
  assumes e1: "session_effect cr kp s c1 s1" and e2: "session_effect cr kp s1 c2 s2"
  shows "session_effect cr kp s (c1 @ c2) s2"
proof -
  note d1 = session_effectD [OF e1] and d2 = session_effectD [OF e2]
  have "conclusion_ok cr s1 = conclusion_ok cr s" by (rule ext) (rule conclusion_ok_cong [OF d1(2,3)])
  then have "list_all (conclusion_ok cr s) (c1 @ c2)" using d1(6) d2(6) by simp
  moreover have "length (filter is_terminal (c1 @ c2)) = (if se_complete s2 \<and> \<not> se_complete s then 1 else 0)"
    using d1(4,5) d2(4,5) by (cases "se_complete s"; cases "se_complete s1") (simp_all only: filter_append length_append, simp_all)
  ultimately show ?thesis unfolding session_effect_def using d1 d2 by metis
qed

lemma session_effect_silent:
  assumes "session_effect cr kp s c s'" "list_all (Not \<circ> is_terminal) d" "list_all (Not \<circ> is_terminal) d'"
  shows "session_effect cr kp s (d @ c @ d') s'"
proof -
  have none: "filter is_terminal d = []" "filter is_terminal d' = []"
    using assms(2,3) by (auto simp: list_all_iff filter_empty_conv)
  have "conclusion_ok cr s x" if "\<not> is_terminal x" for x using that by (cases x) auto
  then show ?thesis using assms none by (auto simp: session_effect_def list_all_iff)
qed

lemma session_effect_refl:
  assumes "session_inv cr kp s" "se_elder_candidates s' = se_elder_candidates s"
    "se_participant_index s' = se_participant_index s" "se_failures s' = se_failures s" "se_complete s' = se_complete s"
  shows "session_effect cr kp s [] s'"
  using assms by (simp add: session_effect_def session_inv_def)

lemma session_inv_participant:
  assumes "session_inv cr kp s"
  shows "bt_contains (ec_elders (se_elder_candidates s)) (ed_to_bytes cr (kp_public kp))"
    "0 < length (ec_elders (se_elder_candidates s))"
proof -
  have "ed_to_bytes cr (kp_public kp) \<in> set (bt_keys (ec_elders (se_elder_candidates s)))"
    using assms position_of_None [of "ed_to_bytes cr (kp_public kp)" "bt_keys (ec_elders (se_elder_candidates s))"]
    by (simp add: session_inv_def ec_position_def)
  then show "bt_contains (ec_elders (se_elder_candidates s)) (ed_to_bytes cr (kp_public kp))"
    by (auto simp: bt_contains_def)
  then show "0 < length (ec_elders (se_elder_candidates s))" by (auto simp: bt_contains_def)
qed

lemma has_agreement_returns:
  assumes "session_inv cr kp s"
  shows "\<exists>b. failure_set_has_agreement fs (se_elder_candidates s) = Some b"
  by (simp add: failure_set_has_agreement_def has_failure_agreement_Some [OF session_inv_participant(2) [OF assms]])

lemma check_failure_agreement_effect:
  assumes "session_inv cr kp s" "\<not> se_complete s"
  shows "\<exists>agreement s'. check_failure_agreement s = Some (agreement, s') \<and>
    session_effect cr kp s (case agreement of None \<Rightarrow> [] | Some c \<Rightarrow> [c]) s'"
proof -
  obtain b where b: "failure_set_has_agreement (se_failures s) (se_elder_candidates s) = Some b"
    using has_agreement_returns [OF assms(1)] by blast
  show ?thesis
    using assms b
    by (cases b) (simp_all add: check_failure_agreement_def session_effect_def session_inv_def)
qed

lemma session_recipients_cong:
  "se_elder_candidates s' = se_elder_candidates s \<Longrightarrow> se_participant_index s' = se_participant_index s \<Longrightarrow>
    session_recipients s' = session_recipients s"
  by (simp add: session_recipients_def)

lemma insert_failure_inv:
  assumes "session_inv cr kp s" "bt_contains (ec_elders (se_elder_candidates s)) (ed_to_bytes cr (df_public_key sg))"
  shows "session_inv cr kp (s\<lparr>se_failures := snd (failure_set_insert (se_failures s) sg np)\<rparr>)"
  using assms failure_set_insert_inv [of cr "se_elder_candidates s" "se_failures s" sg np]
  by (simp add: session_inv_def)

lemma insert_failure_effect:
  assumes "session_inv cr kp s" "bt_contains (ec_elders (se_elder_candidates s)) (ed_to_bytes cr (df_public_key sg))"
  shows "session_effect cr kp s [] (s\<lparr>se_failures := snd (failure_set_insert (se_failures s) sg np)\<rparr>)"
  using insert_failure_inv [OF assms] by (simp add: session_effect_def)

lemma report_failure_effect:
  assumes inv: "session_inv cr kp s" and nc: "\<not> se_complete s"
  shows "\<exists>cmds s'. report_failure cr key np kp s = Some (cmds, s') \<and> session_effect cr kp s cmds s'"
proof -
  let ?sg = "dkg_failure_signed_new cr kp np key"
  let ?s = "s\<lparr>se_failures := snd (failure_set_insert (se_failures s) ?sg np)\<rparr>"
  have us: "bt_contains (ec_elders (se_elder_candidates s)) (ed_to_bytes cr (df_public_key ?sg))"
    using session_inv_participant(1) [OF inv] by (simp add: dkg_failure_signed_new_def)
  note e1 = insert_failure_effect [OF inv us, of np]
  obtain agreement s' where a: "check_failure_agreement ?s = Some (agreement, s')"
    and e2: "session_effect cr kp ?s (case agreement of None \<Rightarrow> [] | Some c \<Rightarrow> [c]) s'"
    using check_failure_agreement_effect [OF insert_failure_inv [OF inv us, of np]] nc by auto
  have e3: "session_effect cr kp s ((case agreement of None \<Rightarrow> [] | Some c \<Rightarrow> [c]) @
      [DkgSendFailureObservation (session_recipients s') key ?sg np]) s'"
    using session_effect_silent [OF session_effect_trans [OF e1 e2],
        of "[]" "[DkgSendFailureObservation (session_recipients s') key ?sg np]"] by simp
  show ?thesis
    using a e1 e3 by (auto simp: report_failure_def Let_def split_beta)
qed

lemma session_process_failure_returns:
  assumes inv: "session_inv cr kp s"
  shows "\<exists>c s'. session_process_failure cr key np sg s = Some (c, s') \<and> session_inv cr kp s' \<and>
    se_elder_candidates s' = se_elder_candidates s \<and> list_all (conclusion_ok cr s) (case c of None \<Rightarrow> [] | Some c \<Rightarrow> [c])"
proof (cases "bt_contains (ec_elders (se_elder_candidates s)) (ed_to_bytes cr (df_public_key sg))")
  case True
  let ?s = "s\<lparr>se_failures := snd (failure_set_insert (se_failures s) sg np), se_complete := False\<rparr>"
  have inv': "session_inv cr kp ?s" using insert_failure_inv [OF inv True, of np] by (simp add: session_inv_def)
  obtain b where b: "failure_set_has_agreement (snd (failure_set_insert (se_failures s) sg np)) (se_elder_candidates s) = Some b"
    using has_agreement_returns [OF inv] by blast
  have fs: "failure_set_inv cr (se_elder_candidates s) (snd (failure_set_insert (se_failures s) sg np))"
    using inv True by (auto simp: session_inv_def intro: failure_set_insert_inv)
  show ?thesis
    using inv inv' b fs True
    by (cases b) (auto simp: session_process_failure_def Let_def split_beta check_failure_agreement_def session_inv_def)
qed (use inv in \<open>simp add: session_process_failure_def\<close>)

lemma session_check_effect:
  assumes inv: "session_inv cr kp s"
  shows "\<exists>cmds s'. session_check G cr key kp s = Some (cmds, s') \<and> session_effect cr kp s cmds s' \<and>
    se_key_gen s' = se_key_gen s"
proof (cases "se_complete s \<or> \<not> kg_is_finalized G (se_key_gen s) \<or> kg_generate_keys G (se_key_gen s) = None")
  case True
  then show ?thesis using session_effect_refl [OF inv, of s] by (auto simp: session_check_def)
next
  case False
  then obtain ps out where kg: "kg_is_finalized G (se_key_gen s)" "kg_generate_keys G (se_key_gen s) = Some (ps, out)"
    and nc: "\<not> se_complete s" by auto
  obtain c1 s1 where r1: "report_failure cr key (filter (\<lambda>e. e \<notin> set ps) (bt_keys (ec_elders (se_elder_candidates s)))) kp s =
      Some (c1, s1)" and e1: "session_effect cr kp s c1 s1"
    using report_failure_effect [OF inv nc] by blast
  obtain c2 s2 where r2: "report_failure cr key [] kp s = Some (c2, s2)" and e2: "session_effect cr kp s c2 s2"
    using report_failure_effect [OF inv nc] by blast
  have kgen: "se_key_gen s' = se_key_gen s" if "report_failure cr key np kp s = Some (c, s')" for np c s'
    using that by (auto simp: report_failure_def Let_def split_beta check_failure_agreement_def split: option.splits bool.splits if_splits)
  let ?ok = "[DkgHandleOutcome (from_elder_candidates (se_elder_candidates s) (ko_public_key_set out))
     \<lparr>ks_public_key_set = ko_public_key_set out, ks_index = se_participant_index s,
      ks_secret_key_share = ko_secret_key_share out\<rparr>]"
  have e3: "session_effect cr kp s ?ok (s\<lparr>se_complete := True\<rparr>)"
    if "pks_public_key_share cr (ko_public_key_set out) (se_participant_index s) = sks_public_key_share cr (ko_secret_key_share out)"
    using that inv nc by (simp add: session_effect_def session_inv_def)
  consider (partial) "ps \<noteq> bt_keys (ec_elders (se_elder_candidates s))"
    | (corrupt) "ps = bt_keys (ec_elders (se_elder_candidates s))"
        "pks_public_key_share cr (ko_public_key_set out) (se_participant_index s) \<noteq> sks_public_key_share cr (ko_secret_key_share out)"
    | (good) "ps = bt_keys (ec_elders (se_elder_candidates s))"
        "pks_public_key_share cr (ko_public_key_set out) (se_participant_index s) = sks_public_key_share cr (ko_secret_key_share out)"
    by blast
  then show ?thesis
  proof cases
    case partial
    then show ?thesis using kg nc r1 e1 kgen [OF r1] by (simp add: session_check_def Let_def)
  next
    case corrupt
    then show ?thesis using kg nc r2 e2 kgen [OF r2] by (simp add: session_check_def Let_def)
  next
    case good
    then show ?thesis using kg nc e3 [OF good(2)] by (simp add: session_check_def Let_def)
  qed
qed

lemma handled_session_effect:
  assumes "session_inv cr kp s"
  shows "session_effect cr kp s [] (fst (handled_session G m s t))"
  by (rule session_effect_refl [OF assms]) simp_all

section \<open>What every call of a session keeps\<close>

text \<open>A relation between a session, the commands of a call and the session after it. When it holds of a
  check of the generator and of a failed phase transition, does not depend on the generator and the timer, and is kept by commands that
  conclude nothing, then it holds of every processed message, broadcast and timeout that returns.\<close>

locale session_relation =
  fixes G :: "'g keygen_ops" and cr :: "'c crypto_ops" and key :: dkg_key and kp :: keypair
    and I :: "'g session \<Rightarrow> bool" and R :: "'g session \<Rightarrow> dkg_command list \<Rightarrow> 'g session \<Rightarrow> bool"
  assumes generator: "I s \<Longrightarrow> R s [] (s\<lparr>se_key_gen := g\<rparr>)"
    and timer: "I s \<Longrightarrow> R s [] (s\<lparr>se_timer_token := t\<rparr>)"
    and silent: "I s \<Longrightarrow> \<not> is_terminal cmd \<Longrightarrow> R s [cmd] s"
    and compose: "R s c1 s1 \<Longrightarrow> R s1 c2 s2 \<Longrightarrow> R s (c1 @ c2) s2"
    and keeps: "R s c s' \<Longrightarrow> I s'"
    and check: "I s \<Longrightarrow> session_check G cr key kp s = Some (c, s') \<Longrightarrow> R s c s'"
    and failed_phase: "I s \<Longrightarrow> \<not> se_complete s \<Longrightarrow> kg_timed_phase_transition G (se_key_gen s) = (None, g) \<Longrightarrow>
      report_failure cr key [] kp (s\<lparr>se_key_gen := g\<rparr>) = Some (c, s') \<Longrightarrow> R s c s'"
begin

lemma same: "I s \<Longrightarrow> R s [] s"
  using generator [of s "se_key_gen s"] by simp

lemma silent_if: "I s \<Longrightarrow> \<not> is_terminal c \<Longrightarrow> R s (if b then [c] else []) s"
  using silent same by simp

lemma handled: "I s \<Longrightarrow> R s [] (fst (handled_session G m s t))"
  using generator [of s "snd (kg_handle_message G (se_key_gen s) m)"] compose [of s "[]" _ "[]"]
    timer [OF keeps [OF generator], of s "snd (kg_handle_message G (se_key_gen s) m)" t]
  by (auto simp: handled_session_def Let_def split: prod.splits option.splits list.splits)

lemma message:
  assumes "I s" "I (fst (handled_session G m s t)) \<Longrightarrow> R (fst (handled_session G m s t)) c1 s1"
    and "session_check G cr key kp s1 = Some (c2, s2)"
  shows "R s (c1 @ (if b then [] else [DkgScheduleTimeout d t']) @ c2) s2"
proof -
  have h: "R s [] (fst (handled_session G m s t))" by (rule handled [OF assms(1)])
  have r1: "R (fst (handled_session G m s t)) c1 s1" by (rule assms(2) [OF keeps [OF h]])
  have r2: "R s1 c2 s2" by (rule check [OF keeps [OF r1] assms(3)])
  have "R s1 (if b then [] else [DkgScheduleTimeout d t']) s1" using silent [OF keeps [OF r1], of "DkgScheduleTimeout d t'"] same [OF keeps [OF r1]] by simp
  from compose [OF compose [OF h r1] compose [OF this r2]] show ?thesis by simp
qed

lemma dkg_run_related:
  assumes "dkg_run G cr key kp work s t = Some y" and "I s"
  shows "R s (fst y) (fst (snd y))"
proof -
  have "G' = G \<Longrightarrow> cr' = cr \<Longrightarrow> key' = key \<Longrightarrow> kp' = kp \<Longrightarrow> I s \<Longrightarrow> R s (fst y) (fst (snd y))"
    if "dkg_run G' cr' key' kp' work s t = Some y" for G' cr' key' kp' work s t y
    using that
  proof (induction rule: dkg_run.raw_induct [rotated, consumes 1, case_names step])
    case (step run G' cr' key' kp' work s t y)
    have IH: "R s (fst y) (fst (snd y))" if "run G cr key kp w s t = Some y" "I s" for w s t y
      using step.IH [OF that(1)] that(2) by simp
    note eqs = step.prems(1-4)
    show ?case
    proof (cases work)
      case (Inl m)
      let ?h = "handled_session G m s t"
      have "Option.bind (run G cr key kp (Inr (handled_responses G m s)) (fst ?h) (snd ?h))
         (\<lambda>(c1, s1, t1). Option.bind (session_check G cr key kp s1) (\<lambda>(c2, s2).
           Some (c1 @ (if handled_responses G m s = [] then [] else [DkgScheduleTimeout DKG_PROGRESS_INTERVAL t]) @ c2, s2, t1))) =
         Some y"
        using step.hyps
        by (auto simp: eqs Inl handled_responses_def handled_session_def session_reset_timer_def next_timer_token_def Let_def
            split: prod.splits option.splits list.splits)
      then obtain c1 s1 t1 c2 s2 where
        r: "run G cr key kp (Inr (handled_responses G m s)) (fst ?h) (snd ?h) = Some (c1, s1, t1)"
        and chk: "session_check G cr key kp s1 = Some (c2, s2)"
        and y: "y = (c1 @ (if handled_responses G m s = [] then [] else [DkgScheduleTimeout DKG_PROGRESS_INTERVAL t]) @ c2, s2, t1)"
        by (auto simp: bind_eq_Some_conv)
      show ?thesis unfolding y fst_conv snd_conv by (rule message [OF step.prems(5) _ chk]) (use IH [OF r] in simp)
    next
      case (Inr ms)
      show ?thesis
      proof (cases ms)
        case Nil
        then show ?thesis using step.hyps same [OF step.prems(5)] by (auto simp: Inr)
      next
        case (Cons m rest)
        let ?send = "if session_recipients s \<noteq> [] then [DkgSendMessage (session_recipients s) key m] else []"
        obtain c1 s1 t1 c2 s2 t2 where r1: "run G cr key kp (Inl m) s t = Some (c1, s1, t1)"
          and r2: "run G cr key kp (Inr rest) s1 t1 = Some (c2, s2, t2)" and y: "y = (?send @ c1 @ c2, s2, t2)"
          using step.hyps by (auto simp: eqs Inr Cons Let_def bind_eq_Some_conv split: if_splits)
        have e1: "R s c1 s1" using IH [OF r1 step.prems(5)] by simp
        have e2: "R s1 c2 s2" using IH [OF r2 keeps [OF e1]] by simp
        show ?thesis
          using compose [OF silent_if compose [OF e1 e2], of "DkgSendMessage (session_recipients s) key m" "session_recipients s \<noteq> []"]
            step.prems(5) by (simp add: y)
      qed
    qed
  qed
  then show ?thesis using assms by blast
qed

lemma timeout_related:
  assumes "session_handle_timeout G cr key kp s t = Some (c, s', t')" and "I s"
  shows "R s c s'"
proof (cases "se_complete s")
  case True
  then show ?thesis using assms same by (simp add: session_handle_timeout_def)
next
  case False
  obtain tr g where tr: "kg_timed_phase_transition G (se_key_gen s) = (tr, g)"
    by (cases "kg_timed_phase_transition G (se_key_gen s)")
  show ?thesis
  proof (cases tr)
    case None
    then show ?thesis using assms False tr failed_phase [OF assms(2) False] by (auto simp: session_handle_timeout_def bind_eq_Some_conv)
  next
    case (Some ms)
    obtain c1 s1 t1 c2 where r: "dkg_run G cr key kp (Inr ms) (s\<lparr>se_key_gen := g\<rparr>) t = Some (c1, s1, t1)"
      and chk: "session_check G cr key kp (s1\<lparr>se_timer_token := t1\<rparr>) = Some (c2, s')"
      and c: "c = c1 @ [DkgScheduleTimeout DKG_PROGRESS_INTERVAL t1] @ c2"
      using assms(1) False tr Some
      by (auto simp: session_handle_timeout_def session_reset_timer_def next_timer_token_def bind_eq_Some_conv)
    have r1: "R s [] (s\<lparr>se_key_gen := g\<rparr>)" by (rule generator [OF assms(2)])
    have r2: "R (s\<lparr>se_key_gen := g\<rparr>) c1 s1" using dkg_run_related [OF r keeps [OF r1]] by simp
    have r3: "R s1 [DkgScheduleTimeout DKG_PROGRESS_INTERVAL t1] (s1\<lparr>se_timer_token := t1\<rparr>)"
      using compose [OF silent [OF keeps [OF r2]] timer [OF keeps [OF r2]], of "DkgScheduleTimeout DKG_PROGRESS_INTERVAL t1"] by simp
    from compose [OF compose [OF r1 r2] compose [OF r3 check [OF keeps [OF r3] chk]]] show ?thesis by (simp add: c)
  qed
qed

end

interpretation effect: session_relation G cr key kp "session_inv cr kp" "session_effect cr kp" for G cr key kp
proof
  fix s s' :: "'a session" and c g
  show "session_effect cr kp s [] (s\<lparr>se_key_gen := g\<rparr>)" if "session_inv cr kp s" by (rule session_effect_refl [OF that]) simp_all
  show "session_effect cr kp s c s'" if "session_inv cr kp s" "session_check G cr key kp s = Some (c, s')"
    using session_check_effect [OF that(1), of G key] that(2) by auto
  show "session_effect cr kp s c s'" if "session_inv cr kp s" "\<not> se_complete s"
    "report_failure cr key [] kp (s\<lparr>se_key_gen := g\<rparr>) = Some (c, s')"
  proof -
    have e: "session_effect cr kp s [] (s\<lparr>se_key_gen := g\<rparr>)" by (rule session_effect_refl [OF that(1)]) simp_all
    then have "session_effect cr kp (s\<lparr>se_key_gen := g\<rparr>) c s'"
      using report_failure_effect [OF session_effectD(1) [OF e], of key "[]"] that(2,3) by auto
    from session_effect_trans [OF e this] show ?thesis by simp
  qed
next
  fix s :: "'a session" and c t
  show "session_effect cr kp s [] (s\<lparr>se_timer_token := t\<rparr>)" if "session_inv cr kp s" by (rule session_effect_refl [OF that]) simp_all
  show "session_effect cr kp s [c] s" if "session_inv cr kp s" "\<not> is_terminal c"
    using session_effect_silent [OF session_effect_refl [OF that(1), of s], of "[c]" "[]"] that(2) by simp
qed (blast intro: session_effect_trans session_effectD(1))+

section \<open>Termination\<close>

text \<open>A key generator answers only finitely many messages: there is a bound on the messages
  with responses that decreases whenever there are responses.\<close>

definition keygen_progress :: "'g keygen_ops \<Rightarrow> ('g \<Rightarrow> nat) \<Rightarrow> bool" where
  "keygen_progress G rank \<longleftrightarrow>
     (\<forall>g m. case kg_handle_message G g m of (responses, g') \<Rightarrow>
        rank g' \<le> rank g \<and> (\<forall>r rs. responses = Some (r # rs) \<longrightarrow> rank g' < rank g))"

lemma keygen_progress_handled:
  assumes "keygen_progress G rank"
  shows "rank (se_key_gen (fst (handled_session G m s t))) \<le> rank (se_key_gen s)"
    "handled_responses G m s \<noteq> [] \<Longrightarrow> rank (se_key_gen (fst (handled_session G m s t))) < rank (se_key_gen s)"
proof -
  obtain r g where h: "kg_handle_message G (se_key_gen s) m = (r, g)" by (cases "kg_handle_message G (se_key_gen s) m")
  have "case kg_handle_message G (se_key_gen s) m of (responses, g') \<Rightarrow>
      rank g' \<le> rank (se_key_gen s) \<and> (\<forall>r rs. responses = Some (r # rs) \<longrightarrow> rank g' < rank (se_key_gen s))"
    using assms unfolding keygen_progress_def by (elim allE)
  then show "rank (se_key_gen (fst (handled_session G m s t))) \<le> rank (se_key_gen s)"
    "handled_responses G m s \<noteq> [] \<Longrightarrow> rank (se_key_gen (fst (handled_session G m s t))) < rank (se_key_gen s)"
    using h by (auto simp: handled_responses_def neq_Nil_conv split: option.splits)
qed

definition returns_below :: "'g keygen_ops \<Rightarrow> 'c crypto_ops \<Rightarrow> dkg_key \<Rightarrow> keypair \<Rightarrow> ('g \<Rightarrow> nat) \<Rightarrow>
    dkg_message + dkg_message list \<Rightarrow> 'g session \<Rightarrow> u64 \<Rightarrow> bool" where
  "returns_below G cr k kp rank work s t \<longleftrightarrow>
     (\<exists>c s' t'. dkg_run G cr k kp work s t = Some (c, s', t') \<and> session_inv cr kp s' \<and>
        rank (se_key_gen s') \<le> rank (se_key_gen s))"

lemma message_returns:
  assumes kg: "keygen_progress G rank" and inv: "session_inv cr kp s"
    and IH: "\<And>s t ms. rank (se_key_gen s) < n \<Longrightarrow> session_inv cr kp s \<Longrightarrow> returns_below G cr k kp rank (Inr ms) s t"
    and n: "rank (se_key_gen s) \<le> n"
  shows "returns_below G cr k kp rank (Inl m) s t"
proof -
  let ?h = "handled_session G m s t"
  have inv1: "session_inv cr kp (fst ?h)" by (rule session_effectD(1) [OF handled_session_effect [OF inv]])
  have "returns_below G cr k kp rank (Inr (handled_responses G m s)) (fst ?h) (snd ?h)"
  proof (cases "handled_responses G m s = []")
    case True
    then show ?thesis using inv1 unfolding returns_below_def by (cases ?h) fastforce
  next
    case False
    then show ?thesis using keygen_progress_handled(2) [OF kg False, of t] n inv1 by (intro IH) simp_all
  qed
  then obtain c1 s1 t1 where r1: "dkg_run G cr k kp (Inr (handled_responses G m s)) (fst ?h) (snd ?h) = Some (c1, s1, t1)"
    and inv2: "session_inv cr kp s1" and le: "rank (se_key_gen s1) \<le> rank (se_key_gen (fst ?h))"
    unfolding returns_below_def by blast
  obtain c2 s2 where r2: "session_check G cr k kp s1 = Some (c2, s2)" and e2: "session_effect cr kp s1 c2 s2"
    and g2: "se_key_gen s2 = se_key_gen s1"
    using session_check_effect [OF inv2, of G k] by blast
  show ?thesis
    using r1 r2 g2 le session_effectD(1) [OF e2] keygen_progress_handled(1) [OF kg, of m s t]
    by (simp add: returns_below_def dkg_run_message)
qed

lemma dkg_run_returns:
  assumes kg: "keygen_progress G rank"
  shows "rank (se_key_gen s) \<le> n \<Longrightarrow> session_inv cr kp s \<Longrightarrow> returns_below G cr k kp rank (Inr ms) s t"
proof (induction n arbitrary: s t ms rule: less_induct)
  case (less n)
  have IH: "returns_below G cr k kp rank (Inr ms) s t" if "rank (se_key_gen s) < n" "session_inv cr kp s" for s t ms
    using less.IH [OF that(1) order_refl that(2)] .
  show ?case
    using less.prems
  proof (induction ms arbitrary: s t)
    case Nil
    then show ?case by (simp add: returns_below_def)
  next
    case (Cons m ms s t)
    obtain c1 s1 t1 where r1: "dkg_run G cr k kp (Inl m) s t = Some (c1, s1, t1)" and i1: "session_inv cr kp s1"
      and le1: "rank (se_key_gen s1) \<le> rank (se_key_gen s)"
      using message_returns [OF kg Cons.prems(2) IH Cons.prems(1), of m t] unfolding returns_below_def by blast
    obtain c2 s2 t2 where r2: "dkg_run G cr k kp (Inr ms) s1 t1 = Some (c2, s2, t2)" and i2: "session_inv cr kp s2"
      and le2: "rank (se_key_gen s2) \<le> rank (se_key_gen s1)"
      using Cons.IH [OF _ i1, of t1] le1 Cons.prems(1) unfolding returns_below_def by force
    show ?case
      using r1 r2 i2 le1 le2 by (auto simp: returns_below_def dkg_run_Cons)
  qed
qed

lemma process_message_returns:
  assumes "keygen_progress G rank" "session_inv cr kp s"
  shows "\<exists>c s' t'. dkg_run G cr k kp (Inl m) s t = Some (c, s', t') \<and> session_inv cr kp s'"
proof -
  have "returns_below G cr k kp rank (Inl m) s t"
    by (rule message_returns [OF assms _ order_refl]) (rule dkg_run_returns [OF assms(1) order_refl])
  then show ?thesis unfolding returns_below_def by blast
qed

lemma broadcasts_return:
  assumes "keygen_progress G rank" "session_inv cr kp s"
  shows "\<exists>c s' t'. dkg_run G cr key kp (Inr ms) s t = Some (c, s', t') \<and> session_inv cr kp s'"
  using dkg_run_returns [OF assms(1) order_refl assms(2), of key ms t] unfolding returns_below_def by blast

lemma handle_timeout_returns:
  assumes "keygen_progress G rank" "session_inv cr kp s"
  shows "\<exists>c s' t'. session_handle_timeout G cr key kp s t = Some (c, s', t') \<and> session_inv cr kp s'"
proof (cases "se_complete s")
  case True
  then show ?thesis using assms(2) by (simp add: session_handle_timeout_def)
next
  case False
  obtain tr g where tr: "kg_timed_phase_transition G (se_key_gen s) = (tr, g)"
    by (cases "kg_timed_phase_transition G (se_key_gen s)")
  have inv: "session_inv cr kp (s\<lparr>se_key_gen := g\<rparr>)" using assms(2) by (simp add: session_inv_def)
  show ?thesis
  proof (cases tr)
    case None
    obtain c s' where "report_failure cr key [] kp (s\<lparr>se_key_gen := g\<rparr>) = Some (c, s')"
      and e: "session_effect cr kp (s\<lparr>se_key_gen := g\<rparr>) c s'"
      using report_failure_effect [OF inv, of key "[]"] False by auto
    then show ?thesis using False tr None session_effectD(1) [OF e] by (simp add: session_handle_timeout_def)
  next
    case (Some ms)
    obtain c s1 t1 where r: "dkg_run G cr key kp (Inr ms) (s\<lparr>se_key_gen := g\<rparr>) t = Some (c, s1, t1)"
      and inv1: "session_inv cr kp s1" using broadcasts_return [OF assms(1) inv] by blast
    have "session_inv cr kp (s1\<lparr>se_timer_token := t1\<rparr>)" using inv1 by (simp add: session_inv_def)
    then obtain c2 s2 where "session_check G cr key kp (s1\<lparr>se_timer_token := t1\<rparr>) = Some (c2, s2)" "session_inv cr kp s2"
      using session_check_effect session_effectD(1) by blast
    then show ?thesis
      using False tr Some r by (simp add: session_handle_timeout_def session_reset_timer_def next_timer_token_def)
  qed
qed

section \<open>The backlog keeps the most recent messages\<close>

abbreviation backlog_items :: "backlog \<Rightarrow> (dkg_key \<times> dkg_message) list" where
  "backlog_items b \<equiv> vd_list (bl_queue b)"

definition backlog_inv :: "backlog \<Rightarrow> bool" where
  "backlog_inv b \<longleftrightarrow> 0 < vd_capacity (bl_queue b) \<and> length (backlog_items b) \<le> vd_capacity (bl_queue b)"

interpretation recent_backlog: recent_queue backlog_items "\<lambda>b. vd_capacity (bl_queue b)" "\<lambda>b (k, m). backlog_push b k m"
  by unfold_locales
    (auto simp: backlog_push_def vd_push_back_def vd_pop_front_def Let_def split: list.split)

lemma backlog_take_loop_eq:
  "length xs \<le> vd_capacity q \<Longrightarrow> vd_list q = xs @ ys \<Longrightarrow> length (xs @ ys) \<le> vd_capacity q \<Longrightarrow>
    backlog_take_loop (length xs) k q out =
      (out @ map snd (filter (\<lambda>p. fst p = k) xs), q\<lparr>vd_list := ys @ filter (\<lambda>p. fst p \<noteq> k) xs\<rparr>)"
proof (induction xs arbitrary: q ys out)
  case (Cons p xs)
  obtain k' m where p: "p = (k', m)" by (cases p)
  let ?q = "q\<lparr>vd_list := xs @ ys\<rparr>"
  have pop: "vd_pop_front q = (Some (k', m), ?q)" using Cons.prems(2) by (simp add: vd_pop_front_def p)
  show ?case
  proof (cases "k' = k")
    case True
    then show ?thesis using Cons.IH [of ?q ys "out @ [m]"] Cons.prems pop by (simp add: p)
  next
    case False
    have push: "vd_push_back (k', m) ?q = q\<lparr>vd_list := xs @ ys @ [(k', m)]\<rparr>"
      using Cons.prems by (simp add: vd_push_back_def)
    show ?thesis
      using Cons.IH [of "q\<lparr>vd_list := xs @ ys @ [(k', m)]\<rparr>" "ys @ [(k', m)]" out] Cons.prems pop push False
      by (simp add: p)
  qed
qed simp

lemma backlog_take_eq:
  assumes "backlog_inv b"
  shows "backlog_take b k =
    (map snd (filter (\<lambda>p. fst p = k) (backlog_items b)),
     \<lparr>bl_queue = (bl_queue b)\<lparr>vd_list := filter (\<lambda>p. fst p \<noteq> k) (backlog_items b)\<rparr>\<rparr>)"
  using backlog_take_loop_eq [of "backlog_items b" "bl_queue b" "[]" k "[]"] assms
  by (simp add: backlog_take_def backlog_inv_def)

lemma backlog_inv_push: "backlog_inv b \<Longrightarrow> backlog_inv (backlog_push b k m)"
  using recent_backlog.push_length [of b "(k, m)"] recent_backlog.push_bound [of b "(k, m)"]
  by (simp add: backlog_inv_def)

lemma backlog_inv_take: "backlog_inv b \<Longrightarrow> backlog_inv (snd (backlog_take b k))"
  by (simp add: backlog_take_eq) (auto simp: backlog_inv_def intro: le_trans [OF length_filter_le])

lemma backlog_inv_prune: "backlog_inv b \<Longrightarrow> backlog_inv (backlog_prune b k)"
  by (auto simp: backlog_inv_def backlog_prune_def intro: le_trans [OF length_filter_le])

section \<open>Runs of calls\<close>

text \<open>The calls a voter makes on a session, in any order.\<close>

datatype session_call =
    SessionMessage dkg_message
  | SessionBroadcast dkg_message
  | SessionTimeout
  | SessionFailure "xor_name btree_set" dkg_failure_signed

definition session_do ::
  "'g keygen_ops \<Rightarrow> 'c crypto_ops \<Rightarrow> dkg_key \<Rightarrow> keypair \<Rightarrow> session_call \<Rightarrow> 'g session \<Rightarrow> u64
    \<Rightarrow> (dkg_command list \<times> 'g session \<times> u64) option" where
  "session_do G cr key kp call s t =
     (case call of
        SessionMessage m \<Rightarrow> session_process_message G cr key kp m s t
      | SessionBroadcast m \<Rightarrow> session_broadcast G cr key kp m s t
      | SessionTimeout \<Rightarrow> session_handle_timeout G cr key kp s t
      | SessionFailure np sg \<Rightarrow>
          map_option (\<lambda>(c, s'). (case c of None \<Rightarrow> [] | Some c \<Rightarrow> [c], s', t)) (session_process_failure cr key np sg s))"

fun session_run ::
  "'g keygen_ops \<Rightarrow> 'c crypto_ops \<Rightarrow> dkg_key \<Rightarrow> keypair \<Rightarrow> session_call list \<Rightarrow> 'g session \<Rightarrow> u64
    \<Rightarrow> (dkg_command list \<times> 'g session \<times> u64) option" where
  "session_run G cr key kp [] s t = Some ([], s, t)"
| "session_run G cr key kp (call # calls) s t =
     Option.bind (session_do G cr key kp call s t) (\<lambda>(c1, s1, t1).
     Option.bind (session_run G cr key kp calls s1 t1) (\<lambda>(c2, s2, t2). Some (c1 @ c2, s2, t2)))"

fun is_outcome :: "dkg_command \<Rightarrow> bool" where
  "is_outcome (DkgHandleOutcome _ _) = True"
| "is_outcome _ = False"

fun is_failure_call :: "session_call \<Rightarrow> bool" where
  "is_failure_call (SessionFailure _ _) = True"
| "is_failure_call _ = False"

text \<open>The effect of a run with \<open>n\<close> observations of a failure.\<close>

definition run_effect :: "'c crypto_ops \<Rightarrow> keypair \<Rightarrow> nat \<Rightarrow> 'g session \<Rightarrow> dkg_command list \<Rightarrow> 'g session \<Rightarrow> bool" where
  "run_effect cr kp n s cmds s' \<longleftrightarrow>
     session_inv cr kp s' \<and>
     se_elder_candidates s' = se_elder_candidates s \<and> se_participant_index s' = se_participant_index s \<and>
     (se_complete s \<longrightarrow> se_complete s') \<and> (filter is_terminal cmds \<noteq> [] \<longrightarrow> se_complete s') \<and>
     length (filter is_outcome cmds) \<le> (if se_complete s then 0 else 1) \<and>
     length (filter is_terminal cmds) \<le> (if se_complete s then 0 else 1) + n \<and>
     list_all (conclusion_ok cr s) cmds"

lemma is_outcome_terminal: "is_outcome c \<Longrightarrow> is_terminal c"
  by (cases c) auto

lemma outcomes_terminal: "length (filter is_outcome cmds) \<le> length (filter is_terminal cmds)"
  by (induction cmds) (auto dest: is_outcome_terminal)

lemma session_effect_run:
  assumes "session_effect cr kp s cmds s'"
  shows "run_effect cr kp n s cmds s'"
  using session_effectD [OF assms] outcomes_terminal [of cmds] by (auto simp: run_effect_def split: if_splits)

lemma process_failure_run:
  assumes "session_inv cr kp s" "session_process_failure cr key np sg s = Some (c, s')"
  shows "run_effect cr kp 1 s (case c of None \<Rightarrow> [] | Some c \<Rightarrow> [c]) s'"
proof -
  have "session_inv cr kp s'" "se_elder_candidates s' = se_elder_candidates s"
    "list_all (conclusion_ok cr s) (case c of None \<Rightarrow> [] | Some c \<Rightarrow> [c])"
    using session_process_failure_returns [OF assms(1), of key np sg] assms(2) by auto
  moreover have "se_participant_index s' = se_participant_index s" "se_complete s \<longrightarrow> se_complete s'"
    "c = None \<or> (\<exists>fs. c = Some (DkgHandleFailureAgreement fs)) \<and> se_complete s'"
    using assms(2)
    by (auto simp: session_process_failure_def check_failure_agreement_def Let_def split_beta split: if_splits option.splits bool.splits)
  ultimately show ?thesis by (auto simp: run_effect_def)
qed

lemma quiet_call_effect:
  assumes "session_inv cr kp s" "session_do G cr key kp call s t = Some (cmds, s', t')" "\<not> is_failure_call call"
  shows "session_effect cr kp s cmds s'"
proof (cases call)
  case (SessionMessage m)
  then show ?thesis
    using assms(1,2) effect.dkg_run_related [of G cr key kp "Inl m" s t "(cmds, s', t')"]
    by (simp add: session_do_def session_process_message_def)
next
  case (SessionBroadcast m)
  then show ?thesis
    using assms(1,2) effect.dkg_run_related [of G cr key kp "Inr [m]" s t "(cmds, s', t')"]
    by (simp add: session_do_def session_broadcast_def)
next
  case SessionTimeout
  then show ?thesis using assms(1,2) effect.timeout_related [of G cr key kp s t cmds s' t'] by (simp add: session_do_def)
qed (use assms(3) in simp)

lemma session_do_effect:
  assumes "session_inv cr kp s" "session_do G cr key kp call s t = Some (cmds, s', t')"
  shows "run_effect cr kp (if is_failure_call call then 1 else 0) s cmds s'"
proof (cases call)
  case (SessionFailure np sg)
  then obtain c where "session_process_failure cr key np sg s = Some (c, s')" "cmds = (case c of None \<Rightarrow> [] | Some c \<Rightarrow> [c])"
    using assms(2) by (auto simp: session_do_def)
  then show ?thesis using process_failure_run [OF assms(1)] SessionFailure by simp
qed (use session_effect_run [OF quiet_call_effect [OF assms]] in simp_all)

lemma run_effect_trans:
  assumes "run_effect cr kp n s c1 s1" "run_effect cr kp m s1 c2 s2"
  shows "run_effect cr kp (n + m) s (c1 @ c2) s2"
proof -
  have "conclusion_ok cr s1 = conclusion_ok cr s"
    using assms(1) conclusion_ok_cong [of s1 s] by (auto simp: run_effect_def)
  moreover have "filter is_outcome c1 \<noteq> [] \<Longrightarrow> se_complete s1"
    using assms(1) is_outcome_terminal by (auto simp: run_effect_def filter_empty_conv)
  ultimately show ?thesis
    using assms by (cases "filter is_outcome c1"; cases "se_complete s"; cases "se_complete s1") (auto simp: run_effect_def)
qed

lemma session_run_effect:
  assumes "session_inv cr kp s" "session_run G cr key kp calls s t = Some (cmds, s', t')"
  shows "run_effect cr kp (length (filter is_failure_call calls)) s cmds s'"
  using assms
proof (induction calls arbitrary: s t cmds)
  case Nil
  then show ?case by (simp add: run_effect_def)
next
  case (Cons call calls)
  obtain c1 s1 t1 c2 where first: "session_do G cr key kp call s t = Some (c1, s1, t1)"
    and rest: "session_run G cr key kp calls s1 t1 = Some (c2, s', t')" and cmds: "cmds = c1 @ c2"
    using Cons.prems(2) by (auto simp: bind_eq_Some_conv)
  note e = session_do_effect [OF Cons.prems(1) first]
  from run_effect_trans [OF e Cons.IH [OF _ rest]] e show ?case by (auto simp: cmds run_effect_def)
qed

lemma quiet_run_effect:
  assumes "session_inv cr kp s" "session_run G cr key kp calls s t = Some (cmds, s', t')" "list_all (\<lambda>call. \<not> is_failure_call call) calls"
  shows "session_effect cr kp s cmds s'"
  using assms
proof (induction calls arbitrary: s t cmds)
  case Nil
  then show ?case using session_effect_refl [OF Nil.prems(1)] by simp
next
  case (Cons call calls)
  obtain c1 s1 t1 c2 where first: "session_do G cr key kp call s t = Some (c1, s1, t1)"
    and rest: "session_run G cr key kp calls s1 t1 = Some (c2, s', t')" and cmds: "cmds = c1 @ c2"
    using Cons.prems(2) by (auto simp: bind_eq_Some_conv)
  have e: "session_effect cr kp s c1 s1" using quiet_call_effect [OF Cons.prems(1) first] Cons.prems(3) by simp
  have "session_effect cr kp s1 c2 s'" using Cons.IH [OF session_effectD(1) [OF e] rest] Cons.prems(3) by simp
  from session_effect_trans [OF e this] show ?case by (simp add: cmds)
qed

section \<open>Votes that blame the same participants\<close>

text \<open>What we sign with our keypair verifies.\<close>

definition genuine_keypair :: "'c crypto_ops \<Rightarrow> keypair \<Rightarrow> bool" where
  "genuine_keypair cr kp \<longleftrightarrow> (\<forall>m. ed_verify cr (kp_public kp) m (ed_sign cr kp m))"

text \<open>The votes are over \<open>np\<close>, and so is the set of non-participants that is recorded with them.\<close>

definition votes_blame :: "'c crypto_ops \<Rightarrow> dkg_key \<Rightarrow> xor_name btree_set \<Rightarrow> dkg_failure_signed_set \<Rightarrow> bool" where
  "votes_blame cr key np fs \<longleftrightarrow>
     (\<forall>sg \<in> set (dfs_signeds fs). failure_signed_verify cr sg key np) \<and>
     (dfs_non_participants fs = np \<or> dfs_signeds fs = [] \<and> dfs_non_participants fs = [])"

text \<open>Every failure that the generator makes a session report is blamed on \<open>np\<close>: a key without some of the
  participants, a share that does not belong to its key, a phase transition that fails.\<close>

definition reports_blame :: "'g keygen_ops \<Rightarrow> 'c crypto_ops \<Rightarrow> elder_candidates \<Rightarrow> nat \<Rightarrow> xor_name btree_set \<Rightarrow> bool" where
  "reports_blame G cr ec i np \<longleftrightarrow>
     (\<forall>g ps out. kg_generate_keys G g = Some (ps, out) \<longrightarrow>
        (if ps \<noteq> bt_keys (ec_elders ec) then filter (\<lambda>e. e \<notin> set ps) (bt_keys (ec_elders ec)) = np
         else pks_public_key_share cr (ko_public_key_set out) i \<noteq> sks_public_key_share cr (ko_secret_key_share out) \<longrightarrow> np = [])) \<and>
     (\<forall>g g'. kg_timed_phase_transition G g = (None, g') \<longrightarrow> np = [])"

fun call_blames :: "xor_name btree_set \<Rightarrow> session_call \<Rightarrow> bool" where
  "call_blames np (SessionFailure np' _) \<longleftrightarrow> np' = np"
| "call_blames np _ \<longleftrightarrow> True"

definition blame_inv :: "'c env \<Rightarrow> keypair \<Rightarrow> elder_candidates \<Rightarrow> u64 \<Rightarrow> nat \<Rightarrow> xor_name btree_set \<Rightarrow> 'g session \<Rightarrow> bool" where
  "blame_inv E kp ec generation i np s \<longleftrightarrow>
     session_inv (ev_crypto E) kp s \<and> se_elder_candidates s = ec \<and> se_participant_index s = i \<and>
     votes_blame (ev_crypto E) (dkg_key_new E ec generation) np (se_failures s)"

definition agreements_verify :: "'c env \<Rightarrow> elder_candidates \<Rightarrow> u64 \<Rightarrow> dkg_command list \<Rightarrow> bool" where
  "agreements_verify E ec generation cmds \<longleftrightarrow>
     (\<forall>fs. DkgHandleFailureAgreement fs \<in> set cmds \<longrightarrow> failure_set_verify E fs ec generation = Some True)"

lemma agreements_verify_simps [simp]:
  "agreements_verify E ec g []" "agreements_verify E ec g (c1 @ c2) \<longleftrightarrow> agreements_verify E ec g c1 \<and> agreements_verify E ec g c2"
  "\<not> is_terminal c \<Longrightarrow> agreements_verify E ec g [c]" "agreements_verify E ec g [DkgHandleOutcome sa ks]"
  by (auto simp: agreements_verify_def)

lemma votes_blame_insert:
  assumes "votes_blame cr key np fs" "failure_signed_verify cr sg key np"
  shows "votes_blame cr key np (snd (failure_set_insert fs sg np))"
  using assms by (auto simp: votes_blame_def failure_set_insert_def Let_def)

lemma votes_blame_agree: "votes_blame cr key np fs \<Longrightarrow> votes_agree cr key fs"
  by (auto simp: votes_blame_def votes_agree_def)

lemma blame_inv_insert:
  assumes "blame_inv E kp ec g i np s" "failure_signed_verify (ev_crypto E) sg (dkg_key_new E ec g) np"
    and "bt_contains (ec_elders ec) (ed_to_bytes (ev_crypto E) (df_public_key sg))"
  shows "blame_inv E kp ec g i np (s\<lparr>se_failures := snd (failure_set_insert (se_failures s) sg np)\<rparr>)"
  using assms insert_failure_inv [of "ev_crypto E" kp s sg np] votes_blame_insert [of "ev_crypto E" "dkg_key_new E ec g" np "se_failures s" sg]
  by (simp add: blame_inv_def)

lemma check_agreement_verifies:
  assumes "blame_inv E kp ec g i np s" "check_failure_agreement s = Some (a, s')"
  shows "blame_inv E kp ec g i np s' \<and> agreements_verify E ec g (case a of None \<Rightarrow> [] | Some c \<Rightarrow> [c])"
proof -
  have "failure_set_verify E (se_failures s) ec g = failure_set_has_agreement (se_failures s) ec"
    using assms(1) by (intro agreed_set_verifies votes_blame_agree) (auto simp: blame_inv_def session_inv_def)
  moreover have "votes_blame (ev_crypto E) (dkg_key_new E ec g) np failure_set_default"
    by (simp add: votes_blame_def failure_set_default_def)
  ultimately show ?thesis
    using assms
    by (auto simp: check_failure_agreement_def blame_inv_def session_inv_def agreements_verify_def split: option.splits bool.splits)
qed

lemma report_blames:
  assumes "blame_inv E kp ec g i np s" "genuine_keypair (ev_crypto E) kp"
    and "report_failure (ev_crypto E) (dkg_key_new E ec g) np kp s = Some (c, s')"
  shows "blame_inv E kp ec g i np s' \<and> agreements_verify E ec g c"
proof -
  let ?sg = "dkg_failure_signed_new (ev_crypto E) kp np (dkg_key_new E ec g)"
  let ?s = "s\<lparr>se_failures := snd (failure_set_insert (se_failures s) ?sg np)\<rparr>"
  have "session_inv (ev_crypto E) kp s" "se_elder_candidates s = ec" using assms(1) by (simp_all add: blame_inv_def)
  then have "bt_contains (ec_elders ec) (ed_to_bytes (ev_crypto E) (df_public_key ?sg))"
    using session_inv_participant(1) by (fastforce simp: dkg_failure_signed_new_def)
  moreover have "failure_signed_verify (ev_crypto E) ?sg (dkg_key_new E ec g) np"
    using assms(2) by (simp add: genuine_keypair_def failure_signed_verify_def dkg_failure_signed_new_def)
  ultimately have inv: "blame_inv E kp ec g i np ?s" by (intro blame_inv_insert [OF assms(1)])
  show ?thesis
  proof (cases "fst (failure_set_insert (se_failures s) ?sg np)")
    case False
    then show ?thesis using assms(3) inv by (auto simp: report_failure_def Let_def split_beta)
  next
    case True
    then obtain a where a: "check_failure_agreement ?s = Some (a, s')"
      "c = (case a of None \<Rightarrow> [] | Some c \<Rightarrow> [c]) @ [DkgSendFailureObservation (session_recipients s') (dkg_key_new E ec g) ?sg np]"
      using assms(3) by (auto simp: report_failure_def Let_def split_beta split: option.splits)
    show ?thesis using check_agreement_verifies [OF inv a(1)] by (simp add: a(2))
  qed
qed

lemma failure_blames:
  assumes "blame_inv E kp ec g i np s"
    and "session_process_failure (ev_crypto E) (dkg_key_new E ec g) np sg s = Some (c, s')"
  shows "blame_inv E kp ec g i np s' \<and> agreements_verify E ec g (case c of None \<Rightarrow> [] | Some c \<Rightarrow> [c])"
proof (cases "bt_contains (ec_elders ec) (ed_to_bytes (ev_crypto E) (df_public_key sg)) \<and>
    failure_signed_verify (ev_crypto E) sg (dkg_key_new E ec g) np")
  case True
  let ?s = "s\<lparr>se_failures := snd (failure_set_insert (se_failures s) sg np)\<rparr>"
  have inv: "blame_inv E kp ec g i np ?s" using blame_inv_insert [OF assms(1)] True by blast
  have "c = None \<and> s' = ?s \<or> check_failure_agreement ?s = Some (c, s')"
    using assms True by (auto simp: session_process_failure_def blame_inv_def Let_def split_beta split: if_splits)
  then show ?thesis using inv check_agreement_verifies [OF inv, of c s'] by auto
qed (use assms in \<open>auto simp: session_process_failure_def blame_inv_def split: if_splits\<close>)

lemma blame_inv_cong:
  assumes "blame_inv E kp ec g i np s" "se_elder_candidates s' = se_elder_candidates s" "se_participant_index s' = se_participant_index s"
    "se_failures s' = se_failures s"
  shows "blame_inv E kp ec g i np s'"
  using assms unfolding blame_inv_def session_inv_def by metis

lemma check_blames:
  assumes "genuine_keypair (ev_crypto E) kp" "reports_blame G (ev_crypto E) ec i np" "blame_inv E kp ec g i np s"
    and "session_check G (ev_crypto E) (dkg_key_new E ec g) kp s = Some (c, s')"
  shows "blame_inv E kp ec g i np s' \<and> agreements_verify E ec g c"
proof (cases "se_complete s \<or> \<not> kg_is_finalized G (se_key_gen s) \<or> kg_generate_keys G (se_key_gen s) = None")
  case True
  then have "session_check G (ev_crypto E) (dkg_key_new E ec g) kp s = Some ([], s)" by (auto simp: session_check_def)
  then have "c = []" "s' = s" using assms(4) by simp_all
  then show ?thesis using assms(3) by simp
next
  case False
  then obtain ps out where kg: "\<not> se_complete s" "kg_is_finalized G (se_key_gen s)" "kg_generate_keys G (se_key_gen s) = Some (ps, out)"
    by auto
  have ec: "se_elder_candidates s = ec" "se_participant_index s = i" using assms(3) by (simp_all add: blame_inv_def)
  let ?match = "pks_public_key_share (ev_crypto E) (ko_public_key_set out) i = sks_public_key_share (ev_crypto E) (ko_secret_key_share out)"
  have blamed: "if ps \<noteq> bt_keys (ec_elders ec) then filter (\<lambda>e. e \<notin> set ps) (bt_keys (ec_elders ec)) = np else \<not> ?match \<longrightarrow> np = []"
    using assms(2) kg(3) unfolding reports_blame_def by blast
  show ?thesis
  proof (cases "ps = bt_keys (ec_elders ec) \<and> ?match")
    case True
    then have "c = [DkgHandleOutcome (from_elder_candidates ec (ko_public_key_set out)) \<lparr>ks_public_key_set = ko_public_key_set out,
        ks_index = i, ks_secret_key_share = ko_secret_key_share out\<rparr>]" "s' = s\<lparr>se_complete := True\<rparr>"
      using assms(4) kg ec by (simp_all add: session_check_def)
    then show ?thesis using blame_inv_cong [OF assms(3), of "s\<lparr>se_complete := True\<rparr>"] by simp
  next
    case False
    have "report_failure (ev_crypto E) (dkg_key_new E ec g) np kp s = Some (c, s')"
    proof (cases "ps = bt_keys (ec_elders ec)")
      case True
      then show ?thesis using assms(4) kg ec False blamed by (simp add: session_check_def)
    next
      case diff: False
      then show ?thesis using assms(4) kg ec blamed by (simp add: session_check_def)
    qed
    then show ?thesis by (rule report_blames [OF assms(3,1)])
  qed
qed

lemma blame_relation:
  fixes G :: "'g keygen_ops"
  assumes "genuine_keypair (ev_crypto E) kp" "reports_blame G (ev_crypto E) ec i np"
  shows "session_relation G (ev_crypto E) (dkg_key_new E ec g) kp (blame_inv E kp ec g i np)
    (\<lambda>s c s'. blame_inv E kp ec g i np s' \<and> agreements_verify E ec g c)"
proof
  fix s s' :: "'g session" and c x
  assume inv: "blame_inv E kp ec g i np s" and failed: "kg_timed_phase_transition G (se_key_gen s) = (None, x)"
    and report: "report_failure (ev_crypto E) (dkg_key_new E ec g) [] kp (s\<lparr>se_key_gen := x\<rparr>) = Some (c, s')"
  have "np = []" using assms(2) failed unfolding reports_blame_def by blast
  moreover have "blame_inv E kp ec g i np (s\<lparr>se_key_gen := x\<rparr>)" by (rule blame_inv_cong [OF inv]) simp_all
  ultimately show "blame_inv E kp ec g i np s' \<and> agreements_verify E ec g c" using report_blames [OF _ assms(1)] report by blast
qed (simp_all add: blame_inv_cong check_blames [OF assms])

lemma session_do_blames:
  assumes "genuine_keypair (ev_crypto E) kp" "reports_blame G (ev_crypto E) ec i np" "blame_inv E kp ec g i np s" "call_blames np call"
    and "session_do G (ev_crypto E) (dkg_key_new E ec g) kp call s t = Some (c, s', t')"
  shows "blame_inv E kp ec g i np s' \<and> agreements_verify E ec g c"
proof -
  note rel = blame_relation [OF assms(1,2), of g]
  show ?thesis
  proof (cases call)
    case (SessionFailure np' sg)
    then show ?thesis using assms(3-5) failure_blames [OF assms(3)] by (auto simp: session_do_def)
  next
    case (SessionMessage m)
    then show ?thesis
      using assms(5) session_relation.dkg_run_related [OF rel _ assms(3), of "Inl m" t "(c, s', t')"]
      by (simp add: session_do_def session_process_message_def)
  next
    case (SessionBroadcast m)
    then show ?thesis
      using assms(5) session_relation.dkg_run_related [OF rel _ assms(3), of "Inr [m]" t "(c, s', t')"]
      by (simp add: session_do_def session_broadcast_def)
  next
    case SessionTimeout
    then show ?thesis
      using assms(5) session_relation.timeout_related [OF rel _ assms(3), of t c s' t'] by (simp add: session_do_def)
  qed
qed

lemma session_run_blames:
  assumes "genuine_keypair (ev_crypto E) kp" "reports_blame G (ev_crypto E) ec i np" "blame_inv E kp ec g i np s"
    and "list_all (call_blames np) calls" "session_run G (ev_crypto E) (dkg_key_new E ec g) kp calls s t = Some (c, s', t')"
  shows "blame_inv E kp ec g i np s' \<and> agreements_verify E ec g c"
  using assms(3-5)
proof (induction calls arbitrary: s t c)
  case (Cons call calls)
  obtain c1 s1 t1 c2 where first: "session_do G (ev_crypto E) (dkg_key_new E ec g) kp call s t = Some (c1, s1, t1)"
    and rest: "session_run G (ev_crypto E) (dkg_key_new E ec g) kp calls s1 t1 = Some (c2, s', t')" and c: "c = c1 @ c2"
    using Cons.prems(3) by (auto simp: bind_eq_Some_conv)
  have "blame_inv E kp ec g i np s1 \<and> agreements_verify E ec g c1"
    using session_do_blames [OF assms(1,2) Cons.prems(1) _ first] Cons.prems(2) by simp
  then show ?case using Cons.IH [OF _ _ rest] Cons.prems(2) by (simp add: c)
qed simp

section \<open>A concrete session\<close>

text \<open>A key generator that answers a given number of messages with one message and is
  final then; a session of two participants, of whom we are the first.\<close>

definition token_keygen :: "nat keygen_ops" where
  "token_keygen = \<lparr>
     kg_initialize = (\<lambda>name threshold names. Some (threshold, DkgMsg 0)),
     kg_handle_message = (\<lambda>n m. if 0 < n then (Some [DkgMsg n], n - 1) else (Some [], 0)),
     kg_timed_phase_transition = (\<lambda>n. (Some [], n)),
     kg_is_finalized = (\<lambda>n. n = 0),
     kg_generate_keys = (\<lambda>n. Some ([1, 2], \<lparr>ko_public_key_set = PkSet 5, ko_secret_key_share = SkShare 0\<rparr>))\<rparr>"

lemma token_keygen_progress: "keygen_progress token_keygen (\<lambda>n. n)"
  by (simp add: keygen_progress_def token_keygen_def)

definition token_keypair :: keypair where
  "token_keypair = \<lparr>kp_secret = 0, kp_public = EdPk 1\<rparr>"

definition pair_session :: "nat session" where
  "pair_session = \<lparr>se_elder_candidates = \<lparr>ec_elders = [(1, 10), (2, 20)], ec_prefix = []\<rparr>, se_participant_index = 0,
     se_key_gen = 1, se_timer_token = 0, se_failures = failure_set_default, se_complete = False\<rparr>"

lemma pair_session_inv: "session_inv token_crypto token_keypair pair_session"
  by (simp add: session_inv_def pair_session_def ec_position_def token_keypair_def token_crypto_simps)

lemma pair_session_run:
  "session_process_message token_keygen token_crypto key token_keypair (DkgMsg 3) pair_session 8 =
     Some ([DkgSendMessage [(2, 20)] key (DkgMsg 1),
            DkgHandleOutcome (from_elder_candidates (se_elder_candidates pair_session) (PkSet 5))
              \<lparr>ks_public_key_set = PkSet 5, ks_index = 0, ks_secret_key_share = SkShare 0\<rparr>,
            DkgScheduleTimeout DKG_PROGRESS_INTERVAL 8],
           pair_session\<lparr>se_key_gen := 0, se_timer_token := 8, se_complete := True\<rparr>, 9)"
  by (simp add: session_process_message_def dkg_run_message dkg_run_Cons handled_responses_def handled_session_def
      token_keygen_def session_recipients_def session_check_def pair_session_def token_crypto_simps enumerate_eq_zip Let_def)

section \<open>Properties\<close>

text \<open>C18. A session announces its outcome at most once, and never after it has concluded. Take any
  sequence of processed messages, broadcasts, timeouts and failure observations that returns. It announces one outcome at most, and none
  when the session was complete before; any announcement, of an outcome or of an agreement on failure, leaves it complete, for good.
  Without failure observations there is exactly one announcement when the session turns complete and none otherwise. A failure
  observation can add an agreement on failure, even to a complete session, and at most one each. An outcome is for exactly the elder candidates,
  under our index, with a secret share that belongs to the public key set; an agreement on failure carries votes of distinct
  participants, more than a supermajority of successes leaves room for.\<close>

theorem dkg_outcome_at_most_once:
  assumes "session_inv cr kp s" and "session_run G cr key kp calls s t = Some (cmds, s', t')"
  shows "session_inv cr kp s' \<and>
    length (filter is_outcome cmds) \<le> (if se_complete s then 0 else 1) \<and>
    (se_complete s \<longrightarrow> se_complete s') \<and> (filter is_terminal cmds \<noteq> [] \<longrightarrow> se_complete s') \<and>
    (list_all (\<lambda>call. \<not> is_failure_call call) calls \<longrightarrow>
       length (filter is_terminal cmds) = (if se_complete s' \<and> \<not> se_complete s then 1 else 0)) \<and>
    length (filter is_terminal cmds) \<le> (if se_complete s then 0 else 1) + length (filter is_failure_call calls) \<and>
    list_all (conclusion_ok cr s) cmds"
proof -
  have "list_all (\<lambda>call. \<not> is_failure_call call) calls \<longrightarrow>
      length (filter is_terminal cmds) = (if se_complete s' \<and> \<not> se_complete s then 1 else 0)"
    using session_effectD(4) [OF quiet_run_effect [OF assms]] by blast
  then show ?thesis using session_run_effect [OF assms] unfolding run_effect_def by blast
qed

text \<open>The generator finishes with the message, and then the other participant reports a failure.\<close>

definition late_vote :: dkg_failure_signed where
  "late_vote = \<lparr>df_public_key = EdPk 2, df_signature = EdSig 2\<rparr>"

lemma late_vote_agrees:
  assumes "se_elder_candidates s = se_elder_candidates pair_session" "se_failures s = failure_set_default"
  shows "session_process_failure (token_crypto :: bls_public_key list crypto_ops) key [] late_vote s =
    Some (Some (DkgHandleFailureAgreement \<lparr>dfs_signeds = [late_vote], dfs_non_participants = []\<rparr>),
      s\<lparr>se_complete := True, se_failures := failure_set_default\<rparr>)"
  using assms
  by (simp add: session_process_failure_def pair_session_def bt_contains_def failure_signed_verify_def token_crypto_simps late_vote_def
      failure_set_insert_def failure_set_default_def check_failure_agreement_def failure_set_has_agreement_def
      has_failure_agreement_def usize_sub_def supermajority_def)

theorem dkg_outcome_at_most_once_witness:
  "\<exists>cmds s'. session_run token_keygen (token_crypto :: bls_public_key list crypto_ops) \<lparr>dk_hash = [], dk_generation = 1\<rparr> token_keypair
      [SessionMessage (DkgMsg 3), SessionFailure [] late_vote] pair_session 8 = Some (cmds, s', 9) \<and>
    length (filter is_outcome cmds) = 1 \<and> length (filter is_terminal cmds) = 2 \<and> session_inv (token_crypto :: bls_public_key list crypto_ops) token_keypair s'"
proof -
  let ?key = "\<lparr>dk_hash = [], dk_generation = 1\<rparr>"
  let ?s = "pair_session\<lparr>se_key_gen := 0, se_timer_token := 8, se_complete := True\<rparr>"
  have "session_process_failure (token_crypto :: bls_public_key list crypto_ops) ?key [] late_vote ?s =
      Some (Some (DkgHandleFailureAgreement \<lparr>dfs_signeds = [late_vote], dfs_non_participants = []\<rparr>),
        ?s\<lparr>se_complete := True, se_failures := failure_set_default\<rparr>)"
    by (rule late_vote_agrees) (simp_all add: pair_session_def)
  moreover have "session_process_message token_keygen (token_crypto :: bls_public_key list crypto_ops) ?key token_keypair (DkgMsg 3) pair_session 8 =
      Some ([DkgSendMessage [(2, 20)] ?key (DkgMsg 1),
             DkgHandleOutcome (from_elder_candidates (se_elder_candidates pair_session) (PkSet 5))
               \<lparr>ks_public_key_set = PkSet 5, ks_index = 0, ks_secret_key_share = SkShare 0\<rparr>,
             DkgScheduleTimeout DKG_PROGRESS_INTERVAL 8], ?s, 9)"
    by (rule pair_session_run)
  ultimately obtain cmds s' where run: "session_run token_keygen (token_crypto :: bls_public_key list crypto_ops) ?key token_keypair
      [SessionMessage (DkgMsg 3), SessionFailure [] late_vote] pair_session 8 = Some (cmds, s', 9)"
    and "length (filter is_outcome cmds) = 1" "length (filter is_terminal cmds) = 2"
    by (simp add: session_do_def)
  then show ?thesis using dkg_outcome_at_most_once [OF pair_session_inv run] by blast
qed

text \<open>C19. The agreement on a failure that a session hands over convinces the elders who receive it, provided that all
  votes blame the same set \<open>np\<close> of non-participants: those already counted, those of the observations that are processed, and the
  reports that our own key generator leads to. Then in any sequence of processed messages, broadcasts, timeouts and failure
  observations that returns, whichever of them completes it, each agreement passes the verification of the receivers, who count only
  votes of participants over the recorded set. What we sign must verify under our public key.\<close>

theorem dkg_failure_agreement_verifies:
  assumes "session_inv (ev_crypto E) kp s" and "key = dkg_key_new E (se_elder_candidates s) generation"
    and "genuine_keypair (ev_crypto E) kp"
    and "votes_blame (ev_crypto E) key np (se_failures s)" and "list_all (call_blames np) calls"
    and "reports_blame G (ev_crypto E) (se_elder_candidates s) (se_participant_index s) np"
    and "session_run G (ev_crypto E) key kp calls s t = Some (cmds, s', t')"
  shows "votes_blame (ev_crypto E) key np (se_failures s') \<and>
    (\<forall>fs. DkgHandleFailureAgreement fs \<in> set cmds \<longrightarrow>
       failure_set_verify E fs (se_elder_candidates s) generation = Some True)"
proof -
  have "blame_inv E kp (se_elder_candidates s) generation (se_participant_index s) np s"
    using assms(1,2,4) by (simp add: blame_inv_def)
  from session_run_blames [OF assms(3,6) this assms(5)] assms(2,7) show ?thesis
    by (auto simp: blame_inv_def agreements_verify_def)
qed

theorem dkg_failure_agreement_verifies_witness:
  "\<exists>fs. session_run token_keygen (token_crypto :: bls_public_key list crypto_ops) (dkg_key_new token_env (se_elder_candidates pair_session) 1) token_keypair
      [SessionFailure [] late_vote] pair_session 8 = Some ([DkgHandleFailureAgreement fs], pair_session\<lparr>se_complete := True\<rparr>, 8) \<and>
    failure_set_verify token_env fs (se_elder_candidates pair_session) 1 = Some True"
proof -
  let ?fs = "\<lparr>dfs_signeds = [late_vote], dfs_non_participants = []\<rparr>"
  let ?key = "dkg_key_new token_env (se_elder_candidates pair_session) 1"
  have run: "session_run token_keygen (ev_crypto token_env) ?key token_keypair [SessionFailure [] late_vote] pair_session 8 =
      Some ([DkgHandleFailureAgreement ?fs], pair_session\<lparr>se_complete := True\<rparr>, 8)"
    using late_vote_agrees [of pair_session ?key] by (simp add: session_do_def) (simp add: pair_session_def)
  have "genuine_keypair (ev_crypto token_env) token_keypair" "votes_blame (ev_crypto token_env) ?key [] (se_failures pair_session)"
    "reports_blame token_keygen (ev_crypto token_env) (se_elder_candidates pair_session) (se_participant_index pair_session) []"
    by (simp_all add: genuine_keypair_def token_keypair_def token_crypto_simps votes_blame_def pair_session_def failure_set_default_def
        reports_blame_def token_keygen_def)
  moreover have "session_inv (ev_crypto token_env) token_keypair pair_session" using pair_session_inv by simp
  ultimately have "failure_set_verify token_env ?fs (se_elder_candidates pair_session) 1 = Some True"
    using dkg_failure_agreement_verifies [OF _ refl _ _ _ _ run] by simp
  then show ?thesis using run by (intro exI [of _ ?fs]) simp
qed

end
