(* ===== verification/Dkg_Voter.thy ===== *)
theory Dkg_Voter
  imports Dkg_Session "HOL-Library.AList"
begin

text \<open>
  The sessions of key generation we take part in: \<open>src/dkg/voter.rs\<close>. The \<open>HashMap\<close> of
  sessions is an association list in the order its iterator yields. The random
  \<open>SecretKeySet\<close> of the case with a single participant is an argument, given by its public
  key set and its share number 0.
\<close>

section \<open>Definitions\<close>

record 'g dkg_voter =
  dv_sessions :: "(dkg_key \<times> 'g session) list"
  dv_backlog :: backlog

definition dkg_voter_default :: "(nat \<Rightarrow> nat) \<Rightarrow> 'g dkg_voter" where
  "dkg_voter_default alloc = \<lparr>dv_sessions = [], dv_backlog = backlog_new alloc\<rparr>"

fun process_messages ::
  "'g keygen_ops \<Rightarrow> 'c crypto_ops \<Rightarrow> dkg_key \<Rightarrow> keypair \<Rightarrow> dkg_message list \<Rightarrow> 'g session \<Rightarrow> u64
    \<Rightarrow> (dkg_command list \<times> 'g session \<times> u64) option" where
  "process_messages G cr dkg_key keypair [] s counter = Some ([], s, counter)"
| "process_messages G cr dkg_key keypair (message # messages) s counter =
     Option.bind (session_process_message G cr dkg_key keypair message s counter) (\<lambda>(commands, s1, counter1).
     Option.bind (process_messages G cr dkg_key keypair messages s1 counter1) (\<lambda>(commands', s2, counter2).
     Some (commands @ commands', s2, counter2)))"

definition voter_start ::
  "'g keygen_ops \<Rightarrow> 'c crypto_ops \<Rightarrow> public_key_set \<times> secret_key_share \<Rightarrow> keypair \<Rightarrow> dkg_key \<Rightarrow> elder_candidates
    \<Rightarrow> 'g dkg_voter \<Rightarrow> u64 \<Rightarrow> (dkg_command list \<times> 'g dkg_voter \<times> u64) option" where
  "voter_start G cr secret_key_set keypair dkg_key elder_candidates v counter =
     (if map_of (dv_sessions v) dkg_key \<noteq> None then Some ([], v, counter)
      else let name = ed_name cr (kp_public keypair)
           in case ec_position elder_candidates name of
                None \<Rightarrow> Some ([], v, counter)
              | Some participant_index \<Rightarrow>
                  if length (ec_elders elder_candidates) = 1
                  then let section_auth = from_elder_candidates elder_candidates (fst secret_key_set)
                       in Some ([DkgHandleOutcome section_auth
                            \<lparr>ks_public_key_set = fst secret_key_set, ks_index = participant_index,
                             ks_secret_key_share = snd secret_key_set\<rparr>], v, counter)
                  else let threshold = supermajority (length (ec_elders elder_candidates)) - 1;
                           participants = bt_keys (ec_elders elder_candidates)
                       in case kg_initialize G name threshold participants of
                            None \<Rightarrow> Some ([], v, counter)
                          | Some (key_gen, message) \<Rightarrow>
                              let session0 = \<lparr>se_elder_candidates = elder_candidates,
                                     se_participant_index = participant_index, se_key_gen = key_gen,
                                     se_timer_token = 0, se_failures = failure_set_default, se_complete = False\<rparr>
                              in Option.bind (session_broadcast G cr dkg_key keypair message session0 counter)
                                   (\<lambda>(commands, session1, counter1).
                                 let (replayed, backlog1) = backlog_take (dv_backlog v) dkg_key
                                 in Option.bind (process_messages G cr dkg_key keypair replayed session1 counter1)
                                      (\<lambda>(commands', session2, counter2).
                                    let sessions = AList.update dkg_key session2 (dv_sessions v);
                                        kept = filter (\<lambda>(existing_dkg_key, _).
                                          dk_generation dkg_key \<le> dk_generation existing_dkg_key) sessions
                                    in Some (commands @ commands',
                                         v\<lparr>dv_sessions := kept, dv_backlog := backlog_prune backlog1 dkg_key\<rparr>,
                                         counter2))))"

definition voter_handle_timeout ::
  "'g keygen_ops \<Rightarrow> 'c crypto_ops \<Rightarrow> keypair \<Rightarrow> u64 \<Rightarrow> 'g dkg_voter \<Rightarrow> u64
    \<Rightarrow> (dkg_command list \<times> 'g dkg_voter \<times> u64) option" where
  "voter_handle_timeout G cr keypair timer_token v counter =
     (case find (\<lambda>(_, session0). se_timer_token session0 = timer_token) (dv_sessions v) of
        None \<Rightarrow> Some ([], v, counter)
      | Some (dkg_key, session0) \<Rightarrow>
          Option.bind (session_handle_timeout G cr dkg_key keypair session0 counter) (\<lambda>(commands, session1, counter1).
          Some (commands, v\<lparr>dv_sessions := AList.update dkg_key session1 (dv_sessions v)\<rparr>, counter1)))"

definition voter_process_message ::
  "'g keygen_ops \<Rightarrow> 'c crypto_ops \<Rightarrow> keypair \<Rightarrow> dkg_key \<Rightarrow> dkg_message \<Rightarrow> 'g dkg_voter \<Rightarrow> u64
    \<Rightarrow> (dkg_command list \<times> 'g dkg_voter \<times> u64) option" where
  "voter_process_message G cr keypair dkg_key message v counter =
     (case map_of (dv_sessions v) dkg_key of
        Some session0 \<Rightarrow>
          Option.bind (session_process_message G cr dkg_key keypair message session0 counter)
            (\<lambda>(commands, session1, counter1).
          Some (commands, v\<lparr>dv_sessions := AList.update dkg_key session1 (dv_sessions v)\<rparr>, counter1))
      | None \<Rightarrow> Some ([], v\<lparr>dv_backlog := backlog_push (dv_backlog v) dkg_key message\<rparr>, counter))"

definition voter_process_failure ::
  "'c crypto_ops \<Rightarrow> dkg_key \<Rightarrow> xor_name btree_set \<Rightarrow> dkg_failure_signed \<Rightarrow> 'g dkg_voter
    \<Rightarrow> (dkg_command option \<times> 'g dkg_voter) option" where
  "voter_process_failure cr dkg_key non_participants sg v =
     (case map_of (dv_sessions v) dkg_key of
        None \<Rightarrow> Some (None, v)
      | Some session0 \<Rightarrow>
          Option.bind (session_process_failure cr dkg_key non_participants sg session0) (\<lambda>(command, session1).
          Some (command, v\<lparr>dv_sessions := AList.update dkg_key session1 (dv_sessions v)\<rparr>)))"

section \<open>Invariant\<close>

definition voter_inv :: "'c crypto_ops \<Rightarrow> keypair \<Rightarrow> 'g dkg_voter \<Rightarrow> bool" where
  "voter_inv cr kp v \<longleftrightarrow>
     distinct (map fst (dv_sessions v)) \<and> backlog_inv (dv_backlog v) \<and>
     (\<forall>(k, s) \<in> set (dv_sessions v). session_inv cr kp s)"

lemma voter_inv_default:
  assumes "100 \<le> alloc 100"
  shows "voter_inv cr kp (dkg_voter_default alloc)"
  using assms
  by (simp add: voter_inv_def dkg_voter_default_def backlog_new_def backlog_inv_def vd_with_capacity_def BACKLOG_CAPACITY_def)

lemma voter_inv_session: "voter_inv cr kp v \<Longrightarrow> map_of (dv_sessions v) k = Some s \<Longrightarrow> session_inv cr kp s"
  unfolding voter_inv_def by (auto dest: map_of_SomeD)

lemma set_alist_update: "set (AList.update k x m) \<subseteq> insert (k, x) (set m)"
  by (induction m) auto

lemma voter_inv_update:
  assumes "voter_inv cr kp v" "session_inv cr kp s"
  shows "voter_inv cr kp (v\<lparr>dv_sessions := AList.update k s (dv_sessions v)\<rparr>)"
  using assms set_alist_update [of k s "dv_sessions v"] distinct_update [of "dv_sessions v" k s]
  unfolding voter_inv_def by auto

lemma voter_inv_filter:
  assumes "voter_inv cr kp v" "backlog_inv b"
  shows "voter_inv cr kp (v\<lparr>dv_sessions := filter P (dv_sessions v), dv_backlog := b\<rparr>)"
  using assms distinct_map_filter [of fst "dv_sessions v" P] unfolding voter_inv_def by auto

lemma process_messages_return:
  assumes "keygen_progress G rank" "session_inv cr kp s"
  shows "\<exists>c s' t'. process_messages G cr key kp ms s t = Some (c, s', t') \<and> session_inv cr kp s'"
  using assms(2)
proof (induction ms arbitrary: s t)
  case (Cons m ms)
  obtain c1 s1 t1 where r1: "session_process_message G cr key kp m s t = Some (c1, s1, t1)" and i1: "session_inv cr kp s1"
    using process_message_returns [OF assms(1) Cons.prems] unfolding session_process_message_def by blast
  obtain c2 s2 t2 where r2: "process_messages G cr key kp ms s1 t1 = Some (c2, s2, t2)" and i2: "session_inv cr kp s2"
    using Cons.IH [OF i1] by blast
  show ?case using r1 r2 i2 by simp
qed simp

lemma voter_start_returns:
  assumes kg: "keygen_progress G rank" and inv: "voter_inv cr kp v"
  shows "\<exists>c v' t'. voter_start G cr draw kp key ec v t = Some (c, v', t') \<and> voter_inv cr kp v'"
proof -
  consider (idle) "map_of (dv_sessions v) key \<noteq> None \<or> ec_position ec (ed_to_bytes cr (kp_public kp)) = None \<or>
        length (ec_elders ec) = 1 \<or>
        kg_initialize G (ed_to_bytes cr (kp_public kp)) (supermajority (length (ec_elders ec)) - 1) (bt_keys (ec_elders ec)) = None"
    | (go) i g m where "map_of (dv_sessions v) key = None" "ec_position ec (ed_to_bytes cr (kp_public kp)) = Some i"
        "length (ec_elders ec) \<noteq> 1"
        "kg_initialize G (ed_to_bytes cr (kp_public kp)) (supermajority (length (ec_elders ec)) - 1) (bt_keys (ec_elders ec)) = Some (g, m)"
    by force
  then show ?thesis
  proof cases
    case idle
    then show ?thesis using inv by (auto simp: voter_start_def Let_def ed_name_def split: option.split)
  next
    case (go i g m)
    let ?s = "\<lparr>se_elder_candidates = ec, se_participant_index = i, se_key_gen = g, se_timer_token = 0,
      se_failures = failure_set_default, se_complete = False\<rparr>"
    have s: "session_inv cr kp ?s" using go(2) by (simp add: session_inv_def)
    obtain c1 s1 t1 where r1: "session_broadcast G cr key kp m ?s t = Some (c1, s1, t1)" and i1: "session_inv cr kp s1"
      using broadcasts_return [OF kg s] unfolding session_broadcast_def by blast
    obtain c2 s2 t2 where r2: "process_messages G cr key kp (fst (backlog_take (dv_backlog v) key)) s1 t1 = Some (c2, s2, t2)"
      and i2: "session_inv cr kp s2" using process_messages_return [OF kg i1] by blast
    have b: "backlog_inv (backlog_prune (snd (backlog_take (dv_backlog v) key)) key)"
      using inv by (simp add: voter_inv_def backlog_inv_take backlog_inv_prune)
    show ?thesis
      using go r1 r2 voter_inv_filter [OF voter_inv_update [OF inv i2, of key] b,
          of "\<lambda>(k, _). dk_generation key \<le> dk_generation k"]
      by (simp add: voter_start_def ed_name_def Let_def split_beta)
  qed
qed

lemma findSomeD: "find P xs = Some x \<Longrightarrow> x \<in> set xs \<and> P x"
  by (induction xs) (auto split: if_splits)

text \<open>A voter without sessions receives messages.\<close>

fun receive_messages ::
  "'g keygen_ops \<Rightarrow> 'c crypto_ops \<Rightarrow> keypair \<Rightarrow> (dkg_key \<times> dkg_message) list \<Rightarrow> 'g dkg_voter \<Rightarrow> u64
    \<Rightarrow> ('g dkg_voter \<times> u64) option" where
  "receive_messages G cr kp [] v t = Some (v, t)"
| "receive_messages G cr kp ((k, m) # ms) v t =
     Option.bind (voter_process_message G cr kp k m v t) (\<lambda>(_, v', t'). receive_messages G cr kp ms v' t')"

lemma receive_messages_backlog:
  "dv_sessions v = [] \<Longrightarrow> receive_messages G cr kp ms v t =
    Some (v\<lparr>dv_backlog := foldl (\<lambda>b (k, m). backlog_push b k m) (dv_backlog v) ms\<rparr>, t)"
  by (induction ms arbitrary: v) (auto simp: voter_process_message_def)

lemma backlog_inv_pushes: "backlog_inv b \<Longrightarrow> backlog_inv (foldl (\<lambda>b (k, m). backlog_push b k m) b ms)"
  by (induction ms arbitrary: b) (auto simp: backlog_inv_push)

text \<open>Every operation of the voter returns, for a key generator that answers only
  finitely many messages: the mutual recursion of a session that broadcasts its responses to
  itself ends, and the agreement checks do not underflow. Every operation keeps the sessions
  well-formed: one per key, in each of which we hold the index of our own name and the failure
  votes are by distinct participants.\<close>

lemma voter_returns:
  assumes "keygen_progress G rank" and "voter_inv cr kp v"
  shows "(\<exists>c v' t'. voter_start G cr draw kp key ec v t = Some (c, v', t') \<and> voter_inv cr kp v') \<and>
    (\<exists>c v' t'. voter_process_message G cr kp key m v t = Some (c, v', t') \<and> voter_inv cr kp v') \<and>
    (\<exists>c v' t'. voter_handle_timeout G cr kp token v t = Some (c, v', t') \<and> voter_inv cr kp v') \<and>
    (\<exists>c v'. voter_process_failure cr key np sg v = Some (c, v') \<and> voter_inv cr kp v')"
proof (intro conjI)
  show "\<exists>c v' t'. voter_start G cr draw kp key ec v t = Some (c, v', t') \<and> voter_inv cr kp v'"
    by (rule voter_start_returns [OF assms])
  show "\<exists>c v' t'. voter_process_message G cr kp key m v t = Some (c, v', t') \<and> voter_inv cr kp v'"
  proof (cases "map_of (dv_sessions v) key")
    case None
    then show ?thesis using assms(2) by (simp add: voter_process_message_def voter_inv_def backlog_inv_push)
  next
    case (Some s)
    obtain c s' t' where "session_process_message G cr key kp m s t = Some (c, s', t')" "session_inv cr kp s'"
      using process_message_returns [OF assms(1) voter_inv_session [OF assms(2) Some]]
      unfolding session_process_message_def by blast
    then show ?thesis using Some voter_inv_update [OF assms(2)] by (simp add: voter_process_message_def)
  qed
  show "\<exists>c v' t'. voter_handle_timeout G cr kp token v t = Some (c, v', t') \<and> voter_inv cr kp v'"
  proof (cases "find (\<lambda>(_, s). se_timer_token s = token) (dv_sessions v)")
    case None
    then show ?thesis using assms(2) by (simp add: voter_handle_timeout_def)
  next
    case (Some ks)
    obtain k s where ks: "ks = (k, s)" by (cases ks)
    have "session_inv cr kp s"
      using assms(2) findSomeD [OF Some] unfolding voter_inv_def by (auto simp: ks)
    then obtain c s' t' where "session_handle_timeout G cr k kp s t = Some (c, s', t')" "session_inv cr kp s'"
      using handle_timeout_returns [OF assms(1)] by blast
    then show ?thesis using Some voter_inv_update [OF assms(2)] by (simp add: ks voter_handle_timeout_def)
  qed
  show "\<exists>c v'. voter_process_failure cr key np sg v = Some (c, v') \<and> voter_inv cr kp v'"
  proof (cases "map_of (dv_sessions v) key")
    case None
    then show ?thesis using assms(2) by (simp add: voter_process_failure_def)
  next
    case (Some s)
    obtain c s' where "session_process_failure cr key np sg s = Some (c, s')" "session_inv cr kp s'"
      using session_process_failure_returns [OF voter_inv_session [OF assms(2) Some]] by blast
    then show ?thesis using Some voter_inv_update [OF assms(2)] by (simp add: voter_process_failure_def)
  qed
qed

section \<open>What the calls of the voter keep\<close>

text \<open>What the voter announces: an outcome is for candidates among whom we are, under our index, with a share that belongs
  to the key unless we are the only one, whose key is drawn; an agreement on failure carries enough votes of distinct
  participants.\<close>

fun announcement_ok :: "'c crypto_ops \<Rightarrow> keypair \<Rightarrow> dkg_command \<Rightarrow> bool" where
  "announcement_ok cr kp (DkgHandleOutcome sa ks) \<longleftrightarrow>
     (\<exists>ec. sa = from_elder_candidates ec (ks_public_key_set ks) \<and> ec_position ec (ed_name cr (kp_public kp)) = Some (ks_index ks) \<and>
        (length (ec_elders ec) = 1 \<or>
         pks_public_key_share cr (ks_public_key_set ks) (ks_index ks) = sks_public_key_share cr (ks_secret_key_share ks)))"
| "announcement_ok cr kp (DkgHandleFailureAgreement fs) \<longleftrightarrow>
     (\<exists>ec. failure_set_inv cr ec fs \<and> failure_set_has_agreement fs ec = Some True)"
| "announcement_ok cr kp _ \<longleftrightarrow> True"

lemma conclusion_announcement: "session_inv cr kp s \<Longrightarrow> conclusion_ok cr s c \<Longrightarrow> announcement_ok cr kp c"
  by (cases c) (auto simp: session_inv_def ed_name_def)

lemma session_effect_announcements:
  "session_inv cr kp s \<Longrightarrow> session_effect cr kp s c s' \<Longrightarrow> session_inv cr kp s' \<and> list_all (announcement_ok cr kp) c"
  by (auto simp: session_effect_def list_all_iff intro: conclusion_announcement)

lemma process_messages_effect:
  assumes "session_inv cr kp s" "process_messages G cr key kp ms s t = Some (c, s', t')"
  shows "session_effect cr kp s c s'"
  using assms
proof (induction ms arbitrary: s t c)
  case Nil
  then show ?case using session_effect_refl [OF Nil.prems(1)] by simp
next
  case (Cons m ms)
  obtain c1 s1 t1 c2 where first: "session_process_message G cr key kp m s t = Some (c1, s1, t1)"
    and rest: "process_messages G cr key kp ms s1 t1 = Some (c2, s', t')" and c: "c = c1 @ c2"
    using Cons.prems(2) by (auto simp: bind_eq_Some_conv)
  have e: "session_effect cr kp s c1 s1"
    using effect.dkg_run_related [OF first [unfolded session_process_message_def] Cons.prems(1)] by simp
  from session_effect_trans [OF e Cons.IH [OF session_effectD(1) [OF e] rest]] show ?case by (simp add: c)
qed

lemma voter_start_keeps:
  assumes inv: "voter_inv cr kp v" and run: "voter_start G cr draw kp key ec v t = Some (c, v', t')"
  shows "voter_inv cr kp v' \<and> list_all (announcement_ok cr kp) c"
proof (cases "map_of (dv_sessions v) key \<noteq> None \<or> ec_position ec (ed_name cr (kp_public kp)) = None \<or> length (ec_elders ec) = 1 \<or>
    kg_initialize G (ed_name cr (kp_public kp)) (supermajority (length (ec_elders ec)) - 1) (bt_keys (ec_elders ec)) = None")
  case True
  then show ?thesis using inv run by (auto simp: voter_start_def Let_def split: option.splits if_splits)
next
  case False
  then obtain i g m where go: "map_of (dv_sessions v) key = None" "ec_position ec (ed_name cr (kp_public kp)) = Some i"
    "length (ec_elders ec) \<noteq> 1"
    "kg_initialize G (ed_name cr (kp_public kp)) (supermajority (length (ec_elders ec)) - 1) (bt_keys (ec_elders ec)) = Some (g, m)"
    by auto
  let ?s = "\<lparr>se_elder_candidates = ec, se_participant_index = i, se_key_gen = g, se_timer_token = 0,
    se_failures = failure_set_default, se_complete = False\<rparr>"
  have s: "session_inv cr kp ?s" using go(2) by (simp add: session_inv_def ed_name_def)
  obtain c1 s1 t1 c2 s2 where r1: "session_broadcast G cr key kp m ?s t = Some (c1, s1, t1)"
    and r2: "process_messages G cr key kp (fst (backlog_take (dv_backlog v) key)) s1 t1 = Some (c2, s2, t')" and c: "c = c1 @ c2"
    and v': "v' = v\<lparr>dv_sessions := filter (\<lambda>(k, _). dk_generation key \<le> dk_generation k) (AList.update key s2 (dv_sessions v)),
      dv_backlog := backlog_prune (snd (backlog_take (dv_backlog v) key)) key\<rparr>"
    using run go by (auto simp: voter_start_def Let_def split_beta bind_eq_Some_conv)
  have e1: "session_effect cr kp ?s c1 s1"
    using effect.dkg_run_related [OF r1 [unfolded session_broadcast_def] s] by simp
  note e = session_effect_announcements [OF s session_effect_trans [OF e1 process_messages_effect [OF session_effectD(1) [OF e1] r2]]]
  have "backlog_inv (backlog_prune (snd (backlog_take (dv_backlog v) key)) key)"
    using inv by (simp add: voter_inv_def backlog_inv_take backlog_inv_prune)
  from voter_inv_filter [OF voter_inv_update [OF inv conjunct1 [OF e], of key] this, of "\<lambda>(k, _). dk_generation key \<le> dk_generation k"] e
  show ?thesis by (simp add: v' c)
qed

lemma voter_process_message_keeps:
  assumes "voter_inv cr kp v" "voter_process_message G cr kp key m v t = Some (c, v', t')"
  shows "voter_inv cr kp v' \<and> list_all (announcement_ok cr kp) c"
proof (cases "map_of (dv_sessions v) key")
  case None
  then show ?thesis using assms by (auto simp: voter_process_message_def voter_inv_def backlog_inv_push)
next
  case (Some s)
  then obtain s' where r: "session_process_message G cr key kp m s t = Some (c, s', t')"
    and v': "v' = v\<lparr>dv_sessions := AList.update key s' (dv_sessions v)\<rparr>"
    using assms(2) by (auto simp: voter_process_message_def bind_eq_Some_conv)
  note inv = voter_inv_session [OF assms(1) Some]
  have "session_effect cr kp s c s'" using effect.dkg_run_related [OF r [unfolded session_process_message_def] inv] by simp
  from session_effect_announcements [OF inv this] show ?thesis using voter_inv_update [OF assms(1)] by (simp add: v')
qed

lemma voter_handle_timeout_keeps:
  assumes "voter_inv cr kp v" "voter_handle_timeout G cr kp token v t = Some (c, v', t')"
  shows "voter_inv cr kp v' \<and> list_all (announcement_ok cr kp) c"
proof (cases "find (\<lambda>(_, s). se_timer_token s = token) (dv_sessions v)")
  case None
  then show ?thesis using assms by (simp add: voter_handle_timeout_def)
next
  case (Some ks)
  obtain k s where ks: "ks = (k, s)" by (cases ks)
  then obtain s' where r: "session_handle_timeout G cr k kp s t = Some (c, s', t')"
    and v': "v' = v\<lparr>dv_sessions := AList.update k s' (dv_sessions v)\<rparr>"
    using assms(2) Some by (auto simp: voter_handle_timeout_def bind_eq_Some_conv)
  have inv: "session_inv cr kp s" using assms(1) findSomeD [OF Some] unfolding voter_inv_def by (auto simp: ks)
  from session_effect_announcements [OF inv effect.timeout_related [OF r inv]] show ?thesis
    using voter_inv_update [OF assms(1)] by (simp add: v')
qed

lemma voter_process_failure_keeps:
  assumes "voter_inv cr kp v"
  shows "\<exists>c v'. voter_process_failure cr key np sg v = Some (c, v') \<and> voter_inv cr kp v' \<and>
    list_all (announcement_ok cr kp) (case c of None \<Rightarrow> [] | Some c \<Rightarrow> [c])"
proof (cases "map_of (dv_sessions v) key")
  case None
  then show ?thesis using assms by (simp add: voter_process_failure_def)
next
  case (Some s)
  note inv = voter_inv_session [OF assms Some]
  obtain c s' where "session_process_failure cr key np sg s = Some (c, s')" "session_inv cr kp s'"
    "list_all (conclusion_ok cr s) (case c of None \<Rightarrow> [] | Some c \<Rightarrow> [c])"
    using session_process_failure_returns [OF inv] by blast
  then show ?thesis
    using Some voter_inv_update [OF assms] conclusion_announcement [OF inv]
    by (auto simp: voter_process_failure_def split: option.splits)
qed

section \<open>Properties\<close>

text \<open>Messages that arrive before their session are not lost: as long as the backlog has
  room, starting the session replays exactly those for its key, each once and in the order in
  which they arrived, right after our own first message; those for other sessions stay.\<close>

theorem dkg_backlog_replayed:
  assumes "100 \<le> alloc 100" and "length early \<le> 100"
    and "receive_messages G cr kp early (dkg_voter_default alloc) t = Some (v, t')"
  shows "dv_sessions v = [] \<and>
    fst (backlog_take (dv_backlog v) key) = map snd (filter (\<lambda>p. fst p = key) early) \<and>
    backlog_items (snd (backlog_take (dv_backlog v) key)) = filter (\<lambda>p. fst p \<noteq> key) early"
proof -
  have new: "backlog_items (backlog_new alloc) = []" "100 \<le> vd_capacity (bl_queue (backlog_new alloc))"
    using assms(1) by (simp_all add: backlog_new_def vd_with_capacity_def BACKLOG_CAPACITY_def)
  have v: "v = \<lparr>dv_sessions = [], dv_backlog = foldl (\<lambda>b (k, m). backlog_push b k m) (backlog_new alloc) early\<rparr>"
    using assms(3) by (simp add: receive_messages_backlog dkg_voter_default_def)
  have "backlog_inv (dv_backlog v)" unfolding v using backlog_inv_pushes [of "backlog_new alloc" early] new
    by (simp add: backlog_inv_def)
  moreover have "backlog_items (dv_backlog v) = early"
    unfolding v using recent_backlog.pushes_keep_recent [of "backlog_new alloc" early] new assms(2) by simp
  ultimately show ?thesis by (simp add: backlog_take_eq) (simp add: v)
qed

theorem dkg_backlog_replayed_witness:
  "\<exists>v. receive_messages token_keygen (token_crypto :: unit crypto_ops) token_keypair
      [(\<lparr>dk_hash = [], dk_generation = 1\<rparr>, DkgMsg 3), (\<lparr>dk_hash = [], dk_generation = 2\<rparr>, DkgMsg 4)]
      (dkg_voter_default (\<lambda>n. n)) 0 = Some (v, 0) \<and>
    fst (backlog_take (dv_backlog v) \<lparr>dk_hash = [], dk_generation = 2\<rparr>) = [DkgMsg 4]"
proof -
  let ?early = "[(\<lparr>dk_hash = [], dk_generation = 1\<rparr>, DkgMsg 3), (\<lparr>dk_hash = [], dk_generation = 2\<rparr>, DkgMsg 4)]"
  obtain v where v: "receive_messages token_keygen (token_crypto :: unit crypto_ops) token_keypair ?early (dkg_voter_default (\<lambda>n. n)) 0 = Some (v, 0)"
    using receive_messages_backlog [of "dkg_voter_default (\<lambda>n. n)" token_keygen "token_crypto :: unit crypto_ops" token_keypair ?early 0]
    by (auto simp: dkg_voter_default_def)
  have "fst (backlog_take (dv_backlog v) \<lparr>dk_hash = [], dk_generation = 2\<rparr>) = [DkgMsg 4]"
    using dkg_backlog_replayed [OF _ _ v, of "\<lparr>dk_hash = [], dk_generation = 2\<rparr>"] by simp
  with v show ?thesis by blast
qed

end
