(* ===== verification/Section_Peers.thy ===== *)
theory Section_Peers
  imports Section_Authority Quorum Stand_Ins
begin

text \<open>
  The members of our section and the choice of the next elders:
  \<open>src/section/section_peers.rs\<close>. The members are a \<open>BTreeMap\<close> from names to signed
  membership states.
\<close>

section \<open>Operations\<close>

definition peers_all :: "section_peers \<Rightarrow> node_state list" where
  "peers_all m = map ss_value (bt_values m)"

definition peers_joined :: "section_peers \<Rightarrow> node_state list" where
  "peers_joined m = filter (\<lambda>member. ns_state member = Joined) (map ss_value (bt_values m))"

definition peers_mature :: "section_peers \<Rightarrow> peer list" where
  "peers_mature m = map ns_peer (filter is_mature (peers_joined m))"

definition peers_get :: "section_peers \<Rightarrow> xor_name \<Rightarrow> node_state option" where
  "peers_get m name = map_option ss_value (bt_get m name)"

definition get_section_signed :: "section_peers \<Rightarrow> xor_name \<Rightarrow> node_state section_signed option" where
  "get_section_signed m name = bt_get m name"

definition is_elder_of :: "node_state \<Rightarrow> section_auth \<Rightarrow> bool" where
  "is_elder_of info current_elders = contains_elder current_elders (peer_name (ns_peer info))"

definition is_active :: "node_state \<Rightarrow> section_auth \<Rightarrow> bool" where
  "is_active info current_elders =
     (case ns_state info of
        Joined \<Rightarrow> True
      | Relocated _ \<Rightarrow> is_elder_of info current_elders
      | Left \<Rightarrow> False)"

definition cmp_membership_state :: "membership_state \<Rightarrow> membership_state \<Rightarrow> ordering" where
  "cmp_membership_state lhs rhs =
     (case (lhs, rhs) of
        (Joined, Joined) \<Rightarrow> Equal
      | (Relocated _, Relocated _) \<Rightarrow> Equal
      | (Joined, Relocated _) \<Rightarrow> Less
      | (_, Left) \<Rightarrow> Less
      | (Relocated _, Joined) \<Rightarrow> Greater
      | (Left, _) \<Rightarrow> Greater)"

definition cmp_elder_candidates ::
  "'c crypto_ops \<Rightarrow> section_auth \<Rightarrow> node_state section_signed \<Rightarrow> node_state section_signed \<Rightarrow> ordering" where
  "cmp_elder_candidates cr current_elders lhs rhs =
     then_with
      (then_with
        (then_with (cmp_membership_state (ns_state (ss_value lhs)) (ns_state (ss_value rhs)))
          (ord_cmp (peer_age (ns_peer (ss_value rhs))) (peer_age (ns_peer (ss_value lhs)))))
        (case (is_elder_of (ss_value lhs) current_elders, is_elder_of (ss_value rhs) current_elders) of
           (True, False) \<Rightarrow> Less
         | (False, True) \<Rightarrow> Greater
         | _ \<Rightarrow> Equal))
      (sig_cmp cr (sg_signature (ss_signed lhs)) (sg_signature (ss_signed rhs)))"

definition pick_elder_candidates ::
  "'c crypto_ops \<Rightarrow> nat \<Rightarrow> section_auth \<Rightarrow> node_state section_signed list \<Rightarrow> peer list" where
  "pick_elder_candidates cr elder_size current_elders members =
     take elder_size
       (map (\<lambda>info. ns_peer (ss_value info)) (sort_by (cmp_elder_candidates cr current_elders) members))"

definition peers_elder_candidates ::
  "'c crypto_ops \<Rightarrow> section_peers \<Rightarrow> nat \<Rightarrow> section_auth \<Rightarrow> peer list" where
  "peers_elder_candidates cr m elder_size current_elders =
     pick_elder_candidates cr elder_size current_elders
       (filter (\<lambda>info. peer_reachable (ns_peer (ss_value info)))
         (filter (\<lambda>info. is_active (ss_value info) current_elders) (bt_values m)))"

definition elder_candidates_matching_prefix ::
  "xor_ops \<Rightarrow> 'c crypto_ops \<Rightarrow> section_peers \<Rightarrow> pfx \<Rightarrow> nat \<Rightarrow> section_auth \<Rightarrow> peer list" where
  "elder_candidates_matching_prefix X cr m p elder_size current_elders =
     pick_elder_candidates cr elder_size current_elders
       (filter (\<lambda>info. ns_state (ss_value info) = Joined \<and>
                  pf_matches X p (peer_name (ns_peer (ss_value info))) \<and>
                  peer_reachable (ns_peer (ss_value info))) (bt_values m))"

definition is_joined :: "section_peers \<Rightarrow> xor_name \<Rightarrow> bool" where
  "is_joined m name = (case bt_get m name of None \<Rightarrow> False | Some info \<Rightarrow> ns_state (ss_value info) = Joined)"

definition peers_update :: "section_peers \<Rightarrow> node_state section_signed \<Rightarrow> bool \<times> section_peers" where
  "peers_update m new_info =
     (let name = peer_name (ns_peer (ss_value new_info))
      in case bt_get m name of
           None \<Rightarrow> (True, bt_insert name new_info m)
         | Some old \<Rightarrow>
             if (case (ns_state (ss_value old), ns_state (ss_value new_info)) of
                   (Joined, Joined) \<Rightarrow>
                     peer_age (ns_peer (ss_value old)) < peer_age (ns_peer (ss_value new_info))
                 | (Joined, Left) \<Rightarrow> True
                 | (Joined, Relocated _) \<Rightarrow> True
                 | (Relocated _, Left) \<Rightarrow> True
                 | _ \<Rightarrow> False)
             then (True, bt_insert name new_info m)
             else (False, m))"

definition prune_not_matching :: "xor_ops \<Rightarrow> pfx \<Rightarrow> section_peers \<Rightarrow> section_peers" where
  "prune_not_matching X p m = bt_collect (filter (\<lambda>(name, _). pf_matches X p name) m)"

section \<open>Invariant and order of membership states\<close>

text \<open>Every member is stored under its own name.\<close>

definition peers_inv :: "section_peers \<Rightarrow> bool" where
  "peers_inv m \<longleftrightarrow> bt_inv m \<and> (\<forall>(name, info) \<in> set m. peer_name (ns_peer (ss_value info)) = name)"

text \<open>Membership only moves forward: joined, then relocated, then left.\<close>

fun state_rank :: "membership_state \<Rightarrow> nat" where
  "state_rank Joined = 0"
| "state_rank (Relocated _) = 1"
| "state_rank Left = 2"

definition member_rank :: "section_peers \<Rightarrow> xor_name \<Rightarrow> nat option" where
  "member_rank m name = map_option (\<lambda>info. state_rank (ns_state (ss_value info))) (bt_get m name)"

definition update_all :: "section_peers \<Rightarrow> node_state section_signed list \<Rightarrow> section_peers" where
  "update_all m infos = foldl (\<lambda>m info. snd (peers_update m info)) m infos"

lemma peers_inv_bt [simp]: "peers_inv m \<Longrightarrow> bt_inv m"
  by (simp add: peers_inv_def)

lemma peers_inv_name: "peers_inv m \<Longrightarrow> map_of m k = Some info \<Longrightarrow> peer_name (ns_peer (ss_value info)) = k"
  by (auto simp: peers_inv_def dest: map_of_SomeD)

lemma peers_update_eq:
  assumes "peers_inv m"
  shows "peers_update m info =
    (let name = peer_name (ns_peer (ss_value info)) in
     if (case member_rank m name of None \<Rightarrow> True | Some r \<Rightarrow> r < state_rank (ns_state (ss_value info)))
     then (True, bt_insert name info m) else (False, m))"
  using peers_inv_name [OF assms]
  by (auto simp: peers_update_def Let_def member_rank_def peer_age_def split: option.split membership_state.split)

lemma peers_update_inv [simp]: "peers_inv m \<Longrightarrow> peers_inv (snd (peers_update m info))"
  by (auto simp: peers_update_eq Let_def peers_inv_def set_bt_insert)

lemma update_all_inv [simp]: "peers_inv m \<Longrightarrow> peers_inv (update_all m infos)"
  by (induction infos arbitrary: m) (simp_all add: update_all_def)

lemma member_rank_update:
  assumes "peers_inv m"
  shows "member_rank (snd (peers_update m info)) =
    (member_rank m)(peer_name (ns_peer (ss_value info)) \<mapsto>
      (case member_rank m (peer_name (ns_peer (ss_value info))) of
         None \<Rightarrow> state_rank (ns_state (ss_value info))
       | Some r \<Rightarrow> max r (state_rank (ns_state (ss_value info)))))"
  using assms
  by (auto simp: peers_update_eq Let_def member_rank_def fun_eq_iff split: option.splits)

lemma prune_not_matching_get:
  "bt_inv m \<Longrightarrow> bt_get (prune_not_matching X p m) name = (if pf_matches X p name then bt_get m name else None)"
  by (simp add: prune_not_matching_def bt_collect_id case_prod_unfold map_of_filter_key)

lemma prune_not_matching_set:
  "bt_inv m \<Longrightarrow> set (prune_not_matching X p m) = {e \<in> set m. pf_matches X p (fst e)}"
  by (auto simp: prune_not_matching_def bt_collect_id)

lemma prune_not_matching_inv [simp]: "peers_inv m \<Longrightarrow> peers_inv (prune_not_matching X p m)"
  by (auto simp: peers_inv_def prune_not_matching_set) (simp add: prune_not_matching_def)

section \<open>The order of elder candidates\<close>

text \<open>On members that have not left, comparing candidates is a lexicographic comparison of
  keys: membership rank, age (older first), being an elder already, signature. (Two members
  that have left compare as \<open>Less\<close> both ways, but none is ever a candidate.)\<close>

definition candidate_cmp ::
  "'c crypto_ops \<Rightarrow> section_auth \<Rightarrow> node_state section_signed \<Rightarrow> node_state section_signed \<Rightarrow> ordering" where
  "candidate_cmp cr sap lhs rhs =
     then_with
      (then_with
        (then_with (ord_cmp (state_rank (ns_state (ss_value lhs))) (state_rank (ns_state (ss_value rhs))))
          (ord_cmp (peer_age (ns_peer (ss_value rhs))) (peer_age (ns_peer (ss_value lhs)))))
        (ord_cmp (\<not> is_elder_of (ss_value lhs) sap) (\<not> is_elder_of (ss_value rhs) sap)))
      (sig_cmp cr (sg_signature (ss_signed lhs)) (sg_signature (ss_signed rhs)))"

lemma total_candidate_cmp:
  assumes "total_cmp (sig_cmp cr)"
  shows "total_cmp (candidate_cmp cr sap)"
  unfolding candidate_cmp_def
  by (intro total_cmp_then_with total_cmp_key [OF ord.total_cmp_axioms, of "\<lambda>i. state_rank (ns_state (ss_value i))"]
      total_cmp_key [OF total_cmp_flip [OF ord.total_cmp_axioms], of "\<lambda>i. peer_age (ns_peer (ss_value i))"]
      total_cmp_key [OF ord.total_cmp_axioms, of "\<lambda>i. \<not> is_elder_of (ss_value i) sap"]
      total_cmp_key [OF assms, of "\<lambda>i. sg_signature (ss_signed i)"])

lemma cmp_elder_candidates_eq:
  assumes "ns_state (ss_value lhs) \<noteq> Left" "ns_state (ss_value rhs) \<noteq> Left"
  shows "cmp_elder_candidates cr sap lhs rhs = candidate_cmp cr sap lhs rhs"
proof -
  have "cmp_membership_state (ns_state (ss_value lhs)) (ns_state (ss_value rhs)) =
      ord_cmp (state_rank (ns_state (ss_value lhs))) (state_rank (ns_state (ss_value rhs)))"
    using assms by (auto simp: cmp_membership_state_def ord_cmp_def split: membership_state.splits)
  moreover have "(case (is_elder_of (ss_value lhs) sap, is_elder_of (ss_value rhs) sap) of
      (True, False) \<Rightarrow> Less | (False, True) \<Rightarrow> Greater | _ \<Rightarrow> Equal) =
      ord_cmp (\<not> is_elder_of (ss_value lhs) sap) (\<not> is_elder_of (ss_value rhs) sap)"
    by (auto simp: ord_cmp_def split: bool.split)
  ultimately show ?thesis by (simp add: cmp_elder_candidates_def candidate_cmp_def)
qed

lemma insort_by_cong:
  "(\<And>y. y \<in> set ys \<Longrightarrow> f x y = g x y) \<Longrightarrow> insort_by f x ys = insort_by g x ys"
  by (induction ys) auto

lemma sort_by_cong:
  "(\<And>x y. x \<in> set ys \<Longrightarrow> y \<in> set ys \<Longrightarrow> f x y = g x y) \<Longrightarrow> sort_by f ys = sort_by g ys"
  by (induction ys) (auto intro!: insort_by_cong)

lemma sort_candidates:
  assumes "\<And>i. i \<in> set ms \<Longrightarrow> ns_state (ss_value i) \<noteq> Left"
  shows "sort_by (cmp_elder_candidates cr sap) ms = sort_by (candidate_cmp cr sap) ms"
  by (rule sort_by_cong) (simp add: assms cmp_elder_candidates_eq)

text \<open>The selected members themselves, of which the code returns the peers.\<close>

definition picked ::
  "'c crypto_ops \<Rightarrow> nat \<Rightarrow> section_auth \<Rightarrow> node_state section_signed list \<Rightarrow> node_state section_signed list" where
  "picked cr n sap ms = take n (sort_by (cmp_elder_candidates cr sap) ms)"

definition left_out ::
  "'c crypto_ops \<Rightarrow> nat \<Rightarrow> section_auth \<Rightarrow> node_state section_signed list \<Rightarrow> node_state section_signed list" where
  "left_out cr n sap ms = drop n (sort_by (cmp_elder_candidates cr sap) ms)"

lemma pick_picked: "pick_elder_candidates cr n sap ms = map (\<lambda>i. ns_peer (ss_value i)) (picked cr n sap ms)"
  by (simp add: pick_elder_candidates_def picked_def take_map)

lemma picked_left_out: "mset (picked cr n sap ms) + mset (left_out cr n sap ms) = mset ms"
  by (metis append_take_drop_id left_out_def mset_append mset_sort_by picked_def)

lemma length_picked: "length (picked cr n sap ms) = min n (length ms)"
  by (simp add: picked_def min.commute)

lemma set_picked: "set (picked cr n sap ms) \<subseteq> set ms"
  by (metis picked_def set_sort_by set_take_subset)

lemma picked_best:
  assumes "total_cmp (sig_cmp cr)" "\<And>i. i \<in> set ms \<Longrightarrow> ns_state (ss_value i) \<noteq> Left"
    and "i \<in> set (picked cr n sap ms)" "j \<in> set (left_out cr n sap ms)"
  shows "candidate_cmp cr sap i j \<noteq> Greater"
proof (rule total_cmp.sort_by_best [OF total_candidate_cmp [OF assms(1)]])
  show "i \<in> set (take n (sort_by (candidate_cmp cr sap) ms))" "j \<in> set (drop n (sort_by (candidate_cmp cr sap) ms))"
    using assms(3,4) sort_candidates [of ms cr sap, OF assms(2)] by (simp_all add: picked_def left_out_def)
qed

definition at_least_as_good :: "section_auth \<Rightarrow> node_state section_signed \<Rightarrow> node_state section_signed \<Rightarrow> bool" where
  "at_least_as_good sap i j \<longleftrightarrow>
     state_rank (ns_state (ss_value i)) \<le> state_rank (ns_state (ss_value j)) \<and>
     (state_rank (ns_state (ss_value i)) = state_rank (ns_state (ss_value j)) \<longrightarrow>
       peer_age (ns_peer (ss_value j)) \<le> peer_age (ns_peer (ss_value i)) \<and>
       (peer_age (ns_peer (ss_value j)) = peer_age (ns_peer (ss_value i)) \<longrightarrow>
         is_elder_of (ss_value j) sap \<longrightarrow> is_elder_of (ss_value i) sap))"

lemma candidate_cmp_good: "candidate_cmp cr sap i j \<noteq> Greater \<Longrightarrow> at_least_as_good sap i j"
  by (auto simp: at_least_as_good_def candidate_cmp_def then_with_Greater then_with_Equal ord_cmp_def
      split: if_splits)

lemma picked_good:
  assumes "total_cmp (sig_cmp cr)" "\<And>i. i \<in> set ms \<Longrightarrow> ns_state (ss_value i) \<noteq> Left"
  shows "\<forall>i \<in> set (picked cr n sap ms). \<forall>j \<in> set (left_out cr n sap ms). at_least_as_good sap i j"
  using picked_best [OF assms] candidate_cmp_good by blast

section \<open>Properties\<close>

text \<open>C13. \<open>SectionPeers::update\<close> accepts information about a member exactly when the member
  is new or its membership state moves strictly forward (joined, relocated, left); it then
  stores the information under the member's name, and otherwise changes nothing. Other
  members are untouched and every member stays stored under its own name. In particular
  nobody comes back after having left, and no second joined state replaces a first.\<close>

theorem peers_update_forward:
  assumes "peers_inv m"
  defines "name \<equiv> \<lambda>info. peer_name (ns_peer (ss_value info))"
  shows "peers_inv (snd (peers_update m info)) \<and>
    (fst (peers_update m info) \<longleftrightarrow>
      (case bt_get m (name info) of
         None \<Rightarrow> True
       | Some old \<Rightarrow> state_rank (ns_state (ss_value old)) < state_rank (ns_state (ss_value info)))) \<and>
    (if fst (peers_update m info)
     then bt_get (snd (peers_update m info)) = (bt_get m)(name info \<mapsto> info)
     else snd (peers_update m info) = m)"
  unfolding name_def using assms(1)
  by (auto simp: peers_update_eq Let_def member_rank_def peers_inv_def set_bt_insert split: option.splits)

theorem peers_update_forward_witness:
  "fst (peers_update [(1, token_signed 0 \<lparr>ns_peer = peer_new 1 7, ns_state = Left\<rparr>)]
     (token_signed 1 (joined_state (peer_new 1 8)))) = False"
  using peers_update_forward [of "[(1, token_signed 0 \<lparr>ns_peer = peer_new 1 7, ns_state = Left\<rparr>)]"
      "token_signed 1 (joined_state (peer_new 1 8))"]
  by (simp add: peers_inv_def)

text \<open>C12. Membership converges: whatever the order in which the same updates reach two
  elders that start from the same members, they agree on who has joined, been relocated or
  left.\<close>

theorem peers_update_order_independent:
  assumes "peers_inv m" and "mset infos = mset infos'"
  shows "member_rank (update_all m infos) = member_rank (update_all m infos')"
proof -
  define step :: "node_state section_signed \<Rightarrow> (xor_name \<rightharpoonup> nat) \<Rightarrow> (xor_name \<rightharpoonup> nat)" where
    "step info r = r(peer_name (ns_peer (ss_value info)) \<mapsto>
      (case r (peer_name (ns_peer (ss_value info))) of None \<Rightarrow> state_rank (ns_state (ss_value info))
       | Some x \<Rightarrow> max x (state_rank (ns_state (ss_value info)))))" for info r
  have "member_rank (update_all m is) = fold step is (member_rank m)" for "is"
    using assms(1)
    by (induction "is" arbitrary: m) (simp_all add: update_all_def member_rank_update step_def)
  moreover have "fold step infos = fold step infos'"
    using assms(2)
    by (intro fold_multiset_equiv)
      (auto simp: step_def fun_eq_iff max.assoc max.commute max.left_commute split: option.split)
  ultimately show ?thesis by simp
qed

theorem peers_update_order_independent_witness:
  "member_rank (update_all [] [token_signed 0 (joined_state (peer_new 1 7)),
      token_signed 1 (relocate 9 (joined_state (peer_new 1 7)))]) =
   member_rank (update_all [] [token_signed 1 (relocate 9 (joined_state (peer_new 1 7))),
      token_signed 0 (joined_state (peer_new 1 7))])"
  by (rule peers_update_order_independent) (simp_all add: peers_inv_def)

text \<open>C14. The next elders: \<open>elder_candidates\<close> returns \<open>elder_size\<close> peers, or all
  eligible ones when there are fewer, all of them reachable and either joined or relocated
  elders. A member left out is never preferable to one picked: it is not joined when the
  picked one is only relocated; with the same standing it is not older; and at the same age
  it is an elder only if the picked one is.\<close>

theorem elder_candidates_best:
  fixes m :: section_peers and sap :: section_auth and cr :: "'c crypto_ops"
  assumes "total_cmp (sig_cmp cr)"
  defines "eligible \<equiv> filter (\<lambda>info. peer_reachable (ns_peer (ss_value info)))
      (filter (\<lambda>info. is_active (ss_value info) sap) (bt_values m))"
  shows "peers_elder_candidates cr m elder_size sap =
      map (\<lambda>i. ns_peer (ss_value i)) (picked cr elder_size sap eligible) \<and>
    length (peers_elder_candidates cr m elder_size sap) = min elder_size (length eligible) \<and>
    mset (picked cr elder_size sap eligible) + mset (left_out cr elder_size sap eligible) = mset eligible \<and>
    (\<forall>i \<in> set (picked cr elder_size sap eligible). \<forall>j \<in> set (left_out cr elder_size sap eligible).
       at_least_as_good sap i j)"
proof -
  have "ns_state (ss_value i) \<noteq> Left" if "i \<in> set eligible" for i
    using that by (auto simp: eligible_def is_active_def)
  then have "\<forall>i \<in> set (picked cr elder_size sap eligible). \<forall>j \<in> set (left_out cr elder_size sap eligible).
      at_least_as_good sap i j"
    by (rule picked_good [OF assms(1)])
  moreover have "peers_elder_candidates cr m elder_size sap = pick_elder_candidates cr elder_size sap eligible"
    by (simp only: peers_elder_candidates_def eligible_def)
  ultimately show ?thesis by (simp add: pick_picked length_picked picked_left_out)
qed

theorem elder_candidates_best_witness:
  "length (peers_elder_candidates (token_crypto :: unit crypto_ops)
     [(1, token_signed 0 (joined_state (set_reachable True (peer_new 1 7)))),
      (2, token_signed 0 (joined_state (set_reachable True (peer_new 2 8))))]
     1 (section_auth_new [] [] (PkSet 0))) = 1"
  using conjunct1 [OF conjunct2 [OF elder_candidates_best [OF token_sig_cmp [where 'c = unit],
      of "[(1, token_signed 0 (joined_state (set_reachable True (peer_new 1 7)))),
          (2, token_signed 0 (joined_state (set_reachable True (peer_new 2 8))))]" 1
        "section_auth_new [] [] (PkSet 0)"]]]
  by (simp add: is_active_def)

end
