(* ===== verification/Section_Keys.thy ===== *)
theory Section_Keys
  imports Bounded_Queue Stand_Ins
begin

text \<open>
  Our shares of the section keys: \<open>src/section/section_keys.rs\<close>. The outcome of a key
  generation waits in \<open>pending\<close> until the section agrees on its key; it then moves to a
  small cache of the most recent keys.
\<close>

section \<open>The cache of keys\<close>

record mini_key_cache =
  mk_list :: "(bls_public_key \<times> section_key_share) vec_deque"

definition key_cache_with_capacity :: "(nat \<Rightarrow> nat) \<Rightarrow> nat \<Rightarrow> mini_key_cache" where
  "key_cache_with_capacity alloc capacity = \<lparr>mk_list = vd_with_capacity alloc capacity\<rparr>"

definition key_cache_has_key_share :: "mini_key_cache \<Rightarrow> bool" where
  "key_cache_has_key_share c \<longleftrightarrow> vd_list (mk_list c) \<noteq> []"

definition get_most_recent :: "mini_key_cache \<Rightarrow> error + section_key_share" where
  "get_most_recent c =
     (if vd_list (mk_list c) = [] then Inl MissingSecretKeyShare else Inr (snd (last (vd_list (mk_list c)))))"

definition key_cache_sign_with ::
  "'c crypto_ops \<Rightarrow> mini_key_cache \<Rightarrow> bytes \<Rightarrow> bls_public_key \<Rightarrow> error + signature_share" where
  "key_cache_sign_with cr c data public_key =
     (case find (\<lambda>(cached_public, _). public_key = cached_public) (vd_list (mk_list c)) of
        Some (_, share) \<Rightarrow> Inr (share_sign cr (ks_secret_key_share share) data)
      | None \<Rightarrow> Inl MissingSecretKeyShare)"

definition key_cache_add ::
  "mini_key_cache \<Rightarrow> bls_public_key \<Rightarrow> section_key_share \<Rightarrow> bls_public_key option \<times> mini_key_cache" where
  "key_cache_add c public_key share =
     (if list_ex (\<lambda>(cached_public, _). public_key = cached_public) (vd_list (mk_list c)) then (None, c)
      else let (popped, l) = (if vd_capacity (mk_list c) = length (vd_list (mk_list c))
                              then vd_pop_front (mk_list c) else (None, mk_list c));
               evicted = map_option fst popped
           in (evicted, \<lparr>mk_list = vd_push_back (public_key, share) l\<rparr>))"

section \<open>The provider\<close>

record section_keys_provider =
  kp_cache :: mini_key_cache
  kp_pending :: "bls_public_key \<rightharpoonup> section_key_share"

definition insert_dkg_outcome ::
  "'c crypto_ops \<Rightarrow> section_keys_provider \<Rightarrow> section_key_share \<Rightarrow> section_keys_provider" where
  "insert_dkg_outcome cr p share =
     p\<lparr>kp_pending := (kp_pending p)(pks_public_key cr (ks_public_key_set share) \<mapsto> share)\<rparr>"

definition finalise_dkg :: "section_keys_provider \<Rightarrow> bls_public_key \<Rightarrow> section_keys_provider" where
  "finalise_dkg p public_key =
     (case kp_pending p public_key of
        None \<Rightarrow> p
      | Some share \<Rightarrow>
          p\<lparr>kp_pending := (kp_pending p)(public_key := None),
            kp_cache := snd (key_cache_add (kp_cache p) public_key share)\<rparr>)"

definition section_keys_new ::
  "(nat \<Rightarrow> nat) \<Rightarrow> 'c crypto_ops \<Rightarrow> u8 \<Rightarrow> section_key_share option \<Rightarrow> section_keys_provider" where
  "section_keys_new alloc cr cache_size current =
     (let provider = \<lparr>kp_cache = key_cache_with_capacity alloc (unat cache_size), kp_pending = Map.empty\<rparr>
      in case current of
           None \<Rightarrow> provider
         | Some share \<Rightarrow>
             finalise_dkg (insert_dkg_outcome cr provider share)
               (pks_public_key cr (ks_public_key_set share)))"

definition key_share :: "section_keys_provider \<Rightarrow> error + section_key_share" where
  "key_share p = get_most_recent (kp_cache p)"

definition sign_with ::
  "'c crypto_ops \<Rightarrow> section_keys_provider \<Rightarrow> bytes \<Rightarrow> bls_public_key \<Rightarrow> error + signature_share" where
  "sign_with cr p data public_key = key_cache_sign_with cr (kp_cache p) data public_key"

definition has_key_share :: "section_keys_provider \<Rightarrow> bool" where
  "has_key_share p = key_cache_has_key_share (kp_cache p)"

section \<open>Lemmas\<close>

abbreviation cached_shares :: "section_keys_provider \<Rightarrow> (bls_public_key \<times> section_key_share) list" where
  "cached_shares p \<equiv> vd_list (mk_list (kp_cache p))"

text \<open>Every share is kept under its own public key, the cached keys are distinct and the
  cache stays within its (nonzero) capacity.\<close>

definition keys_inv :: "'c crypto_ops \<Rightarrow> section_keys_provider \<Rightarrow> bool" where
  "keys_inv cr p \<longleftrightarrow>
     distinct (map fst (cached_shares p)) \<and>
     0 < vd_capacity (mk_list (kp_cache p)) \<and>
     length (cached_shares p) \<le> vd_capacity (mk_list (kp_cache p)) \<and>
     (\<forall>(k, s) \<in> set (cached_shares p). pks_public_key cr (ks_public_key_set s) = k) \<and>
     (\<forall>k s. kp_pending p k = Some s \<longrightarrow> pks_public_key cr (ks_public_key_set s) = k)"

lemma find_key_map_of: "find (\<lambda>(k, _). x = k) m = map_option (Pair x) (map_of m x)"
  by (induction m) auto

lemma sign_with_map_of:
  "sign_with cr p data k =
    (case map_of (cached_shares p) k of
       None \<Rightarrow> Inl MissingSecretKeyShare
     | Some s \<Rightarrow> Inr (share_sign cr (ks_secret_key_share s) data))"
  by (simp add: sign_with_def key_cache_sign_with_def find_key_map_of split: option.split)

lemma key_cache_add_eq:
  "snd (key_cache_add c k s) =
    (if k \<in> fst ` set (vd_list (mk_list c)) then c else \<lparr>mk_list = vd_push_recent (mk_list c) (k, s)\<rparr>)"
  by (auto simp: key_cache_add_def vd_push_recent_def split_beta list_ex_iff image_iff)

lemma insert_dkg_outcome_inv [simp]: "keys_inv cr p \<Longrightarrow> keys_inv cr (insert_dkg_outcome cr p s)"
  by (auto simp: keys_inv_def insert_dkg_outcome_def)

lemma finalise_dkg_inv [simp]:
  assumes "keys_inv cr p"
  shows "keys_inv cr (finalise_dkg p k)"
proof (cases "kp_pending p k = None \<or> k \<in> fst ` set (cached_shares p)")
  case True
  then show ?thesis using assms
    by (auto simp: finalise_dkg_def key_cache_add_eq keys_inv_def split: option.split)
next
  case False
  then obtain s where s: "kp_pending p k = Some s" by auto
  let ?q = "mk_list (kp_cache p)"
  have q: "0 < vd_capacity ?q" "length (vd_list ?q) \<le> vd_capacity ?q" using assms by (simp_all add: keys_inv_def)
  have "set (vd_list (vd_push_recent ?q (k, s))) \<subseteq> insert (k, s) (set (vd_list ?q))"
    using recent.push_items [OF q, of "(k, s)"] by (cases "vd_list ?q") auto
  moreover have "distinct (map fst (vd_list (vd_push_recent ?q (k, s))))"
    using recent.push_items [OF q, of "(k, s)"] False assms
    by (cases "vd_list ?q") (auto simp: keys_inv_def)
  ultimately show ?thesis
    using s False assms recent.push_bound [OF q, of "(k, s)"] recent.push_length [OF q, of "(k, s)"]
    by (auto simp: finalise_dkg_def key_cache_add_eq keys_inv_def)
qed

lemma section_keys_new_inv:
  assumes "\<And>n. n \<le> alloc n" "0 < cache_size"
  shows "keys_inv cr (section_keys_new alloc cr cache_size current)"
proof -
  have "0 < alloc (unat cache_size)" using assms by (metis gr0I le_zero_eq unat_gt_0 word_neq_0_conv less_numeral_extra(3))
  then have "keys_inv cr \<lparr>kp_cache = key_cache_with_capacity alloc (unat cache_size), kp_pending = Map.empty\<rparr>"
    by (simp add: keys_inv_def key_cache_with_capacity_def vd_with_capacity_def)
  then show ?thesis by (auto simp: section_keys_new_def Let_def split: option.split)
qed

section \<open>Properties\<close>

text \<open>Once the section has agreed on a key for which our share is pending and not yet
  cached, \<open>finalise_dkg\<close> makes that share the current one, consumes the pending entry, and
  we can sign with the new key. Every other cached key keeps signing, except that a full
  cache forgets its oldest key. Shares stay under their own keys and within the capacity.\<close>

theorem finalise_dkg_activates:
  assumes "keys_inv cr p" and "kp_pending p k = Some s" and "k \<notin> fst ` set (cached_shares p)"
  defines "p' \<equiv> finalise_dkg p k"
  shows "keys_inv cr p' \<and> key_share p' = Inr s \<and> kp_pending p' = (kp_pending p)(k := None) \<and>
    (\<forall>data. sign_with cr p' data k = Inr (share_sign cr (ks_secret_key_share s) data)) \<and>
    (\<forall>j data. j \<noteq> k \<longrightarrow> sign_with cr p' data j \<noteq> sign_with cr p data j \<longrightarrow>
       length (cached_shares p) = vd_capacity (mk_list (kp_cache p)) \<and> j = fst (hd (cached_shares p)))"
proof -
  let ?q = "mk_list (kp_cache p)"
  have q: "0 < vd_capacity ?q" "length (vd_list ?q) \<le> vd_capacity ?q" using assms(1) by (simp_all add: keys_inv_def)
  have items: "cached_shares p' =
      (if length (cached_shares p) = vd_capacity ?q then tl (cached_shares p) else cached_shares p) @ [(k, s)]"
    using assms(2,3) recent.push_items [OF q, of "(k, s)"]
    by (simp add: p'_def finalise_dkg_def key_cache_add_eq)
  have dist: "distinct (map fst (cached_shares p))" using assms(1) by (simp add: keys_inv_def)
  have "key_share p' = Inr s" by (simp add: key_share_def get_most_recent_def items)
  moreover have "kp_pending p' = (kp_pending p)(k := None)" using assms(2) by (simp add: p'_def finalise_dkg_def)
  moreover have "map_of (cached_shares p) k = None" using assms(3) by (simp add: map_of_eq_None_iff)
  then have "map_of (cached_shares p') k = Some s"
    using items by (cases "cached_shares p") (auto simp: map_add_def split: option.split if_splits)
  then have "sign_with cr p' data k = Inr (share_sign cr (ks_secret_key_share s) data)" for data
    by (simp add: sign_with_map_of)
  moreover have "sign_with cr p' data j = sign_with cr p data j"
    if "j \<noteq> k" "\<not> (length (cached_shares p) = vd_capacity ?q \<and> j = fst (hd (cached_shares p)))" for j data
  proof -
    have "map_of (cached_shares p') j = map_of (cached_shares p) j"
      using items that by (cases "cached_shares p") (auto simp: map_add_def split: option.split)
    then show ?thesis by (simp add: sign_with_map_of)
  qed
  moreover have "keys_inv cr p'" using assms(1) by (simp add: p'_def)
  ultimately show ?thesis by blast
qed

theorem finalise_dkg_activates_witness:
  "key_share (finalise_dkg (insert_dkg_outcome (token_crypto :: unit crypto_ops)
      (section_keys_new (\<lambda>n. n) (token_crypto :: unit crypto_ops) 5 None)
      \<lparr>ks_public_key_set = PkSet 3, ks_index = 0, ks_secret_key_share = SkShare 0\<rparr>) (BlsPk 3)) =
   Inr \<lparr>ks_public_key_set = PkSet 3, ks_index = 0, ks_secret_key_share = SkShare 0\<rparr>"
proof -
  let ?s = "\<lparr>ks_public_key_set = PkSet 3, ks_index = 0, ks_secret_key_share = SkShare 0\<rparr>"
  let ?p = "insert_dkg_outcome (token_crypto :: unit crypto_ops)
      (section_keys_new (\<lambda>n. n) (token_crypto :: unit crypto_ops) 5 None) ?s"
  have "keys_inv (token_crypto :: unit crypto_ops) ?p"
    by (intro insert_dkg_outcome_inv section_keys_new_inv) simp_all
  then show ?thesis
    using finalise_dkg_activates [of "token_crypto :: unit crypto_ops" ?p "BlsPk 3" ?s]
    by (simp add: insert_dkg_outcome_def section_keys_new_def token_crypto_def
        key_cache_with_capacity_def vd_with_capacity_def)
qed

end
