(* ===== verification/Section_State.thy ===== *)
theory Section_State
  imports Section_Peers Section_Keys
begin

text \<open>
  What a node knows about its own section: \<open>src/section/mod.rs\<close>, with the signature
  checks of \<open>src/dkg/mod.rs\<close> and \<open>src/dkg/section_signed.rs\<close>. The section holds the chain
  of its keys, the current section authority provider and the members. What the code relies
  on in \<open>secured_linked_list\<close> is \<open>chain_laws\<close>.
\<close>

section \<open>Signed values\<close>

definition verify_signed :: "'c crypto_ops \<Rightarrow> signed \<Rightarrow> 'c payload \<Rightarrow> bool" where
  "verify_signed cr sg message =
     (case serialize cr message of None \<Rightarrow> False | Some bytes \<Rightarrow> signed_verify cr sg bytes)"

definition section_signed_new :: "'a \<Rightarrow> signed \<Rightarrow> 'a section_signed" where
  "section_signed_new v sg = \<lparr>ss_value = v, ss_signed = sg\<rparr>"

text \<open>\<open>ser\<close> is the payload that is serialised for the type of the signed value.\<close>

definition self_verify :: "'c crypto_ops \<Rightarrow> ('a \<Rightarrow> 'c payload) \<Rightarrow> 'a section_signed \<Rightarrow> bool" where
  "self_verify cr ser ss = verify_signed cr (ss_signed ss) (ser (ss_value ss))"

definition section_signed_verify ::
  "'c env \<Rightarrow> ('a \<Rightarrow> 'c payload) \<Rightarrow> 'a section_signed \<Rightarrow> 'c \<Rightarrow> bool" where
  "section_signed_verify E ser ss section_chain \<longleftrightarrow>
     sll_has_key (ev_chain E) section_chain (sg_public_key (ss_signed ss)) \<and> self_verify (ev_crypto E) ser ss"

section \<open>The section\<close>

definition section_new ::
  "'c env \<Rightarrow> bls_public_key \<Rightarrow> 'c \<Rightarrow> section_auth section_signed \<Rightarrow> error + 'c section_state" where
  "section_new E genesis_key chain section_auth =
     (if sg_public_key (ss_signed section_auth) \<noteq> sll_last_key (ev_chain E) chain then Inl InvalidMessage
      else Inr \<lparr>sec_genesis_key = genesis_key, sec_chain = chain, sec_auth = section_auth, sec_members = []\<rparr>)"

definition create_first_signed ::
  "'c crypto_ops \<Rightarrow> public_key_set \<Rightarrow> secret_key_share \<Rightarrow> 'c payload \<Rightarrow> error + signed" where
  "create_first_signed cr pk_set sk_share payload =
     and_then (ok_or InvalidPayload (serialize cr payload)) (\<lambda>bytes.
     let signature_share = share_sign cr sk_share bytes
     in and_then (ok_or InvalidSignatureShare (combine_signatures cr pk_set [(0, signature_share)])) (\<lambda>signature.
        Inr \<lparr>sg_public_key = pks_public_key cr pk_set, sg_signature = signature\<rparr>))"

definition create_first_section_authority_provider ::
  "'c crypto_ops \<Rightarrow> public_key_set \<Rightarrow> secret_key_share \<Rightarrow> peer \<Rightarrow> error + section_auth section_signed" where
  "create_first_section_authority_provider cr pk_set sk_share peer =
     (let section_auth = section_auth_new [set_reachable True peer] [] pk_set
      in and_then (create_first_signed cr pk_set sk_share (PSectionAuth section_auth)) (\<lambda>signed.
         Inr (section_signed_new section_auth signed)))"

fun first_members ::
  "'c crypto_ops \<Rightarrow> public_key_set \<Rightarrow> secret_key_share \<Rightarrow> peer list \<Rightarrow> 'c section_state \<Rightarrow> error + 'c section_state" where
  "first_members cr pk_set sk_share [] s = Inr s"
| "first_members cr pk_set sk_share (peer # peers) s =
     (let node_state = joined_state peer
      in and_then (create_first_signed cr pk_set sk_share (PNodeState node_state)) (\<lambda>signed.
         first_members cr pk_set sk_share peers
           (s\<lparr>sec_members := snd (peers_update (sec_members s) \<lparr>ss_value = node_state, ss_signed = signed\<rparr>)\<rparr>)))"

text \<open>The random secret key set is given by its public key set and its first share.\<close>

definition section_first_node ::
  "'c env \<Rightarrow> public_key_set \<Rightarrow> secret_key_share \<Rightarrow> peer \<Rightarrow> error + 'c section_state \<times> section_key_share" where
  "section_first_node E public_key_set secret_key_share peer =
     and_then (create_first_section_authority_provider (ev_crypto E) public_key_set secret_key_share peer) (\<lambda>section_auth.
     and_then (section_new E (sg_public_key (ss_signed section_auth))
                (sll_new (ev_chain E) (sg_public_key (ss_signed section_auth))) section_auth) (\<lambda>section0.
     and_then (first_members (ev_crypto E) public_key_set secret_key_share
                (sap_peers (ss_value (sec_auth section0))) section0) (\<lambda>section.
     Inr (section, \<lparr>ks_public_key_set = public_key_set, ks_index = 0, ks_secret_key_share = secret_key_share\<rparr>))))"

definition sec_prefix :: "'c section_state \<Rightarrow> pfx" where
  "sec_prefix s = sa_prefix (ss_value (sec_auth s))"

definition authority_provider :: "'c section_state \<Rightarrow> section_auth" where
  "authority_provider s = ss_value (sec_auth s)"

definition sec_is_elder :: "'c section_state \<Rightarrow> xor_name \<Rightarrow> bool" where
  "sec_is_elder s name = contains_elder (authority_provider s) name"

definition update_member :: "'c env \<Rightarrow> 'c section_state \<Rightarrow> node_state section_signed \<Rightarrow> bool \<times> 'c section_state" where
  "update_member E s node_state =
     (if \<not> section_signed_verify E PNodeState node_state (sec_chain s) then (False, s)
      else let (changed, members) = peers_update (sec_members s) node_state
           in (changed, s\<lparr>sec_members := members\<rparr>))"

definition section_merge :: "'c env \<Rightarrow> 'c section_state \<Rightarrow> 'c section_state \<Rightarrow> (error + unit) \<times> 'c section_state" where
  "section_merge E s other =
     (if \<not> self_verify (ev_crypto E) PSectionAuth (sec_auth other) then (Inl InvalidMessage, s)
      else if sg_public_key (ss_signed (sec_auth other)) \<noteq> sll_last_key (ev_chain E) (sec_chain other)
      then (Inl InvalidMessage, s)
      else case sll_merge (ev_chain E) (sec_chain s) (sec_chain other) of
             Inl e \<Rightarrow> (Inl (InvalidSectionChain e), s)
           | Inr chain \<Rightarrow>
               let s1 = s\<lparr>sec_chain := chain\<rparr>;
                   s2 = (if sg_public_key (ss_signed (sec_auth other)) = sll_last_key (ev_chain E) (sec_chain s1)
                         then s1\<lparr>sec_auth := sec_auth other\<rparr> else s1);
                   s3 = foldl (\<lambda>s info. snd (update_member E s info)) s2 (bt_values (sec_members other))
               in (Inr (), s3\<lparr>sec_members :=
                     prune_not_matching (ev_xor E) (sa_prefix (ss_value (sec_auth s3))) (sec_members s3)\<rparr>))"

definition update_elders ::
  "'c env \<Rightarrow> 'c section_state \<Rightarrow> section_auth section_signed \<Rightarrow> signed \<Rightarrow> bool \<times> 'c section_state" where
  "update_elders E s new_section_auth new_key_signed =
     (if sa_prefix (ss_value new_section_auth) \<noteq> sec_prefix s \<and>
         \<not> pf_is_extension_of (ev_xor E) (sa_prefix (ss_value new_section_auth)) (sec_prefix s)
      then (False, s)
      else if \<not> self_verify (ev_crypto E) PSectionAuth new_section_auth then (False, s)
      else case sll_insert (ev_chain E) (sec_chain s) (sg_public_key new_key_signed)
                  (sg_public_key (ss_signed new_section_auth)) (sg_signature new_key_signed) of
             Inl e \<Rightarrow> (False, s)
           | Inr chain \<Rightarrow>
               let s1 = s\<lparr>sec_chain := chain\<rparr>;
                   s2 = (if sg_public_key (ss_signed new_section_auth) = sll_last_key (ev_chain E) (sec_chain s1)
                         then s1\<lparr>sec_auth := new_section_auth\<rparr> else s1)
               in (True, s2\<lparr>sec_members :=
                     prune_not_matching (ev_xor E) (sa_prefix (ss_value (sec_auth s2))) (sec_members s2)\<rparr>))"

definition extend_chain ::
  "'c env \<Rightarrow> 'c section_state \<Rightarrow> bls_public_key \<Rightarrow> 'c \<Rightarrow> sll_error + 'c section_state" where
  "extend_chain E s trusted_key full_chain =
     and_then (case sll_extend (ev_chain E) (sec_chain s) trusted_key full_chain of
                 Inr chain \<Rightarrow> Inr chain
               | Inl InvalidOperation \<Rightarrow> Inr (sec_chain s)
               | Inl e \<Rightarrow> Inl e) (\<lambda>chain.
     Inr \<lparr>sec_genesis_key = sec_genesis_key s, sec_chain = chain, sec_auth = sec_auth s,
          sec_members = sec_members s\<rparr>)"

section \<open>Members and candidates\<close>

definition active_members :: "'c section_state \<Rightarrow> peer list" where
  "active_members s =
     map ns_peer (filter (\<lambda>info. is_joined (sec_members s) (peer_name (ns_peer info)) \<or>
                                 sec_is_elder s (peer_name (ns_peer info)))
       (peers_all (sec_members s)))"

definition adults :: "'c section_state \<Rightarrow> peer list" where
  "adults s = filter (\<lambda>p. \<not> sec_is_elder s (peer_name p)) (peers_mature (sec_members s))"

definition live_adults :: "'c section_state \<Rightarrow> peer list" where
  "live_adults s =
     map ns_peer (filter (\<lambda>info. \<not> sec_is_elder s (peer_name (ns_peer info))) (peers_joined (sec_members s)))"

definition find_joined_member_by_addr :: "'c section_state \<Rightarrow> socket_addr \<Rightarrow> peer option" where
  "find_joined_member_by_addr s addr =
     map_option ns_peer (find (\<lambda>info. peer_addr (ns_peer info) = addr) (peers_joined (sec_members s)))"

text \<open>The index of the next bit is a \<open>u8\<close>; a prefix of 256 bits has none.\<close>

definition try_split :: "'c env \<Rightarrow> 'c section_state \<Rightarrow> xor_name \<Rightarrow> (elder_candidates \<times> elder_candidates) option" where
  "try_split E s our_name =
     (if pf_bit_count (ev_xor E) (sec_prefix s) > 255 then None
      else let next_bit_index = pf_bit_count (ev_xor E) (sec_prefix s);
               next_bit = xn_bit (ev_xor E) our_name next_bit_index;
               (our_new_size, sibling_new_size) =
                 foldl (\<lambda>(ours, siblings) is_our_prefix.
                     if is_our_prefix then (ours + 1, siblings) else (ours, siblings + 1)) (0 :: nat, 0 :: nat)
                   (map (\<lambda>peer. xn_bit (ev_xor E) (peer_name peer) next_bit_index = next_bit)
                     (peers_mature (sec_members s)))
           in if our_new_size < RECOMMENDED_SECTION_SIZE \<or> sibling_new_size < RECOMMENDED_SECTION_SIZE then None
              else let our_prefix = pf_pushed (ev_xor E) (sec_prefix s) next_bit;
                       other_prefix = pf_pushed (ev_xor E) (sec_prefix s) (\<not> next_bit);
                       our_elders = elder_candidates_matching_prefix (ev_xor E) (ev_crypto E) (sec_members s)
                         our_prefix ELDER_SIZE (authority_provider s);
                       other_elders = elder_candidates_matching_prefix (ev_xor E) (ev_crypto E) (sec_members s)
                         other_prefix ELDER_SIZE (authority_provider s)
                   in Some (elder_candidates_new our_elders our_prefix,
                            elder_candidates_new other_elders other_prefix))"

definition sec_elder_candidates :: "'c env \<Rightarrow> 'c section_state \<Rightarrow> nat \<Rightarrow> peer list" where
  "sec_elder_candidates E s elder_size =
     peers_elder_candidates (ev_crypto E) (sec_members s) elder_size (authority_provider s)"

definition promote_and_demote_elders :: "'c env \<Rightarrow> 'c section_state \<Rightarrow> xor_name \<Rightarrow> elder_candidates list" where
  "promote_and_demote_elders E s our_name =
     (case try_split E s our_name of
        Some (our_elder_candidates, other_elder_candidates) \<Rightarrow> [our_elder_candidates, other_elder_candidates]
      | None \<Rightarrow>
          let expected_peers = sec_elder_candidates E s ELDER_SIZE;
              expected_names = bts_collect (map peer_name expected_peers);
              current_names = sap_names (authority_provider s)
          in if expected_names = current_names then []
             else if length expected_names < supermajority (length current_names) then []
             else [elder_candidates_new expected_peers (sa_prefix (authority_provider s))])"

section \<open>Invariant\<close>

text \<open>What the code relies on in \<open>SecuredLinkedList\<close>: the chain has its first and its last
  key, an insertion or a merge only adds keys, and the last key afterwards is the last key
  of one of the parts. Extending towards an older key keeps the last key.\<close>

definition chain_laws :: "'c chain_ops \<Rightarrow> bool" where
  "chain_laws ch \<longleftrightarrow>
     (\<forall>c k. sll_has_key ch c k \<longleftrightarrow> k \<in> set (sll_keys ch c)) \<and>
     (\<forall>k. set (sll_keys ch (sll_new ch k)) = {k} \<and> sll_last_key ch (sll_new ch k) = k) \<and>
     (\<forall>c p k g c'. sll_insert ch c p k g = Inr c' \<longrightarrow>
        set (sll_keys ch c') = insert k (set (sll_keys ch c)) \<and>
        (sll_last_key ch c' = sll_last_key ch c \<or> sll_last_key ch c' = k)) \<and>
     (\<forall>c d c'. sll_merge ch c d = Inr c' \<longrightarrow>
        set (sll_keys ch c) \<subseteq> set (sll_keys ch c') \<and>
        (sll_last_key ch c' = sll_last_key ch c \<or> sll_last_key ch c' = sll_last_key ch d)) \<and>
     (\<forall>c t d c'. sll_extend ch c t d = Inr c' \<longrightarrow> sll_last_key ch c' = sll_last_key ch c)"

text \<open>The current authority provider is signed with the last key of the chain, every member
  is stored under its name and is signed with a key of the chain.\<close>

definition section_inv :: "'c env \<Rightarrow> 'c section_state \<Rightarrow> bool" where
  "section_inv E s \<longleftrightarrow>
     sg_public_key (ss_signed (sec_auth s)) = sll_last_key (ev_chain E) (sec_chain s) \<and>
     peers_inv (sec_members s) \<and>
     (\<forall>info \<in> set (bt_values (sec_members s)). section_signed_verify E PNodeState info (sec_chain s))"

definition members_match :: "'c env \<Rightarrow> 'c section_state \<Rightarrow> bool" where
  "members_match E s \<longleftrightarrow> (\<forall>name \<in> set (bt_keys (sec_members s)). pf_matches (ev_xor E) (sec_prefix s) name)"

lemma chain_laws_has_key: "chain_laws ch \<Longrightarrow> sll_has_key ch c k \<longleftrightarrow> k \<in> set (sll_keys ch c)"
  by (simp add: chain_laws_def)

lemma chain_laws_insert:
  "chain_laws ch \<Longrightarrow> sll_insert ch c p k g = Inr c' \<Longrightarrow>
    set (sll_keys ch c') = insert k (set (sll_keys ch c)) \<and>
    (sll_last_key ch c' = sll_last_key ch c \<or> sll_last_key ch c' = k)"
  unfolding chain_laws_def by blast

lemma chain_laws_merge:
  "chain_laws ch \<Longrightarrow> sll_merge ch c d = Inr c' \<Longrightarrow>
    set (sll_keys ch c) \<subseteq> set (sll_keys ch c') \<and>
    (sll_last_key ch c' = sll_last_key ch c \<or> sll_last_key ch c' = sll_last_key ch d)"
  unfolding chain_laws_def by blast

lemma token_env_chain_laws: "chain_laws (ev_chain token_env)"
proof -
  have ext: "last (dropWhile (\<lambda>k. k \<noteq> t) d) = last d" if "t \<in> set d" for t :: bls_public_key and d
    using that by (induction d) auto
  have flt: "last (c @ filter (\<lambda>k. k \<notin> set c) d) = last c \<or> last (c @ filter (\<lambda>k. k \<notin> set c) d) = last d"
    if "last d \<notin> set c" for c d :: "bls_public_key list"
    using that by (cases d rule: rev_exhaust) auto
  show ?thesis
    using ext flt
    by (auto simp: chain_laws_def list_chain_def split: if_splits)
qed

lemma verify_more_keys:
  "chain_laws (ev_chain E) \<Longrightarrow> section_signed_verify E ser i c \<Longrightarrow>
    set (sll_keys (ev_chain E) c) \<subseteq> set (sll_keys (ev_chain E) c') \<Longrightarrow> section_signed_verify E ser i c'"
  by (auto simp: section_signed_verify_def chain_laws_has_key)

lemma update_member_fields [simp]:
  "sec_chain (snd (update_member E s i)) = sec_chain s"
  "sec_auth (snd (update_member E s i)) = sec_auth s"
  "sec_genesis_key (snd (update_member E s i)) = sec_genesis_key s"
  by (simp_all add: update_member_def split_beta)

lemma values_peers_update:
  assumes "peers_inv m" "(a, b) \<in> set (snd (peers_update m info))"
  shows "b = info \<or> (a, b) \<in> set m"
  using assms by (auto simp: peers_update_eq Let_def set_bt_insert split: if_splits)

text \<open>The part of the invariant about the members, for any chain.\<close>

definition members_inv :: "'c env \<Rightarrow> 'c section_state \<Rightarrow> bool" where
  "members_inv E s \<longleftrightarrow> peers_inv (sec_members s) \<and>
     (\<forall>info \<in> set (bt_values (sec_members s)). section_signed_verify E PNodeState info (sec_chain s))"

lemma section_inv_iff:
  "section_inv E s \<longleftrightarrow> sg_public_key (ss_signed (sec_auth s)) = sll_last_key (ev_chain E) (sec_chain s) \<and> members_inv E s"
  by (simp add: section_inv_def members_inv_def)

lemma update_member_inv: "members_inv E s \<Longrightarrow> members_inv E (snd (update_member E s i))"
proof (cases "section_signed_verify E PNodeState i (sec_chain s)")
  case True
  assume "members_inv E s"
  moreover from this have "peers_inv (snd (peers_update (sec_members s) i))" by (simp add: members_inv_def)
  ultimately show ?thesis
    using True
    by (auto simp: update_member_def members_inv_def split_beta dest: values_peers_update)
qed (simp add: update_member_def)

definition update_members :: "'c env \<Rightarrow> 'c section_state \<Rightarrow> node_state section_signed list \<Rightarrow> 'c section_state" where
  "update_members E s infos = foldl (\<lambda>s info. snd (update_member E s info)) s infos"

lemma update_members_fields [simp]:
  "sec_chain (update_members E s is) = sec_chain s"
  "sec_auth (update_members E s is) = sec_auth s"
  "sec_genesis_key (update_members E s is) = sec_genesis_key s"
  by (induction "is" arbitrary: s) (simp_all add: update_members_def)

lemma update_members_inv: "members_inv E s \<Longrightarrow> members_inv E (update_members E s is)"
  by (induction "is" arbitrary: s) (simp_all add: update_members_def update_member_inv)

definition prune_members :: "'c env \<Rightarrow> 'c section_state \<Rightarrow> 'c section_state" where
  "prune_members E s =
     s\<lparr>sec_members := prune_not_matching (ev_xor E) (sa_prefix (ss_value (sec_auth s))) (sec_members s)\<rparr>"

lemma prune_members_inv:
  assumes "members_inv E s"
  shows "members_inv E (prune_members E s)" "members_match E (prune_members E s)"
  using assms
  by (auto simp: prune_members_def members_inv_def members_match_def sec_prefix_def prune_not_matching_set)

lemma prune_members_fields [simp]:
  "sec_chain (prune_members E s) = sec_chain s" "sec_auth (prune_members E s) = sec_auth s"
  "sec_genesis_key (prune_members E s) = sec_genesis_key s"
  by (simp_all add: prune_members_def)

lemma members_inv_chain:
  assumes "chain_laws (ev_chain E)" "members_inv E s" "sec_members s' = sec_members s"
    "set (sll_keys (ev_chain E) (sec_chain s)) \<subseteq> set (sll_keys (ev_chain E) (sec_chain s'))"
  shows "members_inv E s'"
  using assms verify_more_keys [OF assms(1) _ assms(4)] by (auto simp: members_inv_def)

text \<open>The outcome of a successful merge and of a successful change of elders.\<close>

lemma section_merge_Inr:
  "section_merge E s other = (Inr (), s') \<longleftrightarrow>
    self_verify (ev_crypto E) PSectionAuth (sec_auth other) \<and>
    sg_public_key (ss_signed (sec_auth other)) = sll_last_key (ev_chain E) (sec_chain other) \<and>
    (\<exists>chain. sll_merge (ev_chain E) (sec_chain s) (sec_chain other) = Inr chain \<and>
      s' = prune_members E (update_members E
        (s\<lparr>sec_chain := chain,
           sec_auth := if sg_public_key (ss_signed (sec_auth other)) = sll_last_key (ev_chain E) chain
                       then sec_auth other else sec_auth s\<rparr>) (bt_values (sec_members other))))"
  by (auto simp: section_merge_def prune_members_def update_members_def Let_def split: sum.splits)

lemma section_merge_Inl: "section_merge E s other = (Inl e, s') \<Longrightarrow> s' = s"
  by (auto simp: section_merge_def Let_def split: if_splits sum.splits)

lemma update_elders_True:
  "update_elders E s sa ks = (True, s') \<longleftrightarrow>
    (sa_prefix (ss_value sa) = sec_prefix s \<or> pf_is_extension_of (ev_xor E) (sa_prefix (ss_value sa)) (sec_prefix s)) \<and>
    self_verify (ev_crypto E) PSectionAuth sa \<and>
    (\<exists>chain. sll_insert (ev_chain E) (sec_chain s) (sg_public_key ks) (sg_public_key (ss_signed sa)) (sg_signature ks) = Inr chain \<and>
      s' = prune_members E (s\<lparr>sec_chain := chain,
        sec_auth := if sg_public_key (ss_signed sa) = sll_last_key (ev_chain E) chain then sa else sec_auth s\<rparr>))"
  by (cases "sll_insert (ev_chain E) (sec_chain s) (sg_public_key ks) (sg_public_key (ss_signed sa)) (sg_signature ks)")
    (simp_all add: update_elders_def prune_members_def Let_def, auto)

lemma update_elders_False: "update_elders E s sa ks = (False, s') \<Longrightarrow> s' = s"
  by (auto simp: update_elders_def Let_def split: if_splits sum.splits)

lemma section_merge_inv:
  assumes "chain_laws (ev_chain E)" "section_inv E s"
  shows "section_inv E (snd (section_merge E s other)) \<and>
    (fst (section_merge E s other) = Inr () \<longrightarrow> members_match E (snd (section_merge E s other)))"
proof (cases "section_merge E s other")
  case (Pair r s')
  show ?thesis
  proof (cases r)
    case (Inl e)
    with Pair have "s' = s" using section_merge_Inl [of E s other e s'] by simp
    then show ?thesis using Pair Inl assms(2) by simp
  next
    case (Inr u)
    with Pair have "section_merge E s other = (Inr (), s')" by (cases u) simp
    from this [unfolded section_merge_Inr] obtain chain where c: "sll_merge (ev_chain E) (sec_chain s) (sec_chain other) = Inr chain"
      "s' = prune_members E (update_members E
        (s\<lparr>sec_chain := chain,
           sec_auth := if sg_public_key (ss_signed (sec_auth other)) = sll_last_key (ev_chain E) chain
                       then sec_auth other else sec_auth s\<rparr>) (bt_values (sec_members other)))"
      "sg_public_key (ss_signed (sec_auth other)) = sll_last_key (ev_chain E) (sec_chain other)"
      by blast
    note laws = chain_laws_merge [OF assms(1) c(1)]
    let ?s1 = "s\<lparr>sec_chain := chain,
           sec_auth := if sg_public_key (ss_signed (sec_auth other)) = sll_last_key (ev_chain E) chain
                       then sec_auth other else sec_auth s\<rparr>"
    have m1: "members_inv E ?s1"
      using members_inv_chain [OF assms(1), of s ?s1] assms(2) laws by (simp add: section_inv_iff)
    have "members_inv E s'" "members_match E s'"
      unfolding c(2) by (rule prune_members_inv [OF update_members_inv [OF m1]])+
    moreover have "sg_public_key (ss_signed (sec_auth s')) = sll_last_key (ev_chain E) (sec_chain s')"
      using c(2,3) laws assms(2) by (auto simp: section_inv_iff)
    ultimately show ?thesis using Pair by (simp add: section_inv_iff)
  qed
qed

lemma update_elders_inv:
  assumes "chain_laws (ev_chain E)" "section_inv E s"
  shows "section_inv E (snd (update_elders E s sa ks)) \<and>
    (fst (update_elders E s sa ks) \<longrightarrow> members_match E (snd (update_elders E s sa ks)))"
proof (cases "update_elders E s sa ks")
  case (Pair r s')
  show ?thesis
  proof (cases r)
    case False
    with Pair have "s' = s" using update_elders_False [of E s sa ks s'] by simp
    then show ?thesis using Pair False assms(2) by simp
  next
    case True
    with Pair have "update_elders E s sa ks = (True, s')" by simp
    from this [unfolded update_elders_True] obtain chain where
      c: "sll_insert (ev_chain E) (sec_chain s) (sg_public_key ks) (sg_public_key (ss_signed sa)) (sg_signature ks) = Inr chain"
      "s' = prune_members E (s\<lparr>sec_chain := chain,
        sec_auth := if sg_public_key (ss_signed sa) = sll_last_key (ev_chain E) chain then sa else sec_auth s\<rparr>)"
      by blast
    note laws = chain_laws_insert [OF assms(1) c(1)]
    let ?s1 = "s\<lparr>sec_chain := chain,
        sec_auth := if sg_public_key (ss_signed sa) = sll_last_key (ev_chain E) chain then sa else sec_auth s\<rparr>"
    have m1: "members_inv E ?s1"
    proof (rule members_inv_chain [OF assms(1), of s])
      show "set (sll_keys (ev_chain E) (sec_chain s)) \<subseteq> set (sll_keys (ev_chain E) (sec_chain ?s1))"
        using laws by auto
    qed (use assms(2) in \<open>simp_all add: section_inv_iff\<close>)
    have "members_inv E s'" "members_match E s'"
      unfolding c(2) by (rule prune_members_inv [OF m1])+
    moreover have "sg_public_key (ss_signed (sec_auth s')) = sll_last_key (ev_chain E) (sec_chain s')"
      using laws assms(2) unfolding c(2) by (auto simp: section_inv_iff)
    ultimately show ?thesis using Pair by (simp add: section_inv_iff)
  qed
qed

lemma section_new_inv: "section_new E g c sa = Inr s \<Longrightarrow> section_inv E s"
  by (auto simp: section_new_def section_inv_def peers_inv_def split: if_splits)

section \<open>The life of a section\<close>

text \<open>A share belongs to a key set when the signature combined from it verifies.\<close>

definition share_of_set :: "'c crypto_ops \<Rightarrow> public_key_set \<Rightarrow> secret_key_share \<Rightarrow> bool" where
  "share_of_set cr pks sks \<longleftrightarrow>
     (\<forall>bytes sig. combine_signatures cr pks [(0, share_sign cr sks bytes)] = Some sig \<longrightarrow>
        signed_verify cr \<lparr>sg_public_key = pks_public_key cr pks, sg_signature = sig\<rparr> bytes)"

inductive section_step :: "'c env \<Rightarrow> 'c section_state \<Rightarrow> 'c section_state \<Rightarrow> bool" for E where
  step_merge: "section_step E s (snd (section_merge E s other))"
| step_update_elders: "section_step E s (snd (update_elders E s sa ks))"
| step_update_member: "section_step E s (snd (update_member E s info))"

inductive section_reachable :: "'c env \<Rightarrow> 'c section_state \<Rightarrow> bool" for E where
  reach_first_node: "share_of_set (ev_crypto E) pks sks \<Longrightarrow> section_first_node E pks sks peer = Inr (s, ks) \<Longrightarrow>
    section_reachable E s"
| reach_new: "section_new E genesis chain sa = Inr s \<Longrightarrow> section_reachable E s"
| reach_step: "section_reachable E s \<Longrightarrow> section_step E s s' \<Longrightarrow> section_reachable E s'"

inductive_cases section_stepE: "section_step E s s'"

lemma create_first_signed_Inr:
  assumes "share_of_set cr pks sks" "create_first_signed cr pks sks payload = Inr sg"
  shows "sg_public_key sg = pks_public_key cr pks" "verify_signed cr sg payload"
  using assms
  by (auto simp: create_first_signed_def Let_def ok_or_def verify_signed_def share_of_set_def split: option.splits)

lemma first_members_inv:
  assumes "share_of_set (ev_crypto E) pks sks" "first_members (ev_crypto E) pks sks ps s = Inr s'"
    and "sll_has_key (ev_chain E) (sec_chain s) (pks_public_key (ev_crypto E) pks)" "members_inv E s"
  shows "members_inv E s' \<and> sec_chain s' = sec_chain s \<and> sec_auth s' = sec_auth s"
  using assms
proof (induction ps arbitrary: s)
  case (Cons p ps)
  obtain sg where sg: "create_first_signed (ev_crypto E) pks sks (PNodeState (joined_state p)) = Inr sg"
    and rest: "first_members (ev_crypto E) pks sks ps
      (s\<lparr>sec_members := snd (peers_update (sec_members s) \<lparr>ss_value = joined_state p, ss_signed = sg\<rparr>)\<rparr>) = Inr s'"
    using Cons.prems(2) by (auto simp: Let_def)
  let ?i = "\<lparr>ss_value = joined_state p, ss_signed = sg\<rparr>"
  have v: "section_signed_verify E PNodeState ?i (sec_chain s)"
    using create_first_signed_Inr [OF Cons.prems(1) sg] Cons.prems(3)
    by (simp add: section_signed_verify_def self_verify_def)
  then have "s\<lparr>sec_members := snd (peers_update (sec_members s) ?i)\<rparr> = snd (update_member E s ?i)"
    by (simp add: update_member_def split_beta)
  then have "members_inv E (s\<lparr>sec_members := snd (peers_update (sec_members s) ?i)\<rparr>)"
    using update_member_inv [OF Cons.prems(4)] by simp
  then show ?case using Cons.IH [OF Cons.prems(1) rest] Cons.prems(3) by simp
qed simp

lemma first_node_inv:
  assumes "chain_laws (ev_chain E)" "share_of_set (ev_crypto E) pks sks"
    and "section_first_node E pks sks peer = Inr (s, ks)"
  shows "section_inv E s"
proof -
  obtain sa s0 where sa: "create_first_section_authority_provider (ev_crypto E) pks sks peer = Inr sa"
    and s0: "section_new E (sg_public_key (ss_signed sa)) (sll_new (ev_chain E) (sg_public_key (ss_signed sa))) sa = Inr s0"
    and s: "first_members (ev_crypto E) pks sks (sap_peers (ss_value (sec_auth s0))) s0 = Inr s"
    using assms(3) by (auto simp: section_first_node_def)
  have "sg_public_key (ss_signed sa) = pks_public_key (ev_crypto E) pks"
    using sa create_first_signed_Inr(1) [OF assms(2)]
    by (auto simp: create_first_section_authority_provider_def Let_def section_signed_new_def)
  moreover have "sec_chain s0 = sll_new (ev_chain E) (sg_public_key (ss_signed sa))"
    using s0 by (auto simp: section_new_def split: if_splits)
  ultimately have "sll_has_key (ev_chain E) (sec_chain s0) (pks_public_key (ev_crypto E) pks)"
    using assms(1) by (simp add: chain_laws_def)
  moreover have inv0: "section_inv E s0" using section_new_inv [OF s0] .
  ultimately show ?thesis
    using first_members_inv [OF assms(2) s] by (simp add: section_inv_iff)
qed

lemma section_step_inv:
  assumes "chain_laws (ev_chain E)" "section_inv E s" "section_step E s s'"
  shows "section_inv E s'"
  using assms(3)
proof cases
  case (step_merge other)
  then show ?thesis using section_merge_inv [OF assms(1,2), of other] by simp
next
  case (step_update_elders sa ks)
  then show ?thesis using update_elders_inv [OF assms(1,2), of sa ks] by simp
next
  case (step_update_member info)
  then show ?thesis using update_member_inv [of E s info] assms(2) by (simp add: section_inv_iff)
qed

section \<open>Splitting\<close>

lemma count_by_foldl:
  "foldl (\<lambda>(ours, siblings) b. if b then (ours + 1, siblings) else (ours, siblings + 1)) (a, c :: nat) bs =
    (a + length (filter id bs), c + length (filter Not bs))"
  by (induction bs arbitrary: a c) auto

text \<open>The mature members on one side of the next bit.\<close>

definition mature_side :: "'c env \<Rightarrow> 'c section_state \<Rightarrow> bool \<Rightarrow> peer list" where
  "mature_side E s b =
     filter (\<lambda>p. xn_bit (ev_xor E) (peer_name p) (length (sec_prefix s)) = b) (peers_mature (sec_members s))"

lemma try_split_Some:
  assumes X: "xor_space (ev_xor E)"
  shows "try_split E s our_name = Some (ours, others) \<longleftrightarrow>
    (let b = xn_bit (ev_xor E) our_name (length (sec_prefix s));
         cands = (\<lambda>p. elder_candidates_new (elder_candidates_matching_prefix (ev_xor E) (ev_crypto E)
            (sec_members s) p ELDER_SIZE (authority_provider s)) p)
     in length (sec_prefix s) < 256 \<and>
        RECOMMENDED_SECTION_SIZE \<le> length (mature_side E s b) \<and>
        RECOMMENDED_SECTION_SIZE \<le> length (mature_side E s (\<not> b)) \<and>
        ours = cands (sec_prefix s @ [b]) \<and> others = cands (sec_prefix s @ [\<not> b]))"
proof -
  have neq: "(Not \<circ> (\<lambda>p. f p = b)) = (\<lambda>p. f p = (\<not> b))" for f :: "peer \<Rightarrow> bool" and b
    by (auto simp: fun_eq_iff)
  show ?thesis
    by (auto simp: try_split_def Let_def xor_space.bit_count [OF X] xor_space.pushed [OF X] count_by_foldl
        filter_map neq mature_side_def split: if_splits)
qed

lemma candidates_matching_prefix:
  assumes "p \<in> set (elder_candidates_matching_prefix X cr m pre n sap)"
  shows "pf_matches X pre (peer_name p) \<and> peer_reachable p \<and>
    (\<exists>info \<in> set (bt_values m). ns_state (ss_value info) = Joined \<and> ns_peer (ss_value info) = p)"
  using assms
  by (auto simp: elder_candidates_matching_prefix_def pick_picked dest!: set_picked [THEN subsetD])

lemma length_candidates_matching_prefix:
  "length (elder_candidates_matching_prefix X cr m pre n sap) \<le> n"
  by (simp add: elder_candidates_matching_prefix_def pick_picked length_picked)

lemma distinct_candidates_matching_prefix:
  assumes "peers_inv m"
  shows "distinct (map peer_name (elder_candidates_matching_prefix X cr m pre n sap))"
proof -
  have "map (\<lambda>i. peer_name (ns_peer (ss_value i))) (bt_values m) = map fst m"
    using assms by (auto simp: peers_inv_def)
  then have "distinct (map (\<lambda>i. peer_name (ns_peer (ss_value i))) (bt_values m))"
    using assms bt_inv_distinct by (metis peers_inv_bt)
  then show ?thesis
    by (simp add: elder_candidates_matching_prefix_def pick_elder_candidates_def take_map o_def
        distinct_map_filter flip: take_map)
qed

lemma candidate_names:
  assumes "peers_inv m"
    and "name \<in> fst ` set (ec_elders (elder_candidates_new (elder_candidates_matching_prefix X cr m pre n sap) pre))"
  shows "pf_matches X pre name \<and> is_joined m name"
proof -
  obtain p where p: "p \<in> set (elder_candidates_matching_prefix X cr m pre n sap)" "peer_name p = name"
    using assms(2) by (auto simp: names_elder_candidates_new)
  then obtain k info where "(k, info) \<in> set m" "ns_state (ss_value info) = Joined" "ns_peer (ss_value info) = p"
    using candidates_matching_prefix by fastforce
  moreover from this have "k = name" using assms(1) p(2) by (auto simp: peers_inv_def)
  ultimately have "map_of m name = Some info" using assms(1) by (simp add: bt_map_of_Some)
  then show ?thesis
    using candidates_matching_prefix [OF p(1)] p(2) \<open>ns_state (ss_value info) = Joined\<close> by (simp add: is_joined_def)
qed

lemma length_candidates:
  "length (ec_elders (elder_candidates_new (elder_candidates_matching_prefix X cr m pre n sap) p)) \<le> n"
  using length_bt_collect [of "map (\<lambda>p. (peer_name p, peer_addr p)) (elder_candidates_matching_prefix X cr m pre n sap)"]
    length_candidates_matching_prefix [of X cr m pre n sap]
  by (simp add: elder_candidates_new_def)

lemma length_bts_collect: "length (bts_collect xs) = card (set xs)"
  by (simp add: bts_collect_def length_remdups_card_conv)

lemma length_bt_card: "bt_inv m \<Longrightarrow> card (fst ` set m) = length m"
  using bt_inv_distinct [of m] distinct_card [of "map fst m"] by simp

lemma elder_candidate_info:
  assumes "p \<in> set (sec_elder_candidates E s n)"
  shows "\<exists>info \<in> set (bt_values (sec_members s)). is_active (ss_value info) (authority_provider s) \<and>
    peer_reachable (ns_peer (ss_value info)) \<and> ns_peer (ss_value info) = p"
  using assms
  by (auto simp: sec_elder_candidates_def peers_elder_candidates_def pick_picked dest!: set_picked [THEN subsetD])

text \<open>A section of fourteen mature members on either side of its first bit.\<close>

definition split_keys :: "nat list" where
  "split_keys = map (\<lambda>i. 256 * i + 5) [0..<14] @ map (\<lambda>i. 2 ^ 255 + (256 * i + 5)) [0..<14]"

definition split_member :: "nat \<Rightarrow> peer" where
  "split_member k = set_reachable True (peer_new (of_nat k) 0)"

definition split_example :: "bls_public_key list section_state" where
  "split_example =
     \<lparr>sec_genesis_key = BlsPk 1, sec_chain = [BlsPk 1],
      sec_auth = token_signed 1 (section_auth_new [] [] (PkSet 1)),
      sec_members = map (\<lambda>k. (of_nat k, token_signed 1 (joined_state (split_member k)))) split_keys\<rparr>"

lemma split_keys_bound: "k \<in> set split_keys \<Longrightarrow> k < 2 ^ 256 \<and> k mod 256 = 5"
  by (auto simp: split_keys_def)

lemma split_keys_sorted: "sorted_wrt (<) split_keys"
  by (auto simp: split_keys_def sorted_wrt_append sorted_wrt_map intro: sorted_wrt_mono_rel [OF _ sorted_wrt_upt])

lemma split_example_inv: "peers_inv (sec_members split_example)"
proof -
  have "sorted_wrt (\<lambda>j k. of_nat j < (of_nat k :: xor_name)) split_keys"
    using split_keys_bound
    by (intro sorted_wrt_mono_rel [OF _ split_keys_sorted]) (auto simp: word_less_nat_alt unat_of_nat)
  then show ?thesis
    by (simp add: split_example_def peers_inv_def bt_inv_def sorted_wrt_map split_member_def)
qed

lemma split_member_mature: "k mod 256 = 5 \<Longrightarrow> is_mature (joined_state (split_member k))"
proof -
  assume "k mod 256 = 5"
  then have "unat (last_byte (of_nat k)) = 5"
    by (simp add: last_byte_def unsigned_ucast_eq unat_of_nat take_bit_eq_mod mod_mod_cancel)
  then show ?thesis
    by (simp add: is_mature_def peer_age_def MIN_AGE_def word_less_nat_alt split_member_def)
qed

lemma split_example_side:
  "length (mature_side token_env split_example b) = length (filter (\<lambda>k. bit k 255 = b) split_keys)"
proof -
  have "peers_mature (sec_members split_example) = map split_member split_keys"
    using split_keys_bound split_member_mature
    by (simp add: peers_mature_def peers_joined_def split_example_def o_def filter_map)
  moreover have "xn_bit (ev_xor token_env) (of_nat k) 0 = bit k 255" for k
    by (simp add: bit_ops_def name_bit_def bit_simps)
  ultimately show ?thesis
    by (simp add: mature_side_def filter_map o_def split_member_def)
      (simp add: split_example_def sec_prefix_def)
qed

lemma split_keys_sides: "length (filter (\<lambda>k. bit k 255 = b) split_keys) = 14"
proof -
  have "\<not> bit (256 * i + 5) 255" if "i < 14" for i :: nat
    using that by (simp add: bit_iff_odd)
  moreover have "bit (2 ^ 255 + (256 * i + 5)) 255" if "i < 14" for i :: nat
  proof -
    have "(2 ^ 255 + (256 * i + 5)) div 2 ^ 255 = (256 * i + 5) div 2 ^ 255 + 1" by (rule div_add_self1) simp
    moreover have "(256 * i + 5) div 2 ^ 255 = 0" using that by simp
    ultimately show ?thesis by (simp only: bit_iff_odd) simp
  qed
  ultimately show ?thesis
    by (cases b) (auto simp: split_keys_def filter_map o_def filter_empty_conv filter_id_conv)
qed

lemma split_example_splits: "try_split token_env split_example 5 \<noteq> None"
  using try_split_Some [of token_env split_example 5] bits.xor_space_axioms
  by (auto simp: split_example_side split_keys_sides RECOMMENDED_SECTION_SIZE_def ELDER_SIZE_def Let_def)
    (simp add: split_example_def sec_prefix_def)

section \<open>Properties\<close>

text \<open>C10. In every state a section can reach, from the first node or from a received section
  and through any sequence of merges, changes of elders and member updates, successful or
  not, the current authority provider is signed with the last key of the section chain, each
  member is stored under its own name, and the state of each member carries a valid
  signature by a key of the chain.\<close>

theorem section_reachable_inv:
  assumes "chain_laws (ev_chain E)" and "section_reachable E s"
  shows "section_inv E s"
  using assms(2)
proof induction
  case (reach_first_node pks sks peer s ks)
  then show ?case using first_node_inv [OF assms(1)] by blast
next
  case (reach_new genesis chain sa s)
  then show ?case by (rule section_new_inv)
next
  case (reach_step s s')
  then show ?case using section_step_inv [OF assms(1)] by blast
qed

theorem section_reachable_inv_witness:
  "section_inv token_env
     (snd (update_elders token_env
       \<lparr>sec_genesis_key = BlsPk 1, sec_chain = [BlsPk 1],
        sec_auth = token_signed 1 (section_auth_new [] [] (PkSet 1)), sec_members = []\<rparr>
       (token_signed 2 (section_auth_new [] [True] (PkSet 2))) \<lparr>sg_public_key = BlsPk 1, sg_signature = BlsSig 1\<rparr>))"
proof (rule section_reachable_inv)
  show "chain_laws (ev_chain token_env)" by (rule token_env_chain_laws)
  show "section_reachable token_env (snd (update_elders token_env
       \<lparr>sec_genesis_key = BlsPk 1, sec_chain = [BlsPk 1],
        sec_auth = token_signed 1 (section_auth_new [] [] (PkSet 1)), sec_members = []\<rparr>
       (token_signed 2 (section_auth_new [] [True] (PkSet 2))) \<lparr>sg_public_key = BlsPk 1, sg_signature = BlsSig 1\<rparr>))"
  proof (rule reach_step [OF _ step_update_elders])
    show "section_reachable token_env \<lparr>sec_genesis_key = BlsPk 1, sec_chain = [BlsPk 1],
        sec_auth = token_signed 1 (section_auth_new [] [] (PkSet 1)), sec_members = []\<rparr>"
      by (rule reach_new [of _ "BlsPk 1" "[BlsPk 1]" "token_signed 1 (section_auth_new [] [] (PkSet 1))"])
        (simp add: section_new_def list_chain_def)
  qed
qed

text \<open>C17. \<open>Section::merge\<close> either rejects the other section and changes nothing (an
  \<open>InvalidMessage\<close> when its authority provider is not validly signed with its own last key,
  an \<open>InvalidSectionChain\<close> when the chains do not fit), or it keeps the section invariant
  and leaves only members that match the prefix of the section.\<close>

theorem section_merge_correct:
  assumes "chain_laws (ev_chain E)" and "section_inv E s"
  shows "case section_merge E s other of
      (Inl e, s') \<Rightarrow> s' = s \<and>
        (if self_verify (ev_crypto E) PSectionAuth (sec_auth other) \<and>
            sg_public_key (ss_signed (sec_auth other)) = sll_last_key (ev_chain E) (sec_chain other)
         then \<exists>ce. sll_merge (ev_chain E) (sec_chain s) (sec_chain other) = Inl ce \<and> e = InvalidSectionChain ce
         else e = InvalidMessage)
    | (Inr _, s') \<Rightarrow> section_inv E s' \<and> members_match E s' \<and>
        set (sll_keys (ev_chain E) (sec_chain s)) \<subseteq> set (sll_keys (ev_chain E) (sec_chain s'))"
proof (cases "section_merge E s other")
  case (Pair r s')
  show ?thesis
  proof (cases r)
    case (Inl e)
    then show ?thesis using Pair
      by (auto simp: section_merge_def Let_def split: if_splits sum.splits)
  next
    case (Inr u)
    with Pair have ok: "section_merge E s other = (Inr (), s')" by (cases u) simp
    then have "section_inv E s'" "members_match E s'" using section_merge_inv [OF assms, of other] by simp_all
    moreover have "set (sll_keys (ev_chain E) (sec_chain s)) \<subseteq> set (sll_keys (ev_chain E) (sec_chain s'))"
    proof -
      obtain chain where "sll_merge (ev_chain E) (sec_chain s) (sec_chain other) = Inr chain" "sec_chain s' = chain"
        using ok [unfolded section_merge_Inr] by auto
      then show ?thesis using chain_laws_merge [OF assms(1), of "sec_chain s" "sec_chain other" chain] by blast
    qed
    ultimately show ?thesis using Pair Inr by simp
  qed
qed

theorem section_merge_correct_witness:
  "section_merge token_env
     \<lparr>sec_genesis_key = BlsPk 1, sec_chain = [BlsPk 1],
      sec_auth = token_signed 1 (section_auth_new [] [] (PkSet 1)), sec_members = []\<rparr>
     \<lparr>sec_genesis_key = BlsPk 1, sec_chain = [BlsPk 7],
      sec_auth = token_signed 8 (section_auth_new [] [] (PkSet 7)), sec_members = []\<rparr> =
   (Inl InvalidMessage,
     \<lparr>sec_genesis_key = BlsPk 1, sec_chain = [BlsPk 1],
      sec_auth = token_signed 1 (section_auth_new [] [] (PkSet 1)), sec_members = []\<rparr>)"
  using section_merge_correct [OF token_env_chain_laws, of
     "\<lparr>sec_genesis_key = BlsPk 1, sec_chain = [BlsPk 1],
      sec_auth = token_signed 1 (section_auth_new [] [] (PkSet 1)), sec_members = []\<rparr>"
     "\<lparr>sec_genesis_key = BlsPk 1, sec_chain = [BlsPk 7],
      sec_auth = token_signed 8 (section_auth_new [] [] (PkSet 7)), sec_members = []\<rparr>"]
  by (simp add: section_inv_def peers_inv_def list_chain_def section_merge_def)

text \<open>C15. A split divides the section in two: the two sets of elder candidates are for the
  two prefixes one bit longer than ours, ours being the one on our side; the candidates of
  each are joined reachable members that match its prefix, at most \<open>ELDER_SIZE\<close> of them, no
  node is a candidate on both sides, and each side has at least
  \<open>RECOMMENDED_SECTION_SIZE\<close> mature members.\<close>

theorem try_split_divides:
  assumes "xor_space (ev_xor E)" and "peers_inv (sec_members s)"
    and "try_split E s our_name = Some (ours, others)"
    and "pf_matches (ev_xor E) (sec_prefix s) our_name"
  shows "length (ec_prefix ours) = Suc (length (sec_prefix s)) \<and> length (ec_prefix ours) \<le> 256 \<and>
    ec_prefix others = pf_sibling (ev_xor E) (ec_prefix ours) \<and>
    butlast (ec_prefix ours) = sec_prefix s \<and>
    pf_matches (ev_xor E) (ec_prefix ours) our_name \<and>
    fst ` set (ec_elders ours) \<inter> fst ` set (ec_elders others) = {} \<and>
    (\<forall>ec \<in> {ours, others}. length (ec_elders ec) \<le> ELDER_SIZE \<and>
       (\<forall>name \<in> fst ` set (ec_elders ec).
          pf_matches (ev_xor E) (ec_prefix ec) name \<and> is_joined (sec_members s) name) \<and>
       RECOMMENDED_SECTION_SIZE \<le> length (mature_side E s (last (ec_prefix ec))))"
proof -
  let ?p = "sec_prefix s" and ?b = "xn_bit (ev_xor E) our_name (length (sec_prefix s))"
  note split = assms(3) [unfolded try_split_Some [OF assms(1)] Let_def]
  have len: "length ?p < 256" using split by simp
  have pre: "ec_prefix ours = ?p @ [?b]" "ec_prefix others = ?p @ [\<not> ?b]" using split by simp_all
  have m: "pf_matches (ev_xor E) (?p @ [c]) n \<longleftrightarrow> pf_matches (ev_xor E) ?p n \<and> xn_bit (ev_xor E) n (length ?p) = c"
    for c n by (rule xor_space.matches_snoc [OF assms(1) len])
  have ours: "pf_matches (ev_xor E) (?p @ [?b]) name \<and> is_joined (sec_members s) name"
    if "name \<in> fst ` set (ec_elders ours)" for name
    using that split candidate_names [OF assms(2)] by blast
  have others: "pf_matches (ev_xor E) (?p @ [\<not> ?b]) name \<and> is_joined (sec_members s) name"
    if "name \<in> fst ` set (ec_elders others)" for name
    using that split candidate_names [OF assms(2)] by blast
  have "length (ec_elders ours) \<le> ELDER_SIZE" "length (ec_elders others) \<le> ELDER_SIZE"
    using split length_candidates by simp_all
  moreover have "fst ` set (ec_elders ours) \<inter> fst ` set (ec_elders others) = {}"
    using ours others unfolding m by blast
  moreover have "pf_matches (ev_xor E) (?p @ [?b]) our_name" using assms(4) m by simp
  moreover have "RECOMMENDED_SECTION_SIZE \<le> length (mature_side E s ?b)"
    "RECOMMENDED_SECTION_SIZE \<le> length (mature_side E s (\<not> ?b))" using split by simp_all
  ultimately show ?thesis using ours others len by (simp add: pre xor_space.sibling [OF assms(1)])
qed

theorem try_split_divides_witness:
  "\<exists>ours others. try_split token_env split_example 5 = Some (ours, others) \<and>
     fst ` set (ec_elders ours) \<inter> fst ` set (ec_elders others) = {}"
proof -
  obtain ours others where some: "try_split token_env split_example 5 = Some (ours, others)"
    using split_example_splits by (cases "try_split token_env split_example 5") auto
  then show ?thesis
    using try_split_divides [of token_env split_example 5 ours others] bits.xor_space_axioms split_example_inv
    by (auto simp: split_example_def sec_prefix_def)
qed

text \<open>C16. When the section does not split, a new set of elders is proposed only if it differs
  from the current one, and never one that has fewer members than a supermajority of the
  current elders; it has at most \<open>ELDER_SIZE\<close> members, all of them active and reachable
  members of the section, and keeps the prefix.\<close>

theorem promote_and_demote_keeps_supermajority:
  assumes "sap_inv (authority_provider s)" and "try_split E s our_name = None"
  shows "promote_and_demote_elders E s our_name = [] \<or>
    (\<exists>ec. promote_and_demote_elders E s our_name = [ec] \<and>
       ec_prefix ec = sec_prefix s \<and>
       fst ` set (ec_elders ec) \<noteq> fst ` set (sa_elders (authority_provider s)) \<and>
       supermajority (elder_count (authority_provider s)) \<le> length (ec_elders ec) \<and>
       length (ec_elders ec) \<le> ELDER_SIZE \<and>
       (\<forall>name \<in> fst ` set (ec_elders ec). \<exists>info \<in> set (bt_values (sec_members s)).
          is_active (ss_value info) (authority_provider s) \<and>
          peer_reachable (ns_peer (ss_value info)) \<and> peer_name (ns_peer (ss_value info)) = name))"
proof -
  let ?ps = "sec_elder_candidates E s ELDER_SIZE"
  let ?ec = "elder_candidates_new ?ps (sec_prefix s)"
  have "bt_inv (ec_elders ?ec)" using ec_inv_new by (simp add: ec_inv_def)
  then have len: "length (bts_collect (map peer_name ?ps)) = length (ec_elders ?ec)"
    using length_bt_card [of "ec_elders ?ec"] by (simp add: length_bts_collect names_elder_candidates_new)
  have cur: "length (sap_names (authority_provider s)) = elder_count (authority_provider s)"
    using assms(1) by (simp add: sap_names_def length_bts_collect elder_count_def sap_inv_def length_bt_card)
  have "length ?ps \<le> ELDER_SIZE"
    by (simp add: sec_elder_candidates_def peers_elder_candidates_def pick_picked length_picked)
  then have "length (ec_elders ?ec) \<le> ELDER_SIZE"
    using length_bt_collect [of "map (\<lambda>p. (peer_name p, peer_addr p)) ?ps"] by (simp add: elder_candidates_new_def)
  moreover have "\<exists>info \<in> set (bt_values (sec_members s)).
      is_active (ss_value info) (authority_provider s) \<and>
      peer_reachable (ns_peer (ss_value info)) \<and> peer_name (ns_peer (ss_value info)) = name"
    if "name \<in> fst ` set (ec_elders ?ec)" for name
    using that elder_candidate_info [of _ E s ELDER_SIZE] by (auto simp: names_elder_candidates_new)
  moreover have "bts_collect (map peer_name ?ps) = sap_names (authority_provider s) \<longleftrightarrow>
      fst ` set (ec_elders ?ec) = fst ` set (sa_elders (authority_provider s))"
    by (simp add: sap_names_def bts_collect_eq_iff names_elder_candidates_new)
  ultimately show ?thesis
    using assms(2) len cur
    by (simp add: promote_and_demote_elders_def Let_def sec_prefix_def authority_provider_def)
qed

theorem promote_and_demote_keeps_supermajority_witness:
  "promote_and_demote_elders token_env
     \<lparr>sec_genesis_key = BlsPk 1, sec_chain = [BlsPk 1],
      sec_auth = token_signed 1 (section_auth_new [peer_new 3 0, peer_new 4 0] [] (PkSet 1)), sec_members = []\<rparr> 3 = []"
  using promote_and_demote_keeps_supermajority [of
     "\<lparr>sec_genesis_key = BlsPk 1, sec_chain = [BlsPk 1],
      sec_auth = token_signed 1 (section_auth_new [peer_new 3 0, peer_new 4 0] [] (PkSet 1)), sec_members = []\<rparr>"
     token_env 3]
  by (auto simp: authority_provider_def try_split_def sec_prefix_def peers_mature_def peers_joined_def
      RECOMMENDED_SECTION_SIZE_def ELDER_SIZE_def Let_def supermajority_def)

end
