(* ===== verification/Prefix_Map.thy ===== *)
theory Prefix_Map
  imports Wire_Types
begin

text \<open>
  The container of \<open>src/network/prefix_map.rs\<close>: a \<open>BTreeSet\<close> of entries ordered by their
  prefixes, from which an entry disappears once its descendants cover it. \<open>bw\<close> is the
  entry type's \<open>Borrow<Prefix>\<close>; the set is the list of its entries in order. The two loops
  walk up to the empty prefix by \<open>popped\<close>, a function of the crate \<open>xor_name\<close>, so they
  are partial functions that are shown to return. \<open>src/network/mod.rs\<close> comments the module out; the map the
  crate links is that of \<open>sn_messaging\<close>.
\<close>

section \<open>The ordered set of entries\<close>

fun set_replace :: "xor_ops \<Rightarrow> ('e \<Rightarrow> pfx) \<Rightarrow> 'e \<Rightarrow> 'e list \<Rightarrow> 'e option \<times> 'e list" where
  "set_replace X bw e [] = (None, [e])"
| "set_replace X bw e (x # m) =
     (case pf_cmp X (bw e) (bw x) of
        Less \<Rightarrow> (None, e # x # m)
      | Equal \<Rightarrow> (Some x, e # m)
      | Greater \<Rightarrow> let (old, m') = set_replace X bw e m in (old, x # m'))"

definition set_remove :: "xor_ops \<Rightarrow> ('e \<Rightarrow> pfx) \<Rightarrow> pfx \<Rightarrow> 'e list \<Rightarrow> 'e list" where
  "set_remove X bw p m = filter (\<lambda>e. pf_cmp X (bw e) p \<noteq> Equal) m"

section \<open>Operations\<close>

definition prefix_map_new :: "'e list" where
  "prefix_map_new = []"

definition prefix_map_get :: "xor_ops \<Rightarrow> ('e \<Rightarrow> pfx) \<Rightarrow> 'e list \<Rightarrow> pfx \<Rightarrow> 'e option" where
  "prefix_map_get X bw m p = find (\<lambda>e. pf_cmp X (bw e) p = Equal) m"

definition descendants :: "xor_ops \<Rightarrow> ('e \<Rightarrow> pfx) \<Rightarrow> 'e list \<Rightarrow> pfx \<Rightarrow> 'e list" where
  "descendants X bw m p = filter (\<lambda>e. pf_is_extension_of X (bw e) p) m"

partial_function (option) prune :: "xor_ops \<Rightarrow> ('e \<Rightarrow> pfx) \<Rightarrow> pfx \<Rightarrow> 'e list \<Rightarrow> 'e list option" where
  "prune X bw p m =
     (let m' = if pf_is_covered_by X p (map bw (descendants X bw m p)) then set_remove X bw p m else m
      in if pf_is_empty X p then Some m' else prune X bw (pf_popped X p) m')"

definition prefix_map_insert ::
  "xor_ops \<Rightarrow> ('e \<Rightarrow> pfx) \<Rightarrow> 'e list \<Rightarrow> 'e \<Rightarrow> ('e option \<times> 'e list) option" where
  "prefix_map_insert X bw m entry =
     (if descendants X bw m (bw entry) \<noteq> [] then Some (Some entry, m)
      else let parent_prefix = pf_popped X (bw entry);
               (old, m1) = set_replace X bw entry m
           in map_option (Pair old) (prune X bw parent_prefix m1))"

partial_function (option) get_equal_or_ancestor ::
  "xor_ops \<Rightarrow> ('e \<Rightarrow> pfx) \<Rightarrow> 'e list \<Rightarrow> pfx \<Rightarrow> 'e option option" where
  "get_equal_or_ancestor X bw m p =
     (case prefix_map_get X bw m p of
        Some e \<Rightarrow> Some (Some e)
      | None \<Rightarrow> if pf_is_empty X p then Some None
                else get_equal_or_ancestor X bw m (pf_popped X p))"

definition get_matching :: "xor_ops \<Rightarrow> ('e \<Rightarrow> pfx) \<Rightarrow> 'e list \<Rightarrow> xor_name \<Rightarrow> error + 'e" where
  "get_matching X bw m n =
     ok_or NoMatchingSection
       (max_by_key (\<lambda>e. pf_bit_count X (bw e)) (filter (\<lambda>e. pf_matches X (bw e) n) m))"

fun from_iter_onto :: "xor_ops \<Rightarrow> ('e \<Rightarrow> pfx) \<Rightarrow> 'e list \<Rightarrow> 'e list \<Rightarrow> 'e list option" where
  "from_iter_onto X bw m [] = Some m"
| "from_iter_onto X bw m (e # es) =
     (case prefix_map_insert X bw m e of None \<Rightarrow> None | Some (_, m') \<Rightarrow> from_iter_onto X bw m' es)"

definition from_iter :: "xor_ops \<Rightarrow> ('e \<Rightarrow> pfx) \<Rightarrow> 'e list \<Rightarrow> 'e list option" where
  "from_iter X bw es = from_iter_onto X bw prefix_map_new es"

definition prefix_map_eq :: "'e list \<Rightarrow> 'e list \<Rightarrow> bool" where
  "prefix_map_eq a b \<longleftrightarrow> length a = length b \<and> list_all (\<lambda>(l, r). l = r) (zip a b)"

section \<open>What an insertion can store\<close>

lemma set_replace_subset: "set (snd (set_replace X bw e m)) \<subseteq> insert e (set m)"
  by (induction m) (auto split: ordering.splits prod.splits simp: split_beta)

lemma prune_subset:
  fixes m :: "'e list"
  assumes "prune X bw p m = Some m'"
  shows "set m' \<subseteq> set m"
proof (rule prune.raw_induct [of "\<lambda>X bw p m m'. set m' \<subseteq> set m", OF _ assms])
  fix prune :: "xor_ops \<Rightarrow> ('e \<Rightarrow> pfx) \<Rightarrow> pfx \<Rightarrow> 'e list \<Rightarrow> 'e list option"
    and X p m' and bw :: "'e \<Rightarrow> pfx" and m :: "'e list"
  assume IH: "\<And>X bw p m m'. prune X bw p m = Some m' \<Longrightarrow> set m' \<subseteq> set m"
  have "set (set_remove X bw p m) \<subseteq> set m" by (auto simp: set_remove_def)
  moreover assume "(let m' = if pf_is_covered_by X p (map bw (descendants X bw m p)) then set_remove X bw p m else m
      in if pf_is_empty X p then Some m' else prune X bw (pf_popped X p) m') = Some m'"
  ultimately show "set m' \<subseteq> set m" using IH [of X bw "pf_popped X p" _ m'] by (auto simp: Let_def split: if_splits)
qed

section \<open>Invariant\<close>

text \<open>The entries are in strict order of their prefixes, no prefix has more bits than a
  name, and no entry is covered by its descendants.\<close>

definition pm_sorted :: "xor_ops \<Rightarrow> ('e \<Rightarrow> pfx) \<Rightarrow> 'e list \<Rightarrow> bool" where
  "pm_sorted X bw m \<longleftrightarrow> sorted_wrt (\<lambda>a b. pf_cmp X (bw a) (bw b) = Less) m"

definition pm_inv :: "xor_ops \<Rightarrow> ('e \<Rightarrow> pfx) \<Rightarrow> 'e list \<Rightarrow> bool" where
  "pm_inv X bw m \<longleftrightarrow> pm_sorted X bw m \<and>
     (\<forall>e \<in> set m. length (bw e) \<le> 256 \<and>
        \<not> pf_is_covered_by X (bw e) (map bw (descendants X bw m (bw e))))"

definition pm_covers :: "xor_ops \<Rightarrow> ('e \<Rightarrow> pfx) \<Rightarrow> 'e list \<Rightarrow> xor_name \<Rightarrow> bool" where
  "pm_covers X bw m n \<longleftrightarrow> list_ex (\<lambda>e. pf_matches X (bw e) n) m"

text \<open>One iteration of the loop of \<open>prune\<close>.\<close>

definition prune_step :: "xor_ops \<Rightarrow> ('e \<Rightarrow> pfx) \<Rightarrow> pfx \<Rightarrow> 'e list \<Rightarrow> 'e list" where
  "prune_step X bw p m =
     (if pf_is_covered_by X p (map bw (descendants X bw m p)) then set_remove X bw p m else m)"

definition pruned_at :: "xor_ops \<Rightarrow> ('e \<Rightarrow> pfx) \<Rightarrow> 'e list \<Rightarrow> 'e \<Rightarrow> bool" where
  "pruned_at X bw m e \<longleftrightarrow> \<not> pf_is_covered_by X (bw e) (map bw (descendants X bw m (bw e)))"

text \<open>What \<open>prune\<close> does from \<open>p\<close> upwards: it removes only ancestors of \<open>p\<close> (or \<open>p\<close>
  itself), covers the same names as before, and leaves none of them redundant.\<close>

definition pruned_from :: "xor_ops \<Rightarrow> ('e \<Rightarrow> pfx) \<Rightarrow> pfx \<Rightarrow> 'e list \<Rightarrow> 'e list \<Rightarrow> bool" where
  "pruned_from X bw p m m' \<longleftrightarrow> pm_sorted X bw m' \<and> set m' \<subseteq> set m \<and>
     (\<forall>e \<in> set m - set m'. prefix (bw e) p) \<and>
     (\<forall>n. pm_covers X bw m' n = pm_covers X bw m n) \<and>
     (\<forall>e \<in> set m'. prefix (bw e) p \<longrightarrow> pruned_at X bw m' e)"

definition inserted :: "xor_ops \<Rightarrow> ('e \<Rightarrow> pfx) \<Rightarrow> 'e \<Rightarrow> 'e list \<Rightarrow> 'e list \<Rightarrow> bool" where
  "inserted X bw e m m' \<longleftrightarrow> pm_inv X bw m' \<and> e \<in> set m' \<and> set m' \<subseteq> insert e {x \<in> set m. bw x \<noteq> bw e} \<and>
     (\<forall>n. pm_covers X bw m' n \<longleftrightarrow> pm_covers X bw m n \<or> pf_matches X (bw e) n) \<and>
     (\<forall>x \<in> set m. bw x \<noteq> bw e \<longrightarrow> x \<notin> set m' \<longrightarrow> strict_prefix (bw x) (bw e))"

context xor_space
begin

lemma cmp_Less_trans: "pf_cmp X a b = Less \<Longrightarrow> pf_cmp X b c = Less \<Longrightarrow> pf_cmp X a c = Less"
  using total_cmp.cmp_trans [OF pf_cmp_total] total_cmp.cmp_swap [OF pf_cmp_total] pf_cmp_Equal
  by (metis ordering.exhaust ordering.simps(2,4))

lemma pf_cmp_refl [simp]: "pf_cmp X p p = Equal"
  by simp

lemma cmp_Greater: "pf_cmp X a b = Greater \<longleftrightarrow> pf_cmp X b a = Less"
  using total_cmp.cmp_swap [OF pf_cmp_total] by blast

lemma set_set_replace:
  "pm_sorted X bw m \<Longrightarrow> set (snd (set_replace X bw e m)) = insert e {x \<in> set m. bw x \<noteq> bw e}"
proof (induction m)
  case (Cons x m)
  have "bw y \<noteq> bw e" if "pf_cmp X (bw e) (bw x) \<noteq> Greater" "y \<in> set m" for y
  proof (cases "pf_cmp X (bw e) (bw x)")
    case Less
    then show ?thesis using Cons.prems that(2) cmp_Less_trans [of "bw e" "bw x" "bw y"]
      by (auto simp: pm_sorted_def)
  next
    case Equal
    then show ?thesis using Cons.prems that(2) by (auto simp: pm_sorted_def)
  qed (use that in simp)
  then show ?case using Cons by (auto simp: pm_sorted_def split_beta split: ordering.splits)
qed simp

lemma sorted_set_replace: "pm_sorted X bw m \<Longrightarrow> pm_sorted X bw (snd (set_replace X bw e m))"
proof (induction m)
  case (Cons x m)
  then show ?case
    using set_set_replace [of bw m e]
    by (auto simp: pm_sorted_def split_beta cmp_Greater split: ordering.splits dest: cmp_Less_trans)
qed (simp add: pm_sorted_def)

lemma set_set_remove [simp]: "set (set_remove X bw p m) = {e \<in> set m. bw e \<noteq> p}"
  by (auto simp: set_remove_def)

lemma sorted_set_remove [simp]: "pm_sorted X bw m \<Longrightarrow> pm_sorted X bw (set_remove X bw p m)"
  by (simp add: pm_sorted_def set_remove_def sorted_wrt_filter)

lemma set_descendants [simp]: "set (descendants X bw m p) = {e \<in> set m. strict_prefix p (bw e)}"
  by (auto simp: descendants_def)

lemma pm_sorted_inj: "pm_sorted X bw m \<Longrightarrow> inj_on bw (set m)"
  by (induction m) (auto simp: pm_sorted_def total_cmp.cmp_refl [OF pf_cmp_total])

lemma get_iff: "pm_sorted X bw m \<Longrightarrow> prefix_map_get X bw m p = Some e \<longleftrightarrow> e \<in> set m \<and> bw e = p"
  by (induction m) (auto simp: prefix_map_get_def pm_sorted_def)

lemma get_None: "prefix_map_get X bw m p = None \<longleftrightarrow> (\<forall>e \<in> set m. bw e \<noteq> p)"
  by (auto simp: prefix_map_get_def find_None_iff)

lemma covered_mono: "pf_is_covered_by X p ps \<Longrightarrow> set ps \<subseteq> set qs \<Longrightarrow> pf_is_covered_by X p qs"
  by (auto simp: covered_iff)

lemma pm_covers_iff: "pm_covers X bw m n \<longleftrightarrow> (\<exists>e \<in> set m. pf_matches X (bw e) n)"
  by (auto simp: pm_covers_def list_ex_iff)

lemma prune_unfold:
  "prune X bw p m = (if p = [] then Some (prune_step X bw p m) else prune X bw (butlast p) (prune_step X bw p m))"
  by (subst prune.simps) (simp add: prune_step_def)

lemma prune_step_sorted [simp]: "pm_sorted X bw m \<Longrightarrow> pm_sorted X bw (prune_step X bw p m)"
  by (simp add: prune_step_def)

lemma prune_step_subset: "set (prune_step X bw p m) \<subseteq> set m"
  by (auto simp: prune_step_def)

lemma prune_step_removed: "e \<in> set m \<Longrightarrow> e \<notin> set (prune_step X bw p m) \<Longrightarrow> bw e = p"
  by (auto simp: prune_step_def split: if_splits)

lemma prune_step_covers: "pm_covers X bw (prune_step X bw p m) n = pm_covers X bw m n"
proof (cases "pf_is_covered_by X p (map bw (descendants X bw m p))")
  case True
  then have "pf_matches X p n \<Longrightarrow> \<exists>e \<in> set m. strict_prefix p (bw e) \<and> pf_matches X (bw e) n"
    by (auto simp: covered_iff)
  then show ?thesis using True by (auto simp: prune_step_def pm_covers_iff)
qed (simp add: prune_step_def)

lemma prune_step_uncovered:
  assumes "e \<in> set (prune_step X bw p m)" "bw e = p"
  shows "\<not> pf_is_covered_by X p (map bw (descendants X bw m p))"
  using assms by (auto simp: prune_step_def split: if_splits)

lemma pruned_at_mono: "pruned_at X bw m e \<Longrightarrow> set m' \<subseteq> set m \<Longrightarrow> pruned_at X bw m' e"
  unfolding pruned_at_def by (erule contrapos_nn, erule covered_mono) auto

lemma prune_spec:
  assumes "pm_sorted X bw m"
  shows "\<exists>m'. prune X bw p m = Some m' \<and> pruned_from X bw p m m'"
  using assms
proof (induction p arbitrary: m rule: rev_induct)
  case Nil
  have "pruned_at X bw (prune_step X bw [] m) e" if "e \<in> set (prune_step X bw [] m)" "bw e = []" for e
    using prune_step_uncovered [OF that] pruned_at_mono [OF _ prune_step_subset [of bw "[]" m], of bw e]
      that(2)
    by (simp add: pruned_at_def)
  then show ?case
    using Nil.prems prune_step_subset [of bw "[]" m]
    by (auto simp: prune_unfold [of bw "[]"] pruned_from_def prune_step_covers dest: prune_step_removed)
next
  case (snoc b q)
  let ?m1 = "prune_step X bw (q @ [b]) m"
  obtain m' where m': "prune X bw q ?m1 = Some m'" "pruned_from X bw q ?m1 m'"
    using snoc.IH [OF prune_step_sorted [OF snoc.prems]] by blast
  then have sub1: "set m' \<subseteq> set ?m1" by (simp add: pruned_from_def)
  then have sub: "set m' \<subseteq> set m" using prune_step_subset [of bw "q @ [b]" m] by blast
  have "pruned_at X bw m' e" if e: "e \<in> set m'" "prefix (bw e) (q @ [b])" for e
  proof (cases "bw e = q @ [b]")
    case True
    then have "pruned_at X bw m e"
      using prune_step_uncovered [of e bw "q @ [b]" m] sub1 e(1) by (auto simp: pruned_at_def)
    then show ?thesis by (rule pruned_at_mono [OF _ sub])
  next
    case False
    then have "prefix (bw e) q" using e(2) by (simp add: prefix_snoc)
    then show ?thesis using m'(2) e(1) unfolding pruned_from_def by blast
  qed
  moreover have "prefix (bw e) (q @ [b])" if "e \<in> set m" "e \<notin> set m'" for e
  proof (cases "e \<in> set ?m1")
    case True
    then have "prefix (bw e) q" using m'(2) that(2) unfolding pruned_from_def by blast
    then show ?thesis by simp
  qed (use prune_step_removed [of e m bw "q @ [b]"] that(1) in simp)
  ultimately have "pruned_from X bw (q @ [b]) m m'"
    using m'(2) sub unfolding pruned_from_def prune_step_covers by blast
  moreover have "prune X bw (q @ [b]) m = Some m'" using m'(1) by (subst prune_unfold) simp
  ultimately show ?case by blast
qed

lemma pm_inv_iff:
  "pm_inv X bw m \<longleftrightarrow> pm_sorted X bw m \<and> (\<forall>e \<in> set m. length (bw e) \<le> 256 \<and> pruned_at X bw m e)"
  by (simp add: pm_inv_def pruned_at_def)

lemma pruned_at_same_descendants:
  "pruned_at X bw m e \<Longrightarrow> {x \<in> set m'. strict_prefix (bw e) (bw x)} \<subseteq> {x \<in> set m. strict_prefix (bw e) (bw x)}
    \<Longrightarrow> pruned_at X bw m' e"
  unfolding pruned_at_def by (erule contrapos_nn, erule covered_mono) auto

lemma pruned_at_leaf:
  assumes "length (bw e) \<le> 256" "\<And>x. x \<in> set m \<Longrightarrow> \<not> strict_prefix (bw e) (bw x)"
  shows "pruned_at X bw m e"
proof -
  obtain n where "pf_matches X (bw e) n" using matches_exists assms(1) by blast
  then show ?thesis using assms(2) by (auto simp: pruned_at_def covered_iff)
qed

text \<open>Insertion of an entry none of whose descendants is present.\<close>

lemma prefix_butlast_iff: "q \<noteq> [] \<Longrightarrow> prefix p (butlast q) \<longleftrightarrow> strict_prefix p q"
  by (cases q rule: rev_exhaust) (auto simp: strict_prefix_def prefix_snoc)

lemma insert_spec:
  assumes inv: "pm_inv X bw m" and len: "length (bw e) \<le> 256"
    and leaf: "\<And>x. x \<in> set m \<Longrightarrow> \<not> strict_prefix (bw e) (bw x)"
  shows "\<exists>m'. prefix_map_insert X bw m e = Some (fst (set_replace X bw e m), m') \<and> inserted X bw e m m'"
proof -
  let ?m1 = "snd (set_replace X bw e m)"
  have srt: "pm_sorted X bw m" using inv by (simp add: pm_inv_def)
  have m1: "set ?m1 = insert e {x \<in> set m. bw x \<noteq> bw e}" by (rule set_set_replace [OF srt])
  obtain m' where m': "prune X bw (butlast (bw e)) ?m1 = Some m'" "pruned_from X bw (butlast (bw e)) ?m1 m'"
    using prune_spec [OF sorted_set_replace [OF srt]] by blast
  have sub: "set m' \<subseteq> set ?m1" using m'(2) by (simp add: pruned_from_def)
  have e_pruned: "pruned_at X bw m' e"
    using sub m1 leaf by (intro pruned_at_leaf len) auto
  have covers1: "pm_covers X bw ?m1 n \<longleftrightarrow> pm_covers X bw m n \<or> pf_matches X (bw e) n" for n
    using m1 by (auto simp: pm_covers_iff)
  have root: "set ?m1 = {e}" if "bw e = []" using that m1 leaf by (auto simp: strict_prefix_def)
  have "e \<in> set m'"
  proof (cases "bw e = []")
    case True
    then have "pm_covers X bw ?m1 n" for n using covers1 [of n] by simp
    then have "pm_covers X bw m' n" for n using m'(2) unfolding pruned_from_def by blast
    then show ?thesis using root [OF True] sub by (auto simp: pm_covers_iff)
  next
    case False
    then show ?thesis
      using m'(2) m1 prefix_butlast_iff [of "bw e" "bw e"] by (auto simp: pruned_from_def)
  qed
  moreover have "pruned_at X bw m' x" if x: "x \<in> set m'" for x
  proof (cases "x = e \<or> strict_prefix (bw x) (bw e)")
    case True
    then show ?thesis
    proof
      assume anc: "strict_prefix (bw x) (bw e)"
      then have "prefix (bw x) (butlast (bw e))" by (subst prefix_butlast_iff) auto
      then show ?thesis using m'(2) x unfolding pruned_from_def by blast
    qed (use e_pruned in simp)
  next
    case False
    then have "pruned_at X bw m x" using x sub m1 inv by (auto simp: pm_inv_iff)
    then show ?thesis using False sub m1 by (intro pruned_at_same_descendants [of bw m x m']) auto
  qed
  moreover have "strict_prefix (bw x) (bw e)" if "x \<in> set m" "bw x \<noteq> bw e" "x \<notin> set m'" for x
  proof -
    have x: "x \<in> set ?m1" using that m1 by simp
    then have "prefix (bw x) (butlast (bw e))" using m'(2) that(3) unfolding pruned_from_def by blast
    moreover have "bw e \<noteq> []" using root x that(2) by auto
    ultimately show ?thesis by (simp add: prefix_butlast_iff)
  qed
  moreover have "\<forall>x \<in> set m'. length (bw x) \<le> 256" using sub m1 inv len by (auto simp: pm_inv_iff)
  moreover have "pm_sorted X bw m'" "pm_covers X bw m' n \<longleftrightarrow> pm_covers X bw ?m1 n" for n
    using m'(2) by (simp_all add: pruned_from_def)
  ultimately have "inserted X bw e m m'"
    using sub unfolding inserted_def pm_inv_iff m1 covers1 by blast
  moreover have "prefix_map_insert X bw m e = Some (fst (set_replace X bw e m), m')"
    using leaf m'(1) by (auto simp: prefix_map_insert_def split_beta descendants_def filter_empty_conv)
  ultimately show ?thesis by blast
qed

lemma insert_refused:
  "x \<in> set m \<Longrightarrow> strict_prefix (bw e) (bw x) \<Longrightarrow> prefix_map_insert X bw m e = Some (Some e, m)"
  by (auto simp: prefix_map_insert_def descendants_def filter_empty_conv)

lemma fst_set_replace: "pm_sorted X bw m \<Longrightarrow> fst (set_replace X bw e m) = prefix_map_get X bw m (bw e)"
proof (induction m)
  case (Cons x m)
  have "find (\<lambda>y. bw y = bw e) m = None" if "pf_cmp X (bw e) (bw x) = Less"
    using Cons.prems that cmp_Less_trans [of "bw e" "bw x"]
    by (fastforce simp: find_None_iff pm_sorted_def)
  moreover have "bw x \<noteq> bw e" if "pf_cmp X (bw e) (bw x) \<noteq> Equal" using that by auto
  ultimately show ?case using Cons
    by (auto simp: prefix_map_get_def pm_sorted_def split_beta split: ordering.split)
qed (simp add: prefix_map_get_def)

lemma get_matching_Inr:
  assumes "get_matching X bw m n = Inr e"
  shows "e \<in> set m \<and> pf_matches X (bw e) n \<and> (\<forall>x \<in> set m. pf_matches X (bw x) n \<longrightarrow> prefix (bw x) (bw e))"
proof -
  have max: "max_by_key (\<lambda>e. length (bw e)) (filter (\<lambda>e. pf_matches X (bw e) n) m) = Some e"
    using assms by (auto simp: get_matching_def ok_or_def split: option.splits)
  then have e: "e \<in> set m" "pf_matches X (bw e) n" using max_by_key_mem [OF max] by auto
  moreover have "prefix (bw x) (bw e)" if "x \<in> set m" "pf_matches X (bw x) n" for x
    using max_by_key_max [OF max, of x] that e(2) by (intro matches_compatible) auto
  ultimately show ?thesis by blast
qed

lemma get_matching_Inl:
  "get_matching X bw m n = Inl err \<longleftrightarrow> err = NoMatchingSection \<and> \<not> pm_covers X bw m n"
  using max_by_key_None [of "\<lambda>e. length (bw e)" "filter (\<lambda>e. pf_matches X (bw e) n) m"]
  by (cases "max_by_key (\<lambda>e. length (bw e)) (filter (\<lambda>e. pf_matches X (bw e) n) m)")
    (auto simp: get_matching_def pm_covers_iff filter_empty_conv)

lemma get_matching_eq:
  assumes "pm_sorted X bw m" "e \<in> set m" "pf_matches X (bw e) n"
    and "\<And>x. x \<in> set m \<Longrightarrow> \<not> strict_prefix (bw e) (bw x)"
  shows "get_matching X bw m n = Inr e"
proof (cases "get_matching X bw m n")
  case (Inl err)
  then show ?thesis using assms by (auto simp: get_matching_Inl pm_covers_iff)
next
  case (Inr x)
  then have "x \<in> set m" "prefix (bw e) (bw x)" using get_matching_Inr [OF Inr] assms(2,3) by blast+
  then have "bw x = bw e" using assms(4) [of x] by (auto simp: strict_prefix_def)
  then show ?thesis using Inr pm_sorted_inj [OF assms(1)] \<open>x \<in> set m\<close> assms(2) by (auto dest: inj_onD)
qed

lemma get_equal_or_ancestor_spec:
  assumes "pm_sorted X bw m"
  shows "\<exists>r. get_equal_or_ancestor X bw m p = Some r \<and>
    (case r of None \<Rightarrow> \<forall>x \<in> set m. \<not> prefix (bw x) p
     | Some e \<Rightarrow> e \<in> set m \<and> prefix (bw e) p \<and> (\<forall>x \<in> set m. prefix (bw x) p \<longrightarrow> prefix (bw x) (bw e)))"
proof (induction p rule: rev_induct)
  case Nil
  show ?case
    by (subst get_equal_or_ancestor.simps) (auto simp: get_iff [OF assms] get_None split: option.split)
next
  case (snoc b q)
  show ?case
  proof (cases "prefix_map_get X bw m (q @ [b])")
    case None
    then have "prefix (bw x) (q @ [b]) \<longleftrightarrow> prefix (bw x) q" if "x \<in> set m" for x
      using that by (auto simp: get_None prefix_snoc)
    then show ?thesis using snoc None
      by (subst get_equal_or_ancestor.simps) (auto split: option.splits)
  next
    case (Some e)
    then have "get_equal_or_ancestor X bw m (q @ [b]) = Some (Some e)"
      by (subst get_equal_or_ancestor.simps) simp
    then show ?thesis using Some by (auto simp: get_iff [OF assms])
  qed
qed

text \<open>Once in the map, an entry without descendants stays there.\<close>

lemma from_iter_onto_keeps:
  assumes "pm_inv X bw m" "\<forall>x \<in> set es. length (bw x) \<le> 256"
    and "e \<in> set m \<or> e \<in> set es" "\<forall>x \<in> set es. bw x = bw e \<longrightarrow> x = e"
    and "\<forall>x \<in> set m \<union> set es. \<not> strict_prefix (bw e) (bw x)"
  shows "\<exists>m'. from_iter_onto X bw m es = Some m' \<and> pm_inv X bw m' \<and> e \<in> set m' \<and> set m' \<subseteq> set m \<union> set es"
  using assms
proof (induction es arbitrary: m)
  case (Cons a es)
  show ?case
  proof (cases "\<exists>x \<in> set m. strict_prefix (bw a) (bw x)")
    case True
    then obtain x where "x \<in> set m" "strict_prefix (bw a) (bw x)" by blast
    then have "prefix_map_insert X bw m a = Some (Some a, m)" by (rule insert_refused)
    moreover have "e \<in> set m \<or> e \<in> set es" using True Cons.prems by auto
    then have "\<exists>m'. from_iter_onto X bw m es = Some m' \<and> pm_inv X bw m' \<and> e \<in> set m' \<and> set m' \<subseteq> set m \<union> set es"
      using Cons.prems by (intro Cons.IH) auto
    ultimately show ?thesis by auto
  next
    case False
    have "length (bw a) \<le> 256" using Cons.prems(2) by simp
    then have "\<exists>m1. prefix_map_insert X bw m a = Some (fst (set_replace X bw a m), m1) \<and> inserted X bw a m m1"
      using False by (intro insert_spec [OF Cons.prems(1)]) auto
    then obtain m1
      where m1: "prefix_map_insert X bw m a = Some (fst (set_replace X bw a m), m1)" "inserted X bw a m m1"
      by blast
    have sub: "set m1 \<subseteq> insert a (set m)" and inv1: "pm_inv X bw m1" and a: "a \<in> set m1"
      using m1(2) unfolding inserted_def by blast+
    have e1: "e \<in> set m1 \<or> e \<in> set es"
    proof (cases "e \<in> set m \<and> bw e \<noteq> bw a")
      case True
      then have "e \<in> set m1 \<or> strict_prefix (bw e) (bw a)" using m1(2) unfolding inserted_def by blast
      then show ?thesis using Cons.prems(5) by auto
    next
      case False
      then show ?thesis using a Cons.prems(3,4) by auto
    qed
    have leaf: "\<forall>x \<in> set m1 \<union> set es. \<not> strict_prefix (bw e) (bw x)" using Cons.prems(5) sub by auto
    obtain m' where m': "from_iter_onto X bw m1 es = Some m'" "pm_inv X bw m'" "e \<in> set m'"
        "set m' \<subseteq> set m1 \<union> set es"
      using Cons.IH [OF inv1 _ e1 _ leaf] Cons.prems(2,4) by auto
    then have "set m' \<subseteq> set m \<union> set (a # es)" using sub by auto
    moreover have "from_iter_onto X bw m (a # es) = Some m'" using m1(1) m'(1) by simp
    ultimately show ?thesis using m' by blast
  qed
qed auto

end

section \<open>Properties\<close>

text \<open>C33. \<open>PrefixMap::insert\<close> always returns. If a descendant of the entry is present the map
  is unchanged and the entry itself is handed back. Otherwise the entry is in the new map,
  the previous entry at its prefix is returned, nothing but that entry and ancestors of the
  new one is removed, the map covers exactly the names it covered before and those of the
  new prefix, and the map is again sorted with no entry covered by its descendants.\<close>

theorem prefix_map_insert_correct:
  assumes "xor_space X" and "pm_inv X bw m" and "length (bw e) \<le> 256"
  shows "\<exists>r m'. prefix_map_insert X bw m e = Some (r, m') \<and> pm_inv X bw m' \<and>
    (if \<exists>x \<in> set m. strict_prefix (bw e) (bw x) then m' = m \<and> r = Some e
     else r = prefix_map_get X bw m (bw e) \<and> inserted X bw e m m')"
proof (cases "\<exists>x \<in> set m. strict_prefix (bw e) (bw x)")
  case True
  then obtain x where "x \<in> set m" "strict_prefix (bw e) (bw x)" by blast
  then have "prefix_map_insert X bw m e = Some (Some e, m)"
    by (rule xor_space.insert_refused [OF assms(1)])
  then show ?thesis using True assms(2) by simp
next
  case False
  then obtain m' where "prefix_map_insert X bw m e = Some (fst (set_replace X bw e m), m')"
    "inserted X bw e m m'"
    using xor_space.insert_spec [OF assms] by blast
  moreover have "pm_inv X bw m'" using calculation(2) unfolding inserted_def by blast
  moreover have "fst (set_replace X bw e m) = prefix_map_get X bw m (bw e)"
    using assms(2) by (intro xor_space.fst_set_replace [OF assms(1)]) (simp add: pm_inv_def)
  ultimately show ?thesis using False by simp
qed

theorem prefix_map_insert_correct_witness:
  "\<exists>r m'. prefix_map_insert bit_ops id [[False]] [True, True] = Some (r, m') \<and> [True, True] \<in> set m'"
proof -
  have "pm_inv bit_ops id [[False]]"
    using bits.pruned_at_leaf [of id "[False]" "[[False]]"] by (simp add: bits.pm_inv_iff pm_sorted_def)
  then show ?thesis
    using prefix_map_insert_correct [OF bits.xor_space_axioms, of id "[[False]]" "[True, True]"]
    by (auto simp: inserted_def)
qed

text \<open>Building the map from entries with distinct prefixes always returns, and the lookup
  then does not depend on the order of insertion for the leaves: a name that matches an
  entry none of whose descendants is among the entries is looked up to that entry.\<close>

theorem from_iter_finds_leaf:
  assumes "xor_space X" and "distinct (map bw es)" and "\<forall>x \<in> set es. length (bw x) \<le> 256"
    and "e \<in> set es" and "\<forall>x \<in> set es. \<not> strict_prefix (bw e) (bw x)"
    and "pf_matches X (bw e) n"
  shows "\<exists>m. from_iter X bw es = Some m \<and> pm_inv X bw m \<and> get_matching X bw m n = Inr e"
proof -
  have "\<exists>m. from_iter_onto X bw prefix_map_new es = Some m \<and> pm_inv X bw m \<and> e \<in> set m \<and>
      set m \<subseteq> set prefix_map_new \<union> set es"
    using assms
    by (intro xor_space.from_iter_onto_keeps [OF assms(1)])
      (auto simp: prefix_map_new_def pm_inv_def pm_sorted_def distinct_map inj_on_def)
  then obtain m where m: "from_iter X bw es = Some m" "pm_inv X bw m" "e \<in> set m" "set m \<subseteq> set es"
    by (auto simp: from_iter_def prefix_map_new_def)
  then have "get_matching X bw m n = Inr e"
    using assms(5,6) by (intro xor_space.get_matching_eq [OF assms(1)]) (auto simp: pm_inv_def)
  then show ?thesis using m by blast
qed

theorem from_iter_finds_leaf_witness:
  "\<exists>m. from_iter bit_ops id [[True], [False], []] = Some m \<and> get_matching bit_ops id m 0 = Inr [False]"
proof -
  have "pf_matches bit_ops (id [False]) 0" by (simp add: bits.matches_iff) (simp add: bit_ops_def name_bit_def)
  then show ?thesis
    using from_iter_finds_leaf [OF bits.xor_space_axioms, of id "[[True], [False], []]" "[False]" 0] by auto
qed

text \<open>\<open>get_matching\<close> returns the entry with the longest prefix that matches the name, of
  which every other matching prefix is a prefix, and \<open>NoMatchingSection\<close> exactly when no
  entry matches.\<close>

theorem get_matching_longest:
  assumes "xor_space X"
  shows "case get_matching X bw m n of
      Inl err \<Rightarrow> err = NoMatchingSection \<and> \<not> pm_covers X bw m n
    | Inr e \<Rightarrow> e \<in> set m \<and> pf_matches X (bw e) n \<and>
        (\<forall>x \<in> set m. pf_matches X (bw x) n \<longrightarrow> prefix (bw x) (bw e))"
  using xor_space.get_matching_Inr [OF assms, of bw m n] xor_space.get_matching_Inl [OF assms, of bw m n]
  by (auto split: sum.split)

theorem get_matching_longest_witness:
  "case get_matching bit_ops id [[], [False]] 0 of Inl err \<Rightarrow> False | Inr e \<Rightarrow> prefix [False] e"
proof -
  have "pf_matches bit_ops [False] 0" by (simp add: bits.matches_iff) (simp add: bit_ops_def name_bit_def)
  then show ?thesis
    using get_matching_longest [OF bits.xor_space_axioms, of id "[[], [False]]" 0]
    by (auto simp: pm_covers_def split: sum.splits)
qed

text \<open>\<open>get_equal_or_ancestor\<close> returns for every prefix: the entry at the longest prefix
  in the map that is the given one or an ancestor of it, or nothing when there is none.\<close>

theorem get_equal_or_ancestor_longest:
  assumes "xor_space X" and "pm_inv X bw m"
  shows "\<exists>r. get_equal_or_ancestor X bw m p = Some r \<and>
    (case r of None \<Rightarrow> \<forall>x \<in> set m. \<not> prefix (bw x) p
     | Some e \<Rightarrow> e \<in> set m \<and> prefix (bw e) p \<and> (\<forall>x \<in> set m. prefix (bw x) p \<longrightarrow> prefix (bw x) (bw e)))"
  using xor_space.get_equal_or_ancestor_spec [OF assms(1), of bw m] assms(2) by (simp add: pm_inv_def)

theorem get_equal_or_ancestor_longest_witness:
  "get_equal_or_ancestor bit_ops id [[False]] [False, True] = Some (Some [False])"
proof -
  have "pm_inv bit_ops id [[False]]"
    using bits.pruned_at_leaf [of id "[False]" "[[False]]"] by (simp add: bits.pm_inv_iff pm_sorted_def)
  then show ?thesis
    using get_equal_or_ancestor_longest [OF bits.xor_space_axioms, of id "[[False]]" "[False, True]"]
    by (auto split: option.splits)
qed

end
