(* ===== verification/Network_Knowledge.thy ===== *)
theory Network_Knowledge
  imports Section_State Prefix_Map
begin

text \<open>
  What a node knows about the other sections of the network: \<open>src/network/mod.rs\<close>. The
  sections are kept in the \<open>PrefixMap\<close> of \<open>sn_messaging\<close>, whose operations are the
  record \<open>pmap_ops\<close>; the locale \<open>prefix_table\<close> is what the code relies on, and the
  container of \<open>src/network/prefix_map.rs\<close> meets it.
\<close>

section \<open>The prefix map the network uses\<close>

record 'e pmap_ops =
  pm_insert :: "'e list \<Rightarrow> 'e \<Rightarrow> 'e option \<times> 'e list"
  pm_get :: "'e list \<Rightarrow> pfx \<Rightarrow> 'e option"
  pm_get_matching :: "'e list \<Rightarrow> xor_name \<Rightarrow> 'e option"
  pm_get_equal_or_ancestor :: "'e list \<Rightarrow> pfx \<Rightarrow> 'e option"

definition other_prefix :: "other_section \<Rightarrow> pfx" where
  "other_prefix o' = sa_prefix (ss_value (os_section_auth o'))"

section \<open>Operations\<close>

definition other_section_verify :: "'c env \<Rightarrow> other_section \<Rightarrow> 'c \<Rightarrow> bool" where
  "other_section_verify E info section_chain =
     (case os_key_signed info of
        Some key_signed \<Rightarrow>
          sll_has_key (ev_chain E) section_chain (sg_public_key key_signed) \<and>
          verify_signed (ev_crypto E) key_signed (PPublicKey (sg_public_key (ss_signed (os_section_auth info)))) \<and>
          self_verify (ev_crypto E) PSectionAuth (os_section_auth info)
      | None \<Rightarrow> section_signed_verify E PSectionAuth (os_section_auth info) section_chain)"

definition network_new :: network where
  "network_new = \<lparr>nw_sections = []\<rparr>"

definition network_all :: "network \<Rightarrow> section_auth list" where
  "network_all n = map (\<lambda>info. ss_value (os_section_auth info)) (nw_sections n)"

definition network_closest :: "xor_ops \<Rightarrow> network \<Rightarrow> xor_name \<Rightarrow> section_auth option" where
  "network_closest X n name =
     min_by (\<lambda>lhs rhs. pf_cmp_distance X (sa_prefix lhs) (sa_prefix rhs) name) (network_all n)"

definition network_get :: "other_section pmap_ops \<Rightarrow> network \<Rightarrow> pfx \<Rightarrow> section_auth option" where
  "network_get P n p = map_option (\<lambda>info. ss_value (os_section_auth info)) (pm_get P (nw_sections n) p)"

definition network_elders :: "network \<Rightarrow> peer list" where
  "network_elders n = concat (map sap_peers (network_all n))"

definition network_get_elder :: "other_section pmap_ops \<Rightarrow> network \<Rightarrow> xor_name \<Rightarrow> peer option" where
  "network_get_elder P n name =
     (case pm_get_matching P (nw_sections n) name of
        None \<Rightarrow> None
      | Some info \<Rightarrow>
          map_option (\<lambda>addr. set_reachable True (peer_new name addr))
            (get_addr (ss_value (os_section_auth info)) name))"

definition network_merge :: "'c env \<Rightarrow> other_section pmap_ops \<Rightarrow> network \<Rightarrow> network \<Rightarrow> 'c \<Rightarrow> network" where
  "network_merge E P n other section_chain =
     foldl (\<lambda>n entry.
         if other_section_verify E entry section_chain
         then n\<lparr>nw_sections := snd (pm_insert P (nw_sections n) entry)\<rparr> else n)
       n (nw_sections other)"

definition network_update_section ::
  "'c env \<Rightarrow> other_section pmap_ops \<Rightarrow> network \<Rightarrow> section_auth section_signed \<Rightarrow> signed option \<Rightarrow> 'c
    \<Rightarrow> bool \<times> network" where
  "network_update_section E P n section_auth key_signed section_chain =
     (let info = \<lparr>os_section_auth = section_auth, os_key_signed = key_signed\<rparr>
      in if \<not> other_section_verify E info section_chain then (False, n)
         else let (prev, m) = pm_insert P (nw_sections n) info
              in (case prev of None \<Rightarrow> True | Some old \<Rightarrow> os_section_auth old \<noteq> section_auth,
                  n\<lparr>nw_sections := m\<rparr>))"

definition network_keys :: "'c crypto_ops \<Rightarrow> network \<Rightarrow> (pfx \<times> bls_public_key) list" where
  "network_keys cr n =
     map (\<lambda>entry. (sa_prefix (ss_value (os_section_auth entry)), section_key cr (ss_value (os_section_auth entry))))
       (nw_sections n)"

definition network_key_by_name ::
  "'c crypto_ops \<Rightarrow> other_section pmap_ops \<Rightarrow> network \<Rightarrow> xor_name \<Rightarrow> error + bls_public_key" where
  "network_key_by_name cr P n name =
     ok_or NoMatchingSection
       (map_option (\<lambda>entry. section_key cr (ss_value (os_section_auth entry))) (pm_get_matching P (nw_sections n) name))"

definition network_key_by_prefix ::
  "'c crypto_ops \<Rightarrow> other_section pmap_ops \<Rightarrow> network \<Rightarrow> pfx \<Rightarrow> bls_public_key option" where
  "network_key_by_prefix cr P n p =
     map_option (\<lambda>entry. section_key cr (ss_value (os_section_auth entry)))
       (pm_get_equal_or_ancestor P (nw_sections n) p)"

definition network_section_by_name :: "other_section pmap_ops \<Rightarrow> network \<Rightarrow> xor_name \<Rightarrow> error + section_auth" where
  "network_section_by_name P n name =
     ok_or NoMatchingSection
       (map_option (\<lambda>entry. ss_value (os_section_auth entry)) (pm_get_matching P (nw_sections n) name))"

section \<open>What the code relies on in the prefix map\<close>

text \<open>\<open>pinv\<close> is the container's own invariant, \<open>bw\<close> the prefix of an entry.\<close>

locale prefix_table =
  fixes X :: xor_ops
    and P :: "'e pmap_ops"
    and bw :: "'e \<Rightarrow> pfx"
    and pinv :: "'e list \<Rightarrow> bool"
  assumes inv_new: "pinv []"
    and insert_inv: "pinv m \<Longrightarrow> length (bw e) \<le> 256 \<Longrightarrow> pinv (snd (pm_insert P m e))"
    and insert_mem: "pinv m \<Longrightarrow> length (bw e) \<le> 256 \<Longrightarrow> set (snd (pm_insert P m e)) \<subseteq> insert e (set m)"
    and insert_done: "pinv m \<Longrightarrow> length (bw e) \<le> 256 \<Longrightarrow>
      e \<in> set (snd (pm_insert P m e)) \<or> pm_insert P m e = (Some e, m)"
    and insert_replaces: "pinv m \<Longrightarrow> length (bw e) \<le> 256 \<Longrightarrow> fst (pm_insert P m e) = Some old \<Longrightarrow>
      old = e \<or> old \<in> set m \<and> bw old = bw e"
    and get_some: "pinv m \<Longrightarrow> pm_get P m p = Some e \<Longrightarrow> e \<in> set m \<and> bw e = p"
    and matching_some: "pinv m \<Longrightarrow> pm_get_matching P m n = Some e \<Longrightarrow> e \<in> set m \<and> pf_matches X (bw e) n"
    and matching_none: "pinv m \<Longrightarrow> pm_get_matching P m n = None \<Longrightarrow> e \<in> set m \<Longrightarrow> \<not> pf_matches X (bw e) n"
    and ancestor_some: "pinv m \<Longrightarrow> pm_get_equal_or_ancestor P m p = Some e \<Longrightarrow> e \<in> set m \<and> prefix (bw e) p"

text \<open>The table of the sections the network knows, and the lemmas of its client.\<close>

locale section_table = prefix_table X P other_prefix pinv
  for X :: xor_ops and P :: "other_section pmap_ops" and pinv

text \<open>The container of the sources as such a table.\<close>

definition source_pmap :: "xor_ops \<Rightarrow> ('e \<Rightarrow> pfx) \<Rightarrow> 'e pmap_ops" where
  "source_pmap X bw = \<lparr>
     pm_insert = (\<lambda>m e. case prefix_map_insert X bw m e of Some r \<Rightarrow> r | None \<Rightarrow> (None, m)),
     pm_get = prefix_map_get X bw,
     pm_get_matching = (\<lambda>m n. case get_matching X bw m n of Inr e \<Rightarrow> Some e | Inl _ \<Rightarrow> None),
     pm_get_equal_or_ancestor = (\<lambda>m p. case get_equal_or_ancestor X bw m p of Some r \<Rightarrow> r | None \<Rightarrow> None)\<rparr>"

text \<open>The prefix map of known sections.\<close>

abbreviation section_pmap :: "xor_ops \<Rightarrow> other_section pmap_ops" where
  "section_pmap X \<equiv> source_pmap X other_prefix"

context xor_space
begin

lemma source_pmap_insert:
  assumes "pm_inv X bw m" "length (bw e) \<le> 256"
  shows "pm_insert (source_pmap X bw) m e = (Some e, m) \<or>
    (\<exists>m'. pm_insert (source_pmap X bw) m e = (prefix_map_get X bw m (bw e), m') \<and> inserted X bw e m m')"
proof (cases "\<exists>x \<in> set m. strict_prefix (bw e) (bw x)")
  case True
  then obtain x where "x \<in> set m" "strict_prefix (bw e) (bw x)" by blast
  then have "prefix_map_insert X bw m e = Some (Some e, m)" by (rule insert_refused)
  then show ?thesis by (simp add: source_pmap_def)
next
  case False
  then obtain m' where m': "prefix_map_insert X bw m e = Some (fst (set_replace X bw e m), m')" "inserted X bw e m m'"
    using insert_spec [of bw m e] assms by blast
  moreover have "pm_sorted X bw m" using assms(1) by (simp add: pm_inv_def)
  ultimately show ?thesis by (simp add: source_pmap_def fst_set_replace)
qed

end

sublocale xor_space \<subseteq> sections: section_table X "source_pmap X other_prefix" "pm_inv X other_prefix"
proof
  show "pm_inv X other_prefix []" by (simp add: pm_inv_def pm_sorted_def)
next
  fix m e assume a: "pm_inv X other_prefix m" "length (other_prefix e) \<le> 256"
  note ins = source_pmap_insert [of other_prefix m e, OF a]
  show "pm_inv X other_prefix (snd (pm_insert (source_pmap X other_prefix) m e))"
    using ins a(1) by (auto simp: inserted_def)
  show "set (snd (pm_insert (source_pmap X other_prefix) m e)) \<subseteq> insert e (set m)"
    using ins by (auto simp: inserted_def)
  show "e \<in> set (snd (pm_insert (source_pmap X other_prefix) m e)) \<or>
      pm_insert (source_pmap X other_prefix) m e = (Some e, m)"
    using ins by (auto simp: inserted_def)
  show "old = e \<or> old \<in> set m \<and> other_prefix old = other_prefix e"
    if "fst (pm_insert (source_pmap X other_prefix) m e) = Some old" for old
    using ins that a(1) get_iff [of other_prefix m "other_prefix e" old] by (auto simp: pm_inv_def)
next
  fix m p e assume a: "pm_inv X other_prefix m"
  show "pm_get (source_pmap X other_prefix) m p = Some e \<Longrightarrow> e \<in> set m \<and> other_prefix e = p"
    using a get_iff [of other_prefix m p e] by (simp add: source_pmap_def pm_inv_def)
  show "pm_get_equal_or_ancestor (source_pmap X other_prefix) m p = Some e \<Longrightarrow> e \<in> set m \<and> prefix (other_prefix e) p"
    using a get_equal_or_ancestor_spec [of other_prefix m p] by (auto simp: source_pmap_def pm_inv_def)
next
  fix m n e assume a: "pm_inv X other_prefix m"
  show "pm_get_matching (source_pmap X other_prefix) m n = Some e \<Longrightarrow> e \<in> set m \<and> pf_matches X (other_prefix e) n"
    using get_matching_Inr [of other_prefix m n e] by (auto simp: source_pmap_def split: sum.splits)
  show "pm_get_matching (source_pmap X other_prefix) m n = None \<Longrightarrow> e \<in> set m \<Longrightarrow> \<not> pf_matches X (other_prefix e) n"
    using get_matching_Inl [of other_prefix m n]
    by (auto simp: source_pmap_def pm_covers_iff split: sum.splits)
qed

lemma source_pmap_subset: "set (snd (pm_insert (source_pmap X bw) m e)) \<subseteq> insert e (set m)"
proof (cases "prefix_map_insert X bw m e")
  case (Some r)
  show ?thesis
  proof (cases "descendants X bw m (bw e) = []")
    case True
    obtain old m1 where m1: "set_replace X bw e m = (old, m1)" by fastforce
    then obtain m' where "prune X bw (pf_popped X (bw e)) m1 = Some m'" "r = (old, m')"
      using Some True by (auto simp: prefix_map_insert_def)
    then show ?thesis using prune_subset [of X bw] set_replace_subset [of X bw e m] Some m1 by (fastforce simp: source_pmap_def)
  qed (use Some in \<open>auto simp: prefix_map_insert_def source_pmap_def\<close>)
qed (auto simp: source_pmap_def)

text \<open>Whatever chain the information was verified with, it is signed by the keys it names.\<close>

definition known_section_ok :: "'c crypto_ops \<Rightarrow> other_section \<Rightarrow> bool" where
  "known_section_ok cr info \<longleftrightarrow>
     self_verify cr PSectionAuth (os_section_auth info) \<and>
     (case os_key_signed info of
        Some key_signed \<Rightarrow> verify_signed cr key_signed (PPublicKey (sg_public_key (ss_signed (os_section_auth info))))
      | None \<Rightarrow> True)"

definition network_signed :: "'c crypto_ops \<Rightarrow> network \<Rightarrow> bool" where
  "network_signed cr n \<longleftrightarrow> (\<forall>info \<in> set (nw_sections n). known_section_ok cr info)"

lemma verified_is_ok: "other_section_verify E info chain \<Longrightarrow> known_section_ok (ev_crypto E) info"
  by (auto simp: other_section_verify_def known_section_ok_def section_signed_verify_def split: option.splits)

lemma network_new_signed [simp]: "network_signed cr network_new"
  by (simp add: network_signed_def network_new_def)

lemma insert_signed:
  "network_signed cr n \<Longrightarrow> known_section_ok cr e \<Longrightarrow>
    network_signed cr (n\<lparr>nw_sections := snd (pm_insert (section_pmap X) (nw_sections n) e)\<rparr>)"
  using source_pmap_subset [of X other_prefix "nw_sections n" e] by (auto simp: network_signed_def)

lemma network_update_section_signed:
  "network_signed (ev_crypto E) n \<Longrightarrow>
    network_signed (ev_crypto E) (snd (network_update_section E (section_pmap X) n sa ks chain))"
  by (auto simp: network_update_section_def Let_def split_beta intro: insert_signed verified_is_ok)

lemma network_merge_signed:
  assumes "network_signed (ev_crypto E) n"
  shows "network_signed (ev_crypto E) (network_merge E (section_pmap X) n other chain)"
proof -
  have "network_signed (ev_crypto E) (foldl (\<lambda>n e. if other_section_verify E e chain
      then n\<lparr>nw_sections := snd (pm_insert (section_pmap X) (nw_sections n) e)\<rparr> else n) n es)" for es
    using assms by (induction es arbitrary: n) (auto intro: insert_signed verified_is_ok)
  then show ?thesis by (simp add: network_merge_def)
qed

section \<open>Only verified sections are known\<close>

text \<open>Every known section is verified by the section chain, and its prefix is a prefix.\<close>

definition net_ok :: "'c env \<Rightarrow> (other_section list \<Rightarrow> bool) \<Rightarrow> 'c \<Rightarrow> network \<Rightarrow> bool" where
  "net_ok E pinv chain n \<longleftrightarrow> pinv (nw_sections n) \<and>
     (\<forall>e \<in> set (nw_sections n). length (other_prefix e) \<le> 256 \<and> other_section_verify E e chain)"

definition well_formed_network :: "network \<Rightarrow> bool" where
  "well_formed_network n \<longleftrightarrow> (\<forall>e \<in> set (nw_sections n). length (other_prefix e) \<le> 256)"

lemma other_section_verify_more_keys:
  "chain_laws (ev_chain E) \<Longrightarrow> other_section_verify E e c \<Longrightarrow>
    set (sll_keys (ev_chain E) c) \<subseteq> set (sll_keys (ev_chain E) c') \<Longrightarrow> other_section_verify E e c'"
  by (auto simp: other_section_verify_def section_signed_verify_def chain_laws_has_key split: option.splits)

context section_table
begin

lemma insert_ok:
  assumes "net_ok E pinv chain n" "length (other_prefix e) \<le> 256" "other_section_verify E e chain"
  shows "net_ok E pinv chain (n\<lparr>nw_sections := snd (pm_insert P (nw_sections n) e)\<rparr>)"
proof -
  have "pinv (nw_sections n)" using assms(1) by (simp add: net_ok_def)
  then have "pinv (snd (pm_insert P (nw_sections n) e))"
    "set (snd (pm_insert P (nw_sections n) e)) \<subseteq> insert e (set (nw_sections n))"
    using insert_inv insert_mem assms(2) by blast+
  then show ?thesis using assms by (auto simp: net_ok_def)
qed

lemma network_merge_ok:
  assumes "net_ok E pinv chain n" "well_formed_network other"
  shows "net_ok E pinv chain (network_merge E P n other chain)"
proof -
  have "net_ok E pinv chain (foldl (\<lambda>n e. if other_section_verify E e chain
      then n\<lparr>nw_sections := snd (pm_insert P (nw_sections n) e)\<rparr> else n) n es)"
    if "\<forall>e \<in> set es. length (other_prefix e) \<le> 256" for es
    using assms(1) that
  proof (induction es arbitrary: n)
    case (Cons e es)
    then show ?case using insert_ok [of E chain n e] by simp
  qed simp
  then show ?thesis using assms(2) by (simp add: network_merge_def well_formed_network_def)
qed

lemma network_update_section_ok:
  assumes "net_ok E pinv chain n" "length (sa_prefix (ss_value sa)) \<le> 256"
  shows "net_ok E pinv chain (snd (network_update_section E P n sa ks chain))"
  using assms insert_ok [of E chain n "\<lparr>os_section_auth = sa, os_key_signed = ks\<rparr>"]
  by (simp add: network_update_section_def Let_def split_beta other_prefix_def)

lemma section_by_name_ok:
  assumes "net_ok E pinv chain n"
  shows "case network_section_by_name P n name of
      Inl e \<Rightarrow> e = NoMatchingSection \<and> (\<forall>sap \<in> set (network_all n). \<not> pf_matches X (sa_prefix sap) name)
    | Inr sap \<Rightarrow> pf_matches X (sa_prefix sap) name \<and>
        (\<exists>e \<in> set (nw_sections n). ss_value (os_section_auth e) = sap \<and> other_section_verify E e chain)"
proof (cases "pm_get_matching P (nw_sections n) name")
  case None
  then have "\<not> pf_matches X (other_prefix e) name" if "e \<in> set (nw_sections n)" for e
    using matching_none [OF _ None that] assms by (simp add: net_ok_def)
  then show ?thesis using None by (simp add: network_section_by_name_def network_all_def other_prefix_def)
next
  case (Some e)
  then have "e \<in> set (nw_sections n) \<and> pf_matches X (other_prefix e) name"
    using matching_some [OF _ Some] assms by (simp add: net_ok_def)
  then show ?thesis
    using Some assms by (auto simp: network_section_by_name_def net_ok_def other_prefix_def)
qed

lemma update_section_stores:
  assumes "net_ok E pinv chain n" "length (sa_prefix (ss_value sa)) \<le> 256"
    and "fst (network_update_section E P n sa ks chain)"
  shows "\<exists>e \<in> set (nw_sections (snd (network_update_section E P n sa ks chain))). os_section_auth e = sa"
proof -
  let ?e = "\<lparr>os_section_auth = sa, os_key_signed = ks\<rparr>"
  have "pinv (nw_sections n)" using assms(1) by (simp add: net_ok_def)
  then have "?e \<in> set (snd (pm_insert P (nw_sections n) ?e)) \<or> pm_insert P (nw_sections n) ?e = (Some ?e, nw_sections n)"
    using insert_done [of "nw_sections n" ?e] assms(2) by (simp add: other_prefix_def)
  then show ?thesis
    using assms(3)
    by (auto simp: network_update_section_def Let_def split_beta split: if_splits intro: bexI [of _ ?e])
qed

end

text \<open>The life of the network knowledge: it starts empty, and merges, updates and the growth
  of the section chain may follow in any order. Prefixes that arrive have at most 256 bits.\<close>

inductive net_reachable :: "'c env \<Rightarrow> other_section pmap_ops \<Rightarrow> 'c \<Rightarrow> network \<Rightarrow> bool" for E P where
  net_start: "net_reachable E P chain network_new"
| net_merge: "net_reachable E P chain n \<Longrightarrow> well_formed_network other \<Longrightarrow>
    net_reachable E P chain (network_merge E P n other chain)"
| net_update: "net_reachable E P chain n \<Longrightarrow> length (sa_prefix (ss_value sa)) \<le> 256 \<Longrightarrow>
    net_reachable E P chain (snd (network_update_section E P n sa ks chain))"
| net_grow: "net_reachable E P chain n \<Longrightarrow>
    set (sll_keys (ev_chain E) chain) \<subseteq> set (sll_keys (ev_chain E) chain') \<Longrightarrow> net_reachable E P chain' n"

lemma net_reachable_ok:
  assumes "chain_laws (ev_chain E)" "section_table (ev_xor E) P pinv" "net_reachable E P chain n"
  shows "net_ok E pinv chain n"
  using assms(3)
proof induction
  case (net_start chain)
  have "pinv []" using assms(2) by (rule prefix_table.inv_new [OF section_table.axioms])
  then show ?case by (simp add: net_ok_def network_new_def)
next
  case (net_merge chain n other)
  show ?case by (rule section_table.network_merge_ok [OF assms(2) net_merge.IH net_merge.hyps(2)])
next
  case (net_update chain n sa ks)
  show ?case by (rule section_table.network_update_section_ok [OF assms(2) net_update.IH net_update.hyps(2)])
next
  case (net_grow chain n chain')
  have "other_section_verify E e chain'" if "other_section_verify E e chain" for e
    using other_section_verify_more_keys [OF assms(1) that net_grow.hyps(2)] .
  then show ?case using net_grow.IH by (simp add: net_ok_def)
qed

section \<open>Properties\<close>

text \<open>A node only ever knows verified sections: through any sequence of merges with
  received knowledge, updates and growth of the section chain, every known section is signed
  by a key of our chain, or by a key that a key of our chain has signed. A lookup by name
  returns such a section whose prefix matches the name, and \<open>NoMatchingSection\<close> exactly
  when no known section matches.\<close>

theorem network_knows_only_verified:
  assumes "chain_laws (ev_chain E)" and "section_table (ev_xor E) P pinv" and "net_reachable E P chain n"
  shows "(\<forall>e \<in> set (nw_sections n). other_section_verify E e chain) \<and>
    (case network_section_by_name P n name of
       Inl e \<Rightarrow> e = NoMatchingSection \<and> (\<forall>sap \<in> set (network_all n). \<not> pf_matches (ev_xor E) (sa_prefix sap) name)
     | Inr sap \<Rightarrow> pf_matches (ev_xor E) (sa_prefix sap) name \<and>
         (\<exists>e \<in> set (nw_sections n). ss_value (os_section_auth e) = sap \<and> other_section_verify E e chain))"
  using net_reachable_ok [OF assms] section_table.section_by_name_ok [OF assms(2) net_reachable_ok [OF assms]]
  by (simp add: net_ok_def)

theorem network_knows_only_verified_witness:
  "list_all (\<lambda>e. other_section_verify token_env e [BlsPk 1])
     (nw_sections (snd (network_update_section token_env (source_pmap bit_ops other_prefix)
       network_new (token_signed 1 (section_auth_new [] [True] (PkSet 3))) None [BlsPk 1])))"
proof -
  have "net_reachable token_env (source_pmap bit_ops other_prefix) [BlsPk 1]
     (snd (network_update_section token_env (source_pmap bit_ops other_prefix)
      network_new (token_signed 1 (section_auth_new [] [True] (PkSet 3))) None [BlsPk 1]))"
    by (rule net_update [OF net_start]) simp
  then show ?thesis
    using network_knows_only_verified [OF token_env_chain_laws, of "source_pmap bit_ops other_prefix"]
      bits.sections.section_table_axioms by (simp add: list_all_iff)
qed

text \<open>\<open>Network::closest\<close> finds a section whenever one is known, and one that matches the
  name whenever a matching one is known.\<close>

theorem network_closest_matches:
  assumes "xor_space X"
  shows "case network_closest X n name of
      None \<Rightarrow> network_all n = []
    | Some sap \<Rightarrow> sap \<in> set (network_all n) \<and>
        ((\<exists>other \<in> set (network_all n). pf_matches X (sa_prefix other) name) \<longrightarrow> pf_matches X (sa_prefix sap) name)"
proof (cases "network_closest X n name")
  case None
  then show ?thesis by (simp add: network_closest_def)
next
  case (Some sap)
  then have m: "min_by (\<lambda>lhs rhs. pf_cmp_distance X (sa_prefix lhs) (sa_prefix rhs) name) (network_all n) = Some sap"
    by (simp add: network_closest_def)
  show ?thesis
    using min_by_mem [OF m] xor_space.closest_matches [OF assms m] Some by auto
qed

definition two_sections :: network where
  "two_sections = \<lparr>nw_sections =
     map (\<lambda>b. \<lparr>os_section_auth = token_signed 1 (section_auth_new [] [b] (PkSet 3)), os_key_signed = None\<rparr>) [True, False]\<rparr>"

theorem network_closest_matches_witness:
  "map_option sa_prefix (network_closest bit_ops two_sections 5) = Some [False]"
proof -
  have "\<not> name_bit 5 0" by (simp add: name_bit_def)
  then show ?thesis
    using network_closest_matches [OF bits.xor_space_axioms, of two_sections 5]
    by (auto simp: two_sections_def network_all_def bits.matches_iff split: option.splits) (auto simp: bit_ops_def)
qed

text \<open>Information about a section that is not verified is ignored by
  \<open>update_section\<close>; when the update reports a change, the information is stored, under its
  own prefix.\<close>

theorem network_update_section_outcome:
  assumes "chain_laws (ev_chain E)" and "section_table (ev_xor E) P pinv" and "net_reachable E P chain n"
    and "length (sa_prefix (ss_value sa)) \<le> 256"
  shows "case network_update_section E P n sa ks chain of (changed, n') \<Rightarrow>
    (\<not> other_section_verify E \<lparr>os_section_auth = sa, os_key_signed = ks\<rparr> chain \<longrightarrow> \<not> changed \<and> n' = n) \<and>
    (changed \<longrightarrow> (\<exists>e \<in> set (nw_sections n'). os_section_auth e = sa \<and> other_section_verify E e chain))"
proof -
  note ok = net_reachable_ok [OF assms(1-3)]
  note ok' = section_table.network_update_section_ok [OF assms(2) ok assms(4), of ks]
  have "\<not> other_section_verify E \<lparr>os_section_auth = sa, os_key_signed = ks\<rparr> chain \<Longrightarrow>
      network_update_section E P n sa ks chain = (False, n)"
    by (simp add: network_update_section_def)
  moreover have "\<exists>e \<in> set (nw_sections (snd (network_update_section E P n sa ks chain))).
      os_section_auth e = sa \<and> other_section_verify E e chain"
    if "fst (network_update_section E P n sa ks chain)"
    using section_table.update_section_stores [OF assms(2) ok assms(4) that] ok'
    unfolding net_ok_def by blast
  ultimately show ?thesis by (simp add: split_beta)
qed

theorem network_update_section_outcome_witness:
  "network_update_section token_env (source_pmap bit_ops other_prefix)
      network_new (token_signed 1 (section_auth_new [] [True] (PkSet 3))) None [BlsPk 2] = (False, network_new)"
  using network_update_section_outcome [OF token_env_chain_laws _ net_start, of "source_pmap bit_ops other_prefix"
      "pm_inv bit_ops other_prefix" "token_signed 1 (section_auth_new [] [True] (PkSet 3))" None "[BlsPk 2]"]
    bits.sections.section_table_axioms
  by (simp add: split_beta other_section_verify_def section_signed_verify_def list_chain_def prod_eq_iff)

end
