(* ===== verification/Relocation.thy ===== *)
theory Relocation
  imports Network_Knowledge
begin

text \<open>
  The choice of members to relocate after churn and the relocation data:
  \<open>src/relocation.rs\<close>. A member of age \<open>a\<close> is a candidate when the churn signature,
  read as a big-endian number, is divisible by \<open>2 ^ a\<close>.
\<close>

section \<open>The relocation check\<close>

text \<open>\<open>u8::trailing_zeros\<close>\<close>

definition byte_trailing_zeros :: "u8 \<Rightarrow> nat" where
  "byte_trailing_zeros b = length (takeWhile (\<lambda>i. \<not> bit b i) [0..<8])"

fun trailing_zeros_rev :: "bytes \<Rightarrow> nat" where
  "trailing_zeros_rev [] = 0"
| "trailing_zeros_rev (b # bs) = (if b = 0 then 8 + trailing_zeros_rev bs else byte_trailing_zeros b)"

definition trailing_zeros :: "bytes \<Rightarrow> nat" where
  "trailing_zeros bs = trailing_zeros_rev (rev bs)"

definition relocation_check :: "'c crypto_ops \<Rightarrow> u8 \<Rightarrow> bls_signature \<Rightarrow> bool" where
  "relocation_check cr age churn_signature \<longleftrightarrow> unat age \<le> trailing_zeros (sig_bytes cr churn_signature)"

definition relocation_destination :: "'c crypto_ops \<Rightarrow> xor_name \<Rightarrow> xor_name \<Rightarrow> xor_name" where
  "relocation_destination cr relocating_name churn_name =
     name_from_content cr [name_bytes relocating_name, name_bytes churn_name]"

section \<open>Relocation data\<close>

definition relocate_details_with_age ::
  "'c env \<Rightarrow> other_section pmap_ops \<Rightarrow> 'c section_state \<Rightarrow> network \<Rightarrow> peer \<Rightarrow> xor_name \<Rightarrow> u8 \<Rightarrow> relocate_details" where
  "relocate_details_with_age E P section0 network peer destination age =
     (let destination_key =
            (case network_key_by_name (ev_crypto E) P network destination of
               Inr k \<Rightarrow> k
             | Inl _ \<Rightarrow> sll_root_key (ev_chain E) (sec_chain section0))
      in \<lparr>rd_pub_id = peer_name peer, rd_destination = destination, rd_destination_key = destination_key, rd_age = age\<rparr>)"

text \<open>\<open>age.saturating_add(1)\<close>\<close>

definition older :: "u8 \<Rightarrow> u8" where
  "older age = (if age = 255 then 255 else age + 1)"

definition relocate_details_new ::
  "'c env \<Rightarrow> other_section pmap_ops \<Rightarrow> 'c section_state \<Rightarrow> network \<Rightarrow> peer \<Rightarrow> xor_name \<Rightarrow> relocate_details" where
  "relocate_details_new E P section0 network peer destination =
     relocate_details_with_age E P section0 network peer destination (older (peer_age peer))"

definition signed_relocate_details_new :: "'c routing_msg \<Rightarrow> error + 'c routing_msg" where
  "signed_relocate_details_new signed_msg =
     (case msg_variant signed_msg of Relocate _ \<Rightarrow> Inr signed_msg | _ \<Rightarrow> Inl InvalidMessage)"

definition signed_relocate_details :: "'c routing_msg \<Rightarrow> error + relocate_details" where
  "signed_relocate_details signed_msg =
     (case msg_variant signed_msg of Relocate details \<Rightarrow> Inr details | _ \<Rightarrow> Inl InvalidMessage)"

definition signed_relocate_destination :: "'c routing_msg \<Rightarrow> error + xor_name" where
  "signed_relocate_destination signed_msg = and_then (signed_relocate_details signed_msg) (\<lambda>d. Inr (rd_destination d))"

definition signed_relocate_destination_key :: "'c routing_msg \<Rightarrow> error + bls_public_key" where
  "signed_relocate_destination_key signed_msg =
     and_then (signed_relocate_details signed_msg) (\<lambda>d. Inr (rd_destination_key d))"

definition relocate_payload_new ::
  "'c crypto_ops \<Rightarrow> 'c routing_msg \<Rightarrow> xor_name \<Rightarrow> keypair \<Rightarrow> 'c relocate_payload" where
  "relocate_payload_new cr details new_name old_keypair =
     RelocatePayload details (ed_sign cr old_keypair (name_bytes new_name))"

definition verify_identity :: "'c crypto_ops \<Rightarrow> 'c relocate_payload \<Rightarrow> xor_name \<Rightarrow> bool" where
  "verify_identity cr payload new_name =
     (case signed_relocate_details (pl_details payload) of
        Inl _ \<Rightarrow> False
      | Inr details \<Rightarrow>
          case ed_pub_key cr (rd_pub_id details) of
            None \<Rightarrow> False
          | Some pub_key \<Rightarrow> ed_verify cr pub_key (name_bytes new_name) (pl_signature payload))"

definition relocate_payload_details :: "'c relocate_payload \<Rightarrow> error + relocate_details" where
  "relocate_payload_details payload = signed_relocate_details (pl_details payload)"

text \<open>The channel of a relocation in progress is a number.\<close>

datatype 'c relocate_state = DelayedRelocation "'c routing_msg" | InProgress nat

datatype relocate_action = Instant relocate_details | Delayed relocate_promise

definition relocate_action_new ::
  "'c env \<Rightarrow> other_section pmap_ops \<Rightarrow> 'c section_state \<Rightarrow> network \<Rightarrow> peer \<Rightarrow> xor_name \<Rightarrow> relocate_action" where
  "relocate_action_new E P section0 network peer churn_name =
     (let destination = relocation_destination (ev_crypto E) (peer_name peer) churn_name
      in if sec_is_elder section0 (peer_name peer)
         then Delayed \<lparr>rp_name = peer_name peer, rp_destination = destination\<rparr>
         else Instant (relocate_details_new E P section0 network peer destination))"

fun action_destination :: "relocate_action \<Rightarrow> xor_name" where
  "action_destination (Instant details) = rd_destination details"
| "action_destination (Delayed promise) = rp_destination promise"

section \<open>Relocations after churn\<close>

definition relocation_actions ::
  "'c env \<Rightarrow> other_section pmap_ops \<Rightarrow> 'c section_state \<Rightarrow> network \<Rightarrow> xor_name \<Rightarrow> bls_signature
    \<Rightarrow> (node_state \<times> relocate_action) list" where
  "relocation_actions E P section0 network churn_name churn_signature =
     (let candidates = filter (\<lambda>info. relocation_check (ev_crypto E) (peer_age (ns_peer info)) churn_signature)
            (peers_joined (sec_members section0))
      in case map (\<lambda>info. peer_age (ns_peer info)) candidates of
           [] \<Rightarrow> []
         | ages \<Rightarrow>
             let max_age = Max (set ages)
             in map (\<lambda>info. (info, relocate_action_new E P section0 network (ns_peer info) churn_name))
                  (filter (\<lambda>info. peer_age (ns_peer info) = max_age) candidates))"

section \<open>Divisibility by powers of two\<close>

text \<open>The number a byte string denotes, the last byte first.\<close>

fun le_value :: "bytes \<Rightarrow> nat" where
  "le_value [] = 0"
| "le_value (b # bs) = unat b + 256 * le_value bs"

definition be_value :: "bytes \<Rightarrow> nat" where
  "be_value bs = le_value (rev bs)"

lemma le_length_takeWhile_upt:
  "n \<le> m \<Longrightarrow> n \<le> length (takeWhile P [0..<m]) \<longleftrightarrow> (\<forall>i < n. P i)"
proof
  assume n: "n \<le> length (takeWhile P [0..<m])"
  show "\<forall>i < n. P i"
  proof (intro allI impI)
    fix i assume "i < n"
    then have i: "i < length (takeWhile P [0..<m])" using n by simp
    then have "i < m" using length_takeWhile_le [of P "[0..<m]"] by simp
    with i show "P i" using nth_mem [OF i] takeWhile_nth [OF i] set_takeWhileD by fastforce
  qed
next
  assume "n \<le> m" and P: "\<forall>i < n. P i"
  show "n \<le> length (takeWhile P [0..<m])"
  proof (rule ccontr)
    assume "\<not> ?thesis"
    then have l: "length (takeWhile P [0..<m]) < n" by simp
    then have "\<not> P ([0..<m] ! length (takeWhile P [0..<m]))"
      using \<open>n \<le> m\<close> by (intro nth_length_takeWhile) simp
    then show False using l P \<open>n \<le> m\<close> by simp
  qed
qed

lemma unat_byte: "unat (b :: u8) < 256"
  using unsigned_less [of b, where 'a = nat] by simp

lemma le_value_zeros [simp]: "le_value (replicate n 0) = 0"
  by (induction n) simp_all

lemma byte_trailing_zeros_dvd:
  assumes "n \<le> 8"
  shows "n \<le> byte_trailing_zeros b \<longleftrightarrow> 2 ^ n dvd unat b"
proof -
  have "2 ^ n dvd unat b \<longleftrightarrow> take_bit n (unat b) = 0" by (simp add: take_bit_eq_0_iff)
  also have "\<dots> \<longleftrightarrow> (\<forall>i < n. \<not> bit (unat b) i)"
    by (auto simp: bit_eq_iff bit_take_bit_iff)
  also have "\<dots> \<longleftrightarrow> (\<forall>i < n. \<not> bit b i)" by (simp add: bit_unsigned_iff)
  finally show ?thesis using assms by (simp add: byte_trailing_zeros_def le_length_takeWhile_upt)
qed

lemma trailing_zeros_rev_dvd:
  "n \<le> 8 * length bs \<Longrightarrow> n \<le> trailing_zeros_rev bs \<longleftrightarrow> 2 ^ n dvd le_value bs"
proof (induction bs arbitrary: n)
  case (Cons b bs)
  have low: "2 ^ n dvd unat b + 256 * le_value bs \<longleftrightarrow> 2 ^ n dvd unat b" if "n \<le> 8"
  proof -
    have "(2 :: nat) ^ n dvd 2 ^ 8" using that by (rule le_imp_power_dvd)
    then have "(2 :: nat) ^ n dvd 256 * le_value bs" by simp
    then show ?thesis by (rule dvd_add_left_iff)
  qed
  show ?case
  proof (cases "n \<le> 8")
    case True
    then show ?thesis using low [OF True] byte_trailing_zeros_dvd [OF True, of b] by simp
  next
    case False
    then obtain m where m: "n = 8 + m" by (metis le_iff_add nat_le_linear)
    show ?thesis
    proof (cases "b = 0")
      case True
      have "2 ^ n dvd 256 * le_value bs \<longleftrightarrow> 2 ^ m dvd le_value bs"
        using nat_mult_dvd_cancel_disj [of "2 ^ 8" "2 ^ m" "le_value bs"] by (simp add: m power_add)
      then show ?thesis using True Cons by (simp add: m)
    next
      case b: False
      have "\<not> 8 \<le> byte_trailing_zeros b"
        using byte_trailing_zeros_dvd [of 8 b] b unat_byte [of b]
        by (auto dest: dvd_imp_le simp: unat_eq_0)
      moreover have "\<not> 2 ^ n dvd le_value (b # bs)"
      proof
        assume "2 ^ n dvd le_value (b # bs)"
        then have "2 ^ 8 dvd unat b + 256 * le_value bs" by (simp add: m power_add dvd_mult_left)
        then have "256 dvd unat b" by (simp add: dvd_add_left_iff)
        then show False using b unat_byte [of b] by (auto dest: dvd_imp_le simp: unat_eq_0)
      qed
      ultimately show ?thesis using b False by simp
    qed
  qed
qed simp

lemma trailing_zeros_dvd: "n \<le> 8 * length bs \<Longrightarrow> n \<le> trailing_zeros bs \<longleftrightarrow> 2 ^ n dvd be_value bs"
  using trailing_zeros_rev_dvd [of n "rev bs"] by (simp add: trailing_zeros_def be_value_def)

lemma check_dvd:
  assumes "32 \<le> length (sig_bytes cr sig)"
  shows "relocation_check cr age sig \<longleftrightarrow> 2 ^ unat age dvd be_value (sig_bytes cr sig)"
  using assms unat_byte [of age] by (simp add: relocation_check_def trailing_zeros_dvd)

section \<open>The chosen members\<close>

lemma actions_set:
  "set (relocation_actions E P s n churn sig) =
     (\<lambda>info. (info, relocate_action_new E P s n (ns_peer info) churn)) `
       {info \<in> set (peers_joined (sec_members s)). relocation_check (ev_crypto E) (peer_age (ns_peer info)) sig \<and>
          (\<forall>other \<in> set (peers_joined (sec_members s)).
             relocation_check (ev_crypto E) (peer_age (ns_peer other)) sig \<longrightarrow>
             peer_age (ns_peer other) \<le> peer_age (ns_peer info))}"
proof -
  define cs where "cs = filter (\<lambda>info. relocation_check (ev_crypto E) (peer_age (ns_peer info)) sig) (peers_joined (sec_members s))"
  define ages where "ages = map (\<lambda>info. peer_age (ns_peer info)) cs"
  have mem: "info \<in> set cs \<longleftrightarrow> info \<in> set (peers_joined (sec_members s)) \<and>
      relocation_check (ev_crypto E) (peer_age (ns_peer info)) sig" for info
    by (auto simp: cs_def)
  have eq: "relocation_actions E P s n churn sig = (case ages of [] \<Rightarrow> [] | _ \<Rightarrow>
      map (\<lambda>info. (info, relocate_action_new E P s n (ns_peer info) churn))
        (filter (\<lambda>info. peer_age (ns_peer info) = Max (set ages)) cs))"
    by (simp add: relocation_actions_def cs_def ages_def Let_def split: list.splits)
  have max: "peer_age (ns_peer info) = Max (set ages) \<longleftrightarrow>
      (\<forall>other \<in> set cs. peer_age (ns_peer other) \<le> peer_age (ns_peer info))" if "info \<in> set cs" for info
    using that by (auto simp: ages_def intro!: Max_eqI [symmetric])
  have "set (relocation_actions E P s n churn sig) =
      (\<lambda>info. (info, relocate_action_new E P s n (ns_peer info) churn)) `
        {info \<in> set cs. \<forall>other \<in> set cs. peer_age (ns_peer other) \<le> peer_age (ns_peer info)}"
  proof (cases ages)
    case Nil
    then show ?thesis by (simp add: eq ages_def)
  next
    case (Cons a as)
    have "{info \<in> set cs. peer_age (ns_peer info) = Max (set ages)} =
        {info \<in> set cs. \<forall>other \<in> set cs. peer_age (ns_peer other) \<le> peer_age (ns_peer info)}"
      using max by blast
    then show ?thesis by (simp add: eq Cons)
  qed
  also have "{info \<in> set cs. \<forall>other \<in> set cs. peer_age (ns_peer other) \<le> peer_age (ns_peer info)} =
      {info \<in> set (peers_joined (sec_members s)). relocation_check (ev_crypto E) (peer_age (ns_peer info)) sig \<and>
        (\<forall>other \<in> set (peers_joined (sec_members s)).
           relocation_check (ev_crypto E) (peer_age (ns_peer other)) sig \<longrightarrow>
           peer_age (ns_peer other) \<le> peer_age (ns_peer info))}"
    using mem by blast
  finally show ?thesis .
qed

section \<open>Properties\<close>

text \<open>C21. The relocation check counts trailing zero bits byte by byte and thereby evaluates
  the formula its comment gives: for a signature of at least 32 bytes, a member of age
  \<open>a\<close> is a candidate exactly when the signature is divisible by \<open>2 ^ a\<close>. In particular an
  older member is a candidate less often.\<close>

theorem relocation_check_is_divisibility:
  assumes "32 \<le> length (sig_bytes cr sig)"
  shows "(relocation_check cr age sig \<longleftrightarrow> be_value (sig_bytes cr sig) mod 2 ^ unat age = 0) \<and>
    (relocation_check cr age sig \<and> younger \<le> age \<longrightarrow> relocation_check cr younger sig)"
  using check_dvd [OF assms, of age]
  by (auto simp: relocation_check_def dvd_eq_mod_eq_0 word_le_nat_alt)

definition wide_crypto :: "'c crypto_ops" where
  "wide_crypto = token_crypto\<lparr>sig_bytes := \<lambda>s. replicate 31 0 @ [of_nat (sig_number s)]\<rparr>"

theorem relocation_check_is_divisibility_witness:
  "(relocation_check (wide_crypto :: unit crypto_ops) 5 (BlsSig 96) \<longleftrightarrow>
      be_value (sig_bytes (wide_crypto :: unit crypto_ops) (BlsSig 96)) mod 2 ^ unat (5 :: u8) = 0) \<and>
    be_value (sig_bytes (wide_crypto :: unit crypto_ops) (BlsSig 96)) = 96"
  using relocation_check_is_divisibility [of "wide_crypto :: unit crypto_ops" "BlsSig 96" 5 4]
  by (simp add: wide_crypto_def be_value_def)

text \<open>C22. Exactly the oldest candidates among the joined members are relocated after churn,
  each once. An elder gets a promise to be redeemed after its demotion, any other member the
  details of an immediate relocation with its age increased by one (saturating); the
  destination depends on the member and on the churned name only.\<close>

theorem relocation_actions_oldest:
  "(info, action) \<in> set (relocation_actions E P s n churn sig) \<longleftrightarrow>
     info \<in> set (peers_joined (sec_members s)) \<and>
     relocation_check (ev_crypto E) (peer_age (ns_peer info)) sig \<and>
     (\<forall>other \<in> set (peers_joined (sec_members s)).
        relocation_check (ev_crypto E) (peer_age (ns_peer other)) sig \<longrightarrow>
        peer_age (ns_peer other) \<le> peer_age (ns_peer info)) \<and>
     action_destination action =
       name_from_content (ev_crypto E) [name_bytes (peer_name (ns_peer info)), name_bytes churn] \<and>
     (if contains_elder (ss_value (sec_auth s)) (peer_name (ns_peer info))
      then action = Delayed \<lparr>rp_name = peer_name (ns_peer info), rp_destination = action_destination action\<rparr>
      else \<exists>key. action = Instant \<lparr>rd_pub_id = peer_name (ns_peer info), rd_destination = action_destination action,
             rd_destination_key = key, rd_age = (if peer_age (ns_peer info) = 255 then 255 else peer_age (ns_peer info) + 1)\<rparr> \<and>
           key = (case network_key_by_name (ev_crypto E) P n (action_destination action) of
                    Inr k \<Rightarrow> k | Inl _ \<Rightarrow> sll_root_key (ev_chain E) (sec_chain s)))"
proof -
  have mem: "(info, action) \<in> set (relocation_actions E P s n churn sig) \<longleftrightarrow>
     info \<in> set (peers_joined (sec_members s)) \<and>
     relocation_check (ev_crypto E) (peer_age (ns_peer info)) sig \<and>
     (\<forall>other \<in> set (peers_joined (sec_members s)).
        relocation_check (ev_crypto E) (peer_age (ns_peer other)) sig \<longrightarrow>
        peer_age (ns_peer other) \<le> peer_age (ns_peer info)) \<and>
     action = relocate_action_new E P s n (ns_peer info) churn"
    unfolding actions_set by blast
  show ?thesis
    unfolding mem
    by (cases action)
      (auto simp: relocate_action_new_def Let_def relocation_destination_def sec_is_elder_def authority_provider_def
        relocate_details_new_def relocate_details_with_age_def older_def)
qed

definition adult_section :: "bls_public_key list section_state" where
  "adult_section =
     \<lparr>sec_genesis_key = BlsPk 1, sec_chain = [BlsPk 1],
      sec_auth = token_signed 1 (section_auth_new [] [] (PkSet 1)),
      sec_members = [(5, token_signed 1 (joined_state (peer_new 5 7)))]\<rparr>"

theorem relocation_actions_oldest_witness:
  "(joined_state (peer_new 5 7),
    Instant \<lparr>rd_pub_id = 5, rd_destination = 64, rd_destination_key = BlsPk 1, rd_age = 6\<rparr>)
      \<in> set (relocation_actions token_env (source_pmap bit_ops other_prefix) adult_section network_new 3 (BlsSig 32))"
  unfolding relocation_actions_oldest
  by (simp add: adult_section_def peers_joined_def peer_age_def last_byte_def relocation_check_def token_crypto_def
      trailing_zeros_def byte_trailing_zeros_def upt_rec name_bytes_def network_key_by_name_def source_pmap_def
      network_new_def get_matching_def list_chain_def section_auth_new_def contains_elder_def bt_contains_def bt_collect_def)

text \<open>A relocated node proves that it is the node the section relocated: the payload it
  builds with its old key pair is accepted for its new name, and the details in it are those
  the section signed. The hypotheses are the laws of ed25519: a signature made with a key pair
  verifies, and the old name is the public key.\<close>

theorem relocate_payload_identity:
  assumes "\<And>m. ed_verify cr (kp_public old) m (ed_sign cr old m)"
    and "ed_from_bytes cr (rd_pub_id details) = Some (kp_public old)"
    and "msg_variant msg = Relocate details"
  shows "\<exists>sd. signed_relocate_details_new msg = Inr sd \<and>
    verify_identity cr (relocate_payload_new cr sd new_name old) new_name \<and>
    relocate_payload_details (relocate_payload_new cr sd new_name old) = Inr details \<and>
    signed_relocate_destination sd = Inr (rd_destination details) \<and>
    signed_relocate_destination_key sd = Inr (rd_destination_key details)"
  using assms
  by (simp add: signed_relocate_details_new_def verify_identity_def relocate_payload_new_def
      relocate_payload_details_def signed_relocate_details_def signed_relocate_destination_def
      signed_relocate_destination_key_def ed_pub_key_def)

theorem relocate_payload_identity_witness:
  "\<exists>sd. signed_relocate_details_new
      (RoutingMsg (MessageId 0) (NodeAuth (EdPk 3) (EdSig 3) :: unit src_authority) (DstNode 3) AggNone
        (Relocate \<lparr>rd_pub_id = 3, rd_destination = 9, rd_destination_key = BlsPk 1, rd_age = 6\<rparr>) (BlsPk 1)) = Inr sd \<and>
    verify_identity token_crypto (relocate_payload_new token_crypto sd 7 \<lparr>kp_secret = 0, kp_public = EdPk 3\<rparr>) 7"
  using relocate_payload_identity [of token_crypto "\<lparr>kp_secret = 0, kp_public = EdPk 3\<rparr>"
      "\<lparr>rd_pub_id = 3, rd_destination = 9, rd_destination_key = BlsPk 1, rd_age = 6\<rparr>"
      "RoutingMsg (MessageId 0) (NodeAuth (EdPk 3) (EdSig 3) :: unit src_authority) (DstNode 3) AggNone
        (Relocate \<lparr>rd_pub_id = 3, rd_destination = 9, rd_destination_key = BlsPk 1, rd_age = 6\<rparr>) (BlsPk 1)" 7]
  by (auto simp: token_crypto_def)

end
