(* ===== verification/Routing_Messages.thy ===== *)
theory Routing_Messages
  imports Section_State
begin

text \<open>
  Creating, accumulating and verifying routing messages: \<open>src/messages/mod.rs\<close> and
  \<open>src/messages/src_authority.rs\<close>. The payload that is signed is the pair of destination
  and variant, \<open>PView dst variant\<close>.
\<close>

section \<open>Source authorities\<close>

definition src_location_of :: "'c crypto_ops \<Rightarrow> 'c src_authority \<Rightarrow> src_location" where
  "src_location_of cr src =
     (case src of
        NodeAuth public_key _ \<Rightarrow> SrcNode (ed_name cr public_key)
      | BlsShareAuth src_name _ _ \<Rightarrow> SrcSection src_name
      | SectionSrcAuth src_name _ _ \<Rightarrow> SrcSection src_name)"

definition src_is_section :: "'c src_authority \<Rightarrow> bool" where
  "src_is_section src = (case src of SectionSrcAuth _ _ _ \<Rightarrow> True | _ \<Rightarrow> False)"

definition src_name_of :: "'c crypto_ops \<Rightarrow> 'c src_authority \<Rightarrow> xor_name" where
  "src_name_of cr src =
     (case src of
        NodeAuth public_key _ \<Rightarrow> ed_name cr public_key
      | BlsShareAuth src_name _ _ \<Rightarrow> src_name
      | SectionSrcAuth src_name _ _ \<Rightarrow> src_name)"

definition src_peer :: "'c crypto_ops \<Rightarrow> 'c src_authority \<Rightarrow> socket_addr \<Rightarrow> error + peer" where
  "src_peer cr src addr =
     (case src of
        NodeAuth public_key _ \<Rightarrow> Inr (peer_new (ed_name cr public_key) addr)
      | SectionSrcAuth _ _ _ \<Rightarrow> Inl InvalidSrcLocation
      | BlsShareAuth _ _ _ \<Rightarrow> Inl InvalidSrcLocation)"

section \<open>Messages\<close>

datatype verify_status = Full | Unknown

datatype message_status = Useful | Useless | Untrusted

definition signable_view :: "'c routing_msg \<Rightarrow> 'c payload" where
  "signable_view msg = PView (msg_dst msg) (msg_variant msg)"

definition check_signature :: "'c crypto_ops \<Rightarrow> 'c routing_msg \<Rightarrow> error + unit" where
  "check_signature cr msg =
     and_then (ok_or InvalidMessage (serialize cr (PView (msg_dst msg) (msg_variant msg)))) (\<lambda>signed_bytes.
     case msg_src msg of
       NodeAuth public_key signature \<Rightarrow>
         if \<not> ed_verify cr public_key signed_bytes signature then Inl (CreateError CreateFailedSignature) else Inr ()
     | BlsShareAuth _ signed_share _ \<Rightarrow>
         if \<not> share_verify cr signed_share signed_bytes then Inl (CreateError CreateFailedSignature)
         else if pks_public_key cr (sh_public_key_set signed_share) \<noteq> msg_section_pk msg
         then Inl (CreateError CreateFailedSignature) else Inr ()
     | SectionSrcAuth _ sg _ \<Rightarrow>
         if \<not> bls_verify cr (msg_section_pk msg) (sg_signature sg) signed_bytes
         then Inl (CreateError CreateFailedSignature) else Inr ())"

definition new_signed ::
  "'c crypto_ops \<Rightarrow> 'c src_authority \<Rightarrow> dst_location \<Rightarrow> 'c variant \<Rightarrow> bls_public_key \<Rightarrow> error + 'c routing_msg" where
  "new_signed cr src dst variant section_pk =
     (let mid = (case (case src of
                         NodeAuth _ signature \<Rightarrow> id_from_content cr (IdEdSignature signature)
                       | BlsShareAuth _ signed_share _ \<Rightarrow>
                           id_from_content cr (IdSignatureShare (sh_signature_share signed_share))
                       | SectionSrcAuth _ sg _ \<Rightarrow> id_from_content cr (IdSignature (sg_signature sg))) of
                   Some i \<Rightarrow> i
                 | None \<Rightarrow> id_default cr)
      in Inr (RoutingMsg mid src dst AggNone variant section_pk))"

definition for_dst_accumulation ::
  "'c env \<Rightarrow> section_key_share \<Rightarrow> xor_name \<Rightarrow> dst_location \<Rightarrow> 'c variant \<Rightarrow> 'c \<Rightarrow> error + 'c routing_msg" where
  "for_dst_accumulation E ks src_name dst variant section_chain =
     and_then (ok_or InvalidMessage (serialize (ev_crypto E) (PView dst variant))) (\<lambda>serialized.
     let signature_share = share_sign (ev_crypto E) (ks_secret_key_share ks) serialized;
         signed_share = \<lparr>sh_public_key_set = ks_public_key_set ks, sh_index = ks_index ks,
                         sh_signature_share = signature_share\<rparr>
     in new_signed (ev_crypto E) (BlsShareAuth src_name signed_share section_chain) dst variant
          (sll_last_key (ev_chain E) section_chain))"

definition into_dst_accumulated :: "'c crypto_ops \<Rightarrow> 'c routing_msg \<Rightarrow> signed \<Rightarrow> error + 'c routing_msg" where
  "into_dst_accumulated cr msg sg =
     (case msg_src msg of
        BlsShareAuth src_name signed_share section_chain \<Rightarrow>
          if pks_public_key cr (sh_public_key_set signed_share) \<noteq> sg_public_key sg then Inl InvalidMessage
          else if sg_public_key sg \<noteq> msg_section_pk msg then Inl InvalidMessage
          else and_then (ok_or InvalidMessage (serialize cr (signable_view msg))) (\<lambda>bytes.
               if \<not> signed_verify cr sg bytes then Inl FailedSignature
               else Inr (RoutingMsg (msg_id msg) (SectionSrcAuth src_name sg section_chain) (msg_dst msg)
                          (msg_aggregation msg) (msg_variant msg) (msg_section_pk msg)))
      | _ \<Rightarrow> Inl InvalidMessage)"

definition single_src ::
  "'c crypto_ops \<Rightarrow> node \<Rightarrow> dst_location \<Rightarrow> 'c variant \<Rightarrow> bls_public_key \<Rightarrow> error + 'c routing_msg" where
  "single_src cr node dst variant section_pk =
     and_then (ok_or InvalidMessage (serialize cr (PView dst variant))) (\<lambda>serialized.
     let signature = ed_sign cr (nd_keypair node) serialized;
         src = NodeAuth (kp_public (nd_keypair node)) signature
     in new_signed cr src dst variant section_pk)"

definition section_src :: "'c env \<Rightarrow> 'c plain_message \<Rightarrow> signed \<Rightarrow> 'c \<Rightarrow> error + 'c routing_msg" where
  "section_src E plain sg section_chain =
     new_signed (ev_crypto E) (SectionSrcAuth (pm_src plain) sg section_chain) (pm_dst plain) (pm_variant plain)
       (sll_last_key (ev_chain E) section_chain)"

definition trust_status :: "'c env \<Rightarrow> 'c \<Rightarrow> bls_public_key list \<Rightarrow> verify_status" where
  "trust_status E chain trusted_keys = (if sll_check_trust (ev_chain E) chain trusted_keys then Full else Unknown)"

definition verify_variant :: "'c env \<Rightarrow> 'c routing_msg \<Rightarrow> bls_public_key list \<Rightarrow> error + verify_status" where
  "verify_variant E msg trusted_keys =
     (case msg_variant msg of
        JoinResponse resp \<Rightarrow>
          (case resp of
             Approval _ section_auth node_state section_chain \<Rightarrow>
               if \<not> section_signed_verify E PSectionAuth section_auth section_chain then Inl InvalidMessage
               else if \<not> section_signed_verify E PNodeState node_state section_chain then Inl InvalidMessage
               else Inr (trust_status E section_chain trusted_keys)
           | _ \<Rightarrow> Inr Full)
      | SectionKnowledge _ chain _ \<Rightarrow> Inr (trust_status E chain trusted_keys)
      | Sync section0 _ \<Rightarrow> Inr (trust_status E (sec_chain section0) trusted_keys)
      | _ \<Rightarrow> Inr Full)"

definition message_verify :: "'c env \<Rightarrow> 'c routing_msg \<Rightarrow> bls_public_key list \<Rightarrow> error + verify_status" where
  "message_verify E msg trusted_keys =
     and_then (ok_or InvalidMessage (serialize (ev_crypto E) (PView (msg_dst msg) (msg_variant msg)))) (\<lambda>bytes.
     case msg_src msg of
       NodeAuth public_key signature \<Rightarrow>
         if \<not> ed_verify (ev_crypto E) public_key bytes signature then Inl FailedSignature
         else verify_variant E msg trusted_keys
     | BlsShareAuth _ signed_share section_chain \<Rightarrow>
         if pks_public_key (ev_crypto E) (sh_public_key_set signed_share) \<noteq> msg_section_pk msg then Inl InvalidMessage
         else if \<not> share_verify (ev_crypto E) signed_share bytes then Inl FailedSignature
         else Inr (trust_status E section_chain trusted_keys)
     | SectionSrcAuth _ sg section_chain \<Rightarrow>
         if \<not> bls_verify (ev_crypto E) (msg_section_pk msg) (sg_signature sg) bytes then Inl FailedSignature
         else Inr (trust_status E section_chain trusted_keys))"

definition msg_signed :: "'c routing_msg \<Rightarrow> signed option" where
  "msg_signed msg = (case msg_src msg of SectionSrcAuth _ sg _ \<Rightarrow> Some sg | _ \<Rightarrow> None)"

definition updated_with_latest_key :: "bls_public_key \<Rightarrow> 'c routing_msg \<Rightarrow> 'c routing_msg" where
  "updated_with_latest_key section_pk msg =
     RoutingMsg (msg_id msg) (msg_src msg) (msg_dst msg) (msg_aggregation msg) (msg_variant msg) section_pk"

section \<open>The laws of the signature schemes\<close>

text \<open>A signature made with a secret key verifies under its public key; a share made with a
  share of a section key verifies under the key set and index it belongs to; and
  \<open>Signed::verify\<close> is the verification of its signature under its key.\<close>

definition ed_laws :: "'c crypto_ops \<Rightarrow> bool" where
  "ed_laws cr \<longleftrightarrow> (\<forall>kp m. ed_verify cr (kp_public kp) m (ed_sign cr kp m))"

definition genuine_share :: "'c crypto_ops \<Rightarrow> section_key_share \<Rightarrow> bool" where
  "genuine_share cr ks \<longleftrightarrow>
     (\<forall>m. share_verify cr \<lparr>sh_public_key_set = ks_public_key_set ks, sh_index = ks_index ks,
            sh_signature_share = share_sign cr (ks_secret_key_share ks) m\<rparr> m)"

definition signed_laws :: "'c crypto_ops \<Rightarrow> bool" where
  "signed_laws cr \<longleftrightarrow> (\<forall>sg m. signed_verify cr sg m = bls_verify cr (sg_public_key sg) (sg_signature sg) m)"

lemma token_env_laws:
  "ed_laws (token_crypto :: bls_public_key list crypto_ops)"
  "signed_laws (token_crypto :: bls_public_key list crypto_ops)"
  by (simp_all add: ed_laws_def signed_laws_def token_crypto_def)

lemma new_signed_simps [simp]: "new_signed cr src dst variant pk = Inr msg \<Longrightarrow>
    msg_src msg = src \<and> msg_dst msg = dst \<and> msg_variant msg = variant \<and> msg_section_pk msg = pk \<and>
    msg_aggregation msg = AggNone"
  by (auto simp: new_signed_def)

section \<open>Properties\<close>

text \<open>C23. What a node signs is accepted: a message made by \<open>single_src\<close> passes the
  signature check of every receiver and its verification comes down to the checks of its
  variant; a share message made by \<open>for_dst_accumulation\<close> with a share of the last key of
  the chain passes the check and is verified as far as the receiver trusts the chain. Creation
  fails only when the payload cannot be serialised.\<close>

theorem created_messages_verify:
  assumes "ed_laws (ev_crypto E)" and "genuine_share (ev_crypto E) ks"
    and "pks_public_key (ev_crypto E) (ks_public_key_set ks) = sll_last_key (ev_chain E) chain"
    and "serialize (ev_crypto E) (PView dst variant) = Some bytes"
  shows "(\<exists>msg. single_src (ev_crypto E) node dst variant pk = Inr msg \<and>
       check_signature (ev_crypto E) msg = Inr () \<and>
       (\<forall>keys. message_verify E msg keys = verify_variant E msg keys)) \<and>
    (\<exists>msg. for_dst_accumulation E ks name dst variant chain = Inr msg \<and>
       check_signature (ev_crypto E) msg = Inr () \<and>
       (\<forall>keys. message_verify E msg keys = Inr (trust_status E chain keys)))"
  using assms
  by (auto simp: single_src_def for_dst_accumulation_def new_signed_def Let_def check_signature_def
      message_verify_def ed_laws_def genuine_share_def)

theorem created_messages_verify_witness:
  "\<exists>msg. for_dst_accumulation token_env
      \<lparr>ks_public_key_set = PkSet 1, ks_index = 0, ks_secret_key_share = SkShare 0\<rparr> 5 (DstSection 3)
      (UserMessage [1, 2]) [BlsPk 1] = Inr msg \<and>
     check_signature token_crypto msg = Inr () \<and> message_verify token_env msg [BlsPk 1] = Inr Full"
  using created_messages_verify [of token_env "\<lparr>ks_public_key_set = PkSet 1, ks_index = 0, ks_secret_key_share = SkShare 0\<rparr>"
      "[BlsPk 1]" "DstSection 3" "UserMessage [1, 2]" "[]" undefined undefined 5] token_env_laws(1)
  by (auto simp: genuine_share_def token_crypto_simps list_chain_simps trust_status_def)

text \<open>C24. Accumulation at the destination turns a share message into a section message
  exactly when the combined signature is by the key of the share, that key is the section key
  of the message, and the signature is valid for the payload. Id, destination and payload are
  kept, and the result passes the signature check and is trusted as far as its chain. Every
  other input is rejected, with \<open>FailedSignature\<close> when only the signature is wrong.\<close>

theorem into_dst_accumulated_correct:
  assumes "signed_laws (ev_crypto E)"
  shows "case into_dst_accumulated (ev_crypto E) msg sg of
      Inr msg' \<Rightarrow> \<exists>name sh chain. msg_src msg = BlsShareAuth name sh chain \<and>
        pks_public_key (ev_crypto E) (sh_public_key_set sh) = msg_section_pk msg \<and>
        sg_public_key sg = msg_section_pk msg \<and> verify_signed (ev_crypto E) sg (signable_view msg) \<and>
        msg_src msg' = SectionSrcAuth name sg chain \<and> msg_signed msg' = Some sg \<and>
        msg_id msg' = msg_id msg \<and> signable_view msg' = signable_view msg \<and>
        check_signature (ev_crypto E) msg' = Inr () \<and>
        message_verify E msg' keys = Inr (trust_status E chain keys)
    | Inl e \<Rightarrow> (\<exists>name sh chain. msg_src msg = BlsShareAuth name sh chain \<and>
          pks_public_key (ev_crypto E) (sh_public_key_set sh) = msg_section_pk msg \<and>
          sg_public_key sg = msg_section_pk msg \<and> serialize (ev_crypto E) (signable_view msg) \<noteq> None)
        = (e = FailedSignature) \<and> (e = FailedSignature \<or> e = InvalidMessage) \<and>
        (e = FailedSignature \<longrightarrow> \<not> verify_signed (ev_crypto E) sg (signable_view msg))"
  using assms
  by (cases "msg_src msg"; cases "serialize (ev_crypto E) (signable_view msg)")
    (auto simp: into_dst_accumulated_def verify_signed_def signed_laws_def msg_signed_def check_signature_def
      message_verify_def signable_view_def)

definition share_message :: "bls_public_key list routing_msg" where
  "share_message = RoutingMsg (MessageId 4)
     (BlsShareAuth 5 \<lparr>sh_public_key_set = PkSet 1, sh_index = 0, sh_signature_share = SigShare 0\<rparr> [BlsPk 1])
     (DstSection 3) AggNone (UserMessage [1, 2]) (BlsPk 1)"

theorem into_dst_accumulated_correct_witness:
  "\<exists>msg'. into_dst_accumulated token_crypto share_message \<lparr>sg_public_key = BlsPk 1, sg_signature = BlsSig 1\<rparr> = Inr msg' \<and>
     check_signature token_crypto msg' = Inr ()"
proof -
  obtain msg' where msg': "into_dst_accumulated token_crypto share_message
      \<lparr>sg_public_key = BlsPk 1, sg_signature = BlsSig 1\<rparr> = Inr msg'"
    by (simp add: into_dst_accumulated_def share_message_def token_crypto_def)
  show ?thesis
    using into_dst_accumulated_correct [of token_env share_message "\<lparr>sg_public_key = BlsPk 1, sg_signature = BlsSig 1\<rparr>" "[]"]
      token_env_laws(2) msg' by auto
qed

text \<open>What verification of a section message does and does not bind: the result is
  determined by whether the signature is valid under the key that travels in the message and by
  whether the receiver trusts the attached chain. The two are not connected: any trusted chain
  makes a message signed under any key fully verified, whether or not the chain has that key.\<close>

theorem section_verify_key_not_in_chain:
  assumes "msg_src msg = SectionSrcAuth name sg chain"
    and "serialize (ev_crypto E) (signable_view msg) = Some bytes"
    and "bls_verify (ev_crypto E) (msg_section_pk msg) (sg_signature sg) bytes"
    and "sll_check_trust (ev_chain E) chain keys"
  shows "message_verify E msg keys = Inr Full \<and> check_signature (ev_crypto E) msg = Inr ()"
  using assms by (simp add: message_verify_def check_signature_def signable_view_def trust_status_def)

theorem section_verify_key_not_in_chain_witness:
  "message_verify token_env
      (RoutingMsg (MessageId 0) (SectionSrcAuth 0 \<lparr>sg_public_key = BlsPk 9, sg_signature = BlsSig 9\<rparr> [BlsPk 1])
        (DstSection 3) AggNone (UserMessage []) (BlsPk 9)) [BlsPk 1] = Inr Full \<and>
    \<not> sll_has_key list_chain [BlsPk 1] (BlsPk 9)"
  using section_verify_key_not_in_chain [of "RoutingMsg (MessageId 0)
      (SectionSrcAuth 0 \<lparr>sg_public_key = BlsPk 9, sg_signature = BlsSig 9\<rparr> [BlsPk 1])
      (DstSection 3) AggNone (UserMessage []) (BlsPk 9)" 0 _ "[BlsPk 1]" token_env "[]" "[BlsPk 1]"]
  by (simp add: token_crypto_def list_chain_def)

end
