(* ===== verification/Section_Sync.thy ===== *)
theory Section_Sync
  imports Section_State
begin

text \<open>
  Convergence of the elders of a section. Each of two elders sends its section to the other in
  a \<open>Sync\<close> message and merges what it gets (\<open>Section::merge\<close> of \<open>src/section/mod.rs\<close>). For
  each name the merge keeps the entry in the later state, and its own of two entries that are equally late.
\<close>

section \<open>The later of two entries\<close>

definition info_rank :: "node_state section_signed \<Rightarrow> nat" where
  "info_rank info = state_rank (ns_state (ss_value info))"

definition later_info :: "node_state section_signed option \<Rightarrow> node_state section_signed option \<Rightarrow> node_state section_signed option" where
  "later_info x y =
     (case (x, y) of
        (None, _) \<Rightarrow> y
      | (_, None) \<Rightarrow> x
      | (Some own, Some other) \<Rightarrow> if info_rank own < info_rank other then y else x)"

definition member_state :: "section_peers \<Rightarrow> xor_name \<Rightarrow> membership_state option" where
  "member_state m name = map_option (\<lambda>info. ns_state (ss_value info)) (bt_get m name)"

lemma later_info_simps [simp]:
  "later_info x None = x"
  "later_info None y = y"
  "later_info (Some own) (Some other) = (if info_rank own < info_rank other then Some other else Some own)"
  by (simp_all add: later_info_def split: option.split)

text \<open>Only the destination of a relocation is not determined by the rank.\<close>

lemma state_rank_eqD:
  "state_rank st = state_rank st' \<Longrightarrow> st = st' \<or> (\<exists>d d'. st = Relocated d \<and> st' = Relocated d')"
  by (cases st; cases st') auto

lemma later_info_state:
  "map_option (\<lambda>info. ns_state (ss_value info)) (later_info x y) = map_option (\<lambda>info. ns_state (ss_value info)) (later_info y x) \<or>
    (\<exists>own other d d'. x = Some own \<and> y = Some other \<and>
      ns_state (ss_value own) = Relocated d \<and> ns_state (ss_value other) = Relocated d')"
proof (cases x; cases y)
  fix own other assume "x = Some own" "y = Some other"
  then show ?thesis
    using state_rank_eqD [of "ns_state (ss_value own)" "ns_state (ss_value other)"]
    by (cases "info_rank own" "info_rank other" rule: linorder_cases) (auto simp: info_rank_def)
qed simp_all

lemma peers_update_get:
  assumes "peers_inv m"
  shows "bt_get (snd (peers_update m info)) =
    (bt_get m)(peer_name (ns_peer (ss_value info)) := later_info (bt_get m (peer_name (ns_peer (ss_value info)))) (Some info))"
  using assms
  by (auto simp: peers_update_eq Let_def member_rank_def info_rank_def fun_eq_iff split: option.splits)

lemma update_all_get:
  assumes "peers_inv m" "distinct (map fst m')" "\<forall>(name, info) \<in> set m'. peer_name (ns_peer (ss_value info)) = name"
  shows "bt_get (update_all m (map snd m')) name = later_info (bt_get m name) (bt_get m' name)"
  using assms
proof (induction m' arbitrary: m)
  case Nil
  then show ?case by (simp add: update_all_def)
next
  case (Cons p m')
  obtain n info where p: "p = (n, info)" by (cases p)
  have n: "peer_name (ns_peer (ss_value info)) = n" using Cons.prems(3) p by simp
  have fresh: "map_of m' n = None" using Cons.prems(2) p by (simp add: map_of_eq_None_iff)
  have "bt_get (update_all m (map snd (p # m'))) name = later_info (bt_get (snd (peers_update m info)) name) (bt_get m' name)"
    using Cons.IH [of "snd (peers_update m info)"] Cons.prems p by (simp add: update_all_def)
  then show ?case
    using peers_update_get [OF Cons.prems(1), of info] n fresh p by simp
qed

section \<open>What a merge makes of the members\<close>

text \<open>Members that are signed by keys of the merged chain are all taken up.\<close>

lemma update_members_all:
  "\<forall>info \<in> set infos. section_signed_verify E PNodeState info (sec_chain s) \<Longrightarrow>
    sec_members (update_members E s infos) = update_all (sec_members s) infos"
  by (induction infos arbitrary: s) (simp_all add: update_members_def update_all_def update_member_def split_beta)

lemma section_merge_get:
  assumes "chain_laws (ev_chain E)" "section_inv E s" "section_inv E other" "section_merge E s other = (Inr (), s')"
    and "set (sll_keys (ev_chain E) (sec_chain other)) \<subseteq> set (sll_keys (ev_chain E) (sec_chain s'))"
  shows "bt_get (sec_members s') name =
    (if pf_matches (ev_xor E) (sec_prefix s') name
     then later_info (bt_get (sec_members s) name) (bt_get (sec_members other) name) else None)"
proof -
  obtain chain auth where s': "s' = prune_members E (update_members E (s\<lparr>sec_chain := chain, sec_auth := auth\<rparr>) (bt_values (sec_members other)))"
    using assms(4) [unfolded section_merge_Inr] by blast
  define s1 where "s1 = s\<lparr>sec_chain := chain, sec_auth := auth\<rparr>"
  have s1: "sec_members s1 = sec_members s" "sec_chain s1 = sec_chain s'" "sec_auth s1 = sec_auth s'"
    by (simp_all add: s' s1_def)
  have inv: "peers_inv (sec_members s)" "peers_inv (sec_members other)" using assms(2,3) by (simp_all add: section_inv_def)
  have "section_signed_verify E PNodeState info (sec_chain s1)" if "info \<in> set (bt_values (sec_members other))" for info
    using that assms(3) verify_more_keys [OF assms(1) _ assms(5)] s1(2) by (auto simp: section_inv_def)
  then have members: "sec_members (update_members E s1 (bt_values (sec_members other))) =
      update_all (sec_members s) (bt_values (sec_members other))"
    using update_members_all s1(1) by metis
  have "bt_inv (update_all (sec_members s) infos)" for infos using update_all_inv [OF inv(1)] by (simp add: peers_inv_def)
  moreover have "bt_get (update_all (sec_members s) (bt_values (sec_members other))) name =
      later_info (bt_get (sec_members s) name) (bt_get (sec_members other) name)"
    using inv by (intro update_all_get) (auto simp: peers_inv_def intro: bt_inv_distinct)
  moreover have "sec_members s' = prune_not_matching (ev_xor E) (sec_prefix s') (update_all (sec_members s) (bt_values (sec_members other)))"
    using members s1(3) by (simp add: s' s1_def prune_members_def sec_prefix_def)
  ultimately show ?thesis by (simp add: prune_not_matching_get)
qed

section \<open>Properties\<close>

text \<open>C11. Elders that exchange their sections converge, given that the merge of their two chains does
  not depend on its direction. When the last keys of their chains differ both end with the same authority
  provider, that of the elder whose last key is the last of the merged chain; when the last keys are equal
  each takes the authority provider of the other. Each holds, for every name that matches the prefix it
  ends with, the entry in the later state, and its own when the states are equally late, so that nothing
  is lost, and no entry for any other name. When they end with the same prefix, they agree for
  every name on whether it is a member and on its state, up to the destination of a member that both
  already knew as relocated.\<close>

theorem sync_converges:
  assumes "chain_laws (ev_chain E)" and "section_inv E a" and "section_inv E b"
    and "section_merge E a b = (Inr (), a')" and "section_merge E b a = (Inr (), b')"
    and "sec_chain a' = sec_chain b'"
  shows "(if sll_last_key (ev_chain E) (sec_chain a) = sll_last_key (ev_chain E) (sec_chain b)
          then sec_auth a' = sec_auth b \<and> sec_auth b' = sec_auth a
          else sec_auth a' = sec_auth b' \<and>
            sec_auth a' = (if sll_last_key (ev_chain E) (sec_chain a') = sll_last_key (ev_chain E) (sec_chain a)
                           then sec_auth a else sec_auth b)) \<and>
    (\<forall>name. bt_get (sec_members a') name =
       (if pf_matches (ev_xor E) (sec_prefix a') name
        then later_info (bt_get (sec_members a) name) (bt_get (sec_members b) name) else None) \<and>
      bt_get (sec_members b') name =
       (if pf_matches (ev_xor E) (sec_prefix b') name
        then later_info (bt_get (sec_members b) name) (bt_get (sec_members a) name) else None)) \<and>
    (sec_prefix a' = sec_prefix b' \<longrightarrow>
      (\<forall>name. member_state (sec_members a') name = member_state (sec_members b') name \<or>
        (\<exists>d d'. member_state (sec_members a) name = Some (Relocated d) \<and> member_state (sec_members b) name = Some (Relocated d'))))"
proof -
  let ?last = "sll_last_key (ev_chain E)" and ?key = "\<lambda>s. sg_public_key (ss_signed (sec_auth s))"
  have keys: "?key a = ?last (sec_chain a)" "?key b = ?last (sec_chain b)" using assms(2,3) by (simp_all add: section_inv_def)
  have auth: "sec_auth a' = (if ?key b = ?last (sec_chain a') then sec_auth b else sec_auth a)"
    "sec_auth b' = (if ?key a = ?last (sec_chain b') then sec_auth a else sec_auth b)"
    using assms(4,5) by (auto simp: section_merge_Inr)
  have merged: "sll_merge (ev_chain E) (sec_chain a) (sec_chain b) = Inr (sec_chain a')"
    "sll_merge (ev_chain E) (sec_chain b) (sec_chain a) = Inr (sec_chain b')"
    using assms(4,5) by (auto simp: section_merge_Inr)
  note grown = chain_laws_merge [OF assms(1) merged(1)] chain_laws_merge [OF assms(1) merged(2)]
  have sub: "set (sll_keys (ev_chain E) (sec_chain b)) \<subseteq> set (sll_keys (ev_chain E) (sec_chain a'))"
    "set (sll_keys (ev_chain E) (sec_chain a)) \<subseteq> set (sll_keys (ev_chain E) (sec_chain b'))"
    using grown assms(6) by simp_all
  have get: "bt_get (sec_members a') name = (if pf_matches (ev_xor E) (sec_prefix a') name
        then later_info (bt_get (sec_members a) name) (bt_get (sec_members b) name) else None)"
    "bt_get (sec_members b') name = (if pf_matches (ev_xor E) (sec_prefix b') name
        then later_info (bt_get (sec_members b) name) (bt_get (sec_members a) name) else None)" for name
    using section_merge_get [OF assms(1,2,3,4) sub(1)] section_merge_get [OF assms(1,3,2,5) sub(2)] by auto
  have "member_state (sec_members a') name = member_state (sec_members b') name \<or>
      (\<exists>d d'. member_state (sec_members a) name = Some (Relocated d) \<and> member_state (sec_members b) name = Some (Relocated d'))"
    if "sec_prefix a' = sec_prefix b'" for name
    using later_info_state [of "bt_get (sec_members a) name" "bt_get (sec_members b) name"] that
    by (auto simp: member_state_def get)
  moreover have "if ?last (sec_chain a) = ?last (sec_chain b)
      then sec_auth a' = sec_auth b \<and> sec_auth b' = sec_auth a
      else sec_auth a' = sec_auth b' \<and>
        sec_auth a' = (if ?last (sec_chain a') = ?last (sec_chain a) then sec_auth a else sec_auth b)"
    using auth keys grown assms(6) by auto
  ultimately show ?thesis using get by blast
qed

definition lagging_section :: "bls_public_key list section_state" where
  "lagging_section = \<lparr>sec_genesis_key = BlsPk 1, sec_chain = [BlsPk 1],
     sec_auth = token_signed 1 (section_auth_new [peer_new 9 3] [] (PkSet 1)),
     sec_members = [(5, token_signed 1 (joined_state (peer_new 5 7)))]\<rparr>"

definition leading_section :: "bls_public_key list section_state" where
  "leading_section = \<lparr>sec_genesis_key = BlsPk 1, sec_chain = [BlsPk 1, BlsPk 2],
     sec_auth = token_signed 2 (section_auth_new [peer_new 9 3] [] (PkSet 2)),
     sec_members = [(5, token_signed 2 \<lparr>ns_peer = peer_new 5 7, ns_state = Left\<rparr>)]\<rparr>"

theorem sync_converges_witness:
  "\<exists>a' b'. section_merge token_env lagging_section leading_section = (Inr (), a') \<and>
     section_merge token_env leading_section lagging_section = (Inr (), b') \<and>
     sec_auth a' = sec_auth leading_section \<and> sec_auth b' = sec_auth leading_section \<and>
     member_state (sec_members a') 5 = Some Left \<and> member_state (sec_members b') 5 = Some Left"
proof -
  let ?a = lagging_section and ?b = leading_section
  obtain a' b' where merges: "section_merge token_env ?a ?b = (Inr (), a')" "section_merge token_env ?b ?a = (Inr (), b')"
    and chains: "sec_chain a' = sec_chain b'" and last: "sll_last_key (ev_chain token_env) (sec_chain a') = BlsPk 2"
    by (simp add: section_merge_Inr lagging_section_def leading_section_def list_chain_simps self_verify_def verify_signed_def
        token_crypto_simps section_auth_new_def sec_prefix_def)
  have inv: "section_inv token_env ?a" "section_inv token_env ?b"
    by (simp_all add: section_inv_def peers_inv_def lagging_section_def leading_section_def list_chain_simps joined_state_def
        section_signed_verify_def self_verify_def verify_signed_def token_crypto_simps peer_new_def)
  note sync = sync_converges [OF token_env_chain_laws inv merges chains]
  have "sll_last_key (ev_chain token_env) (sec_chain ?a) = BlsPk 1" "sll_last_key (ev_chain token_env) (sec_chain ?b) = BlsPk 2"
    by (simp_all add: lagging_section_def leading_section_def list_chain_simps)
  then have auth: "sec_auth a' = sec_auth ?b" "sec_auth b' = sec_auth ?b" using sync last by auto
  then have "sec_prefix a' = []" "sec_prefix b' = []"
    by (simp_all add: sec_prefix_def leading_section_def section_auth_new_def)
  moreover have "pf_matches (ev_xor token_env) [] 5" by (simp add: bits.matches_iff)
  ultimately have "member_state (sec_members a') 5 = Some Left" "member_state (sec_members b') 5 = Some Left"
    using sync by (simp_all add: member_state_def lagging_section_def leading_section_def joined_state_def info_rank_def)
  then show ?thesis using merges auth by blast
qed

end
