(* ===== verification/Commands.thy ===== *)
theory Commands
  imports Dkg_Voter Routing_Messages Relocation
begin

text \<open>
  The commands the handlers of a node return and the dispatcher executes
  (\<open>src/routing/command.rs\<close>), the translation of the commands of a key generation session
  into them (\<open>src/dkg/commands.rs\<close>), proposals and their aggregation
  (\<open>src/dkg/proposal.rs\<close>, \<open>src/messages/plain_message.rs\<close>). The messages of clients
  are opaque; the signature aggregator of \<open>sn_messaging\<close> is the parameter
  \<open>aggregator_ops\<close>.
\<close>

section \<open>Commands\<close>

datatype client_msg = ClientMsg nat

datatype section_info_msg =
    GetSectionQuery nat
  | GetSectionResponse get_section_response
  | SectionInfoUpdate nat

datatype 'c message_type =
    NodeType nat
  | RoutingType dest_info "'c routing_msg"
  | SectionInfoType dest_info section_info_msg
  | ClientType dest_info client_msg

record itinerary =
  it_src :: src_location
  it_dst :: dst_location
  it_aggregation :: aggregation

datatype 'c command =
    HandleMessage "socket_addr option" "'c routing_msg" dest_info
  | HandleSectionInfoMsg socket_addr section_info_msg dest_info
  | HandleTimeout u64
  | HandleConnectionLost socket_addr
  | HandlePeerLost socket_addr
  | HandleAgreement "'c proposal" signed
  | HandleDkgOutcome section_auth section_key_share
  | HandleDkgFailure dkg_failure_signed_set
  | SendMessage "(xor_name \<times> socket_addr) list" nat "'c message_type"
  | SendUserMessage itinerary bytes "bls_public_key option"
  | ScheduleTimeout nat u64
  | RelocateCommand "socket_addr list" "'c routing_msg" nat
  | SetJoinsAllowed bool
  | ProposeOnline peer "xor_name option" "bls_public_key option"
  | ProposeOffline xor_name
  | StartConnectivityTestCommand xor_name
  | TestConnectivity xor_name

definition send_message_to_nodes ::
  "(xor_name \<times> socket_addr) list \<Rightarrow> nat \<Rightarrow> 'c routing_msg \<Rightarrow> dest_info \<Rightarrow> 'c command" where
  "send_message_to_nodes recipients delivery_group_size msg dest_info =
     SendMessage recipients delivery_group_size (RoutingType dest_info msg)"

definition send_message_to_node :: "xor_name \<times> socket_addr \<Rightarrow> 'c routing_msg \<Rightarrow> dest_info \<Rightarrow> 'c command" where
  "send_message_to_node recipient msg dest_info = send_message_to_nodes [recipient] 1 msg dest_info"

definition into_command :: "'c crypto_ops \<Rightarrow> node \<Rightarrow> bls_public_key \<Rightarrow> dkg_command \<Rightarrow> error + 'c command" where
  "into_command cr node key command =
     (case command of
        DkgSendMessage recipients dkg_key message \<Rightarrow>
          (let variant = DkgMessage dkg_key message
           in and_then (single_src cr node DirectAndUnrouted variant key) (\<lambda>message.
              Inr (send_message_to_nodes recipients (length recipients) message
                     \<lparr>di_dest = RandomDest, di_section_pk = key\<rparr>)))
      | DkgScheduleTimeout duration token \<Rightarrow> Inr (ScheduleTimeout duration token)
      | DkgHandleOutcome section_auth outcome \<Rightarrow> Inr (HandleDkgOutcome section_auth outcome)
      | DkgSendFailureObservation recipients dkg_key sg non_participants \<Rightarrow>
          (let variant = DkgFailureObservation dkg_key sg non_participants
           in and_then (single_src cr node DirectAndUnrouted variant key) (\<lambda>message.
              Inr (send_message_to_nodes recipients (length recipients) message
                     \<lparr>di_dest = RandomDest, di_section_pk = key\<rparr>)))
      | DkgHandleFailureAgreement signeds \<Rightarrow> Inr (HandleDkgFailure signeds))"

definition into_commands :: "'c crypto_ops \<Rightarrow> node \<Rightarrow> bls_public_key \<Rightarrow> dkg_command list \<Rightarrow> error + 'c command list" where
  "into_commands cr node key commands = collect_results (map (into_command cr node key) commands)"

definition option_into_commands ::
  "'c crypto_ops \<Rightarrow> node \<Rightarrow> bls_public_key \<Rightarrow> dkg_command option \<Rightarrow> error + 'c command list" where
  "option_into_commands cr node key command =
     collect_results (map (into_command cr node key) (case command of None \<Rightarrow> [] | Some c \<Rightarrow> [c]))"

section \<open>Proposals\<close>

definition plain_as_signable :: "'c plain_message \<Rightarrow> 'c payload" where
  "plain_as_signable message = PView (pm_dst message) (pm_variant message)"

text \<open>What is serialised of a proposal for signing.\<close>

definition proposal_signable :: "'c proposal \<Rightarrow> 'c payload" where
  "proposal_signable p =
     (case p of
        Online node_state _ _ \<Rightarrow> PNodeState node_state
      | Offline node_state \<Rightarrow> PNodeState node_state
      | SectionInfo info \<Rightarrow> PSectionAuth info
      | OurElders info \<Rightarrow> PPublicKey (sg_public_key (ss_signed info))
      | AccumulateAtSrc message _ \<Rightarrow> plain_as_signable message
      | JoinsAllowed mid joins_allowed \<Rightarrow> PJoinsAllowed mid joins_allowed)"

definition prove ::
  "'c crypto_ops \<Rightarrow> 'c proposal \<Rightarrow> public_key_set \<Rightarrow> nat \<Rightarrow> secret_key_share \<Rightarrow> error + signed_share" where
  "prove cr p public_key_set index secret_key_share =
     and_then (ok_or (ProposalError InvalidProposal) (serialize cr (proposal_signable p))) (\<lambda>bytes.
     Inr \<lparr>sh_public_key_set = public_key_set, sh_index = index, sh_signature_share = share_sign cr secret_key_share bytes\<rparr>)"

record 'a aggregator_ops =
  agg_default :: 'a
  agg_add :: "'a \<Rightarrow> bytes \<Rightarrow> signed_share \<Rightarrow> (aggregator_error + signed) \<times> 'a"

definition proposal_aggregator_add ::
  "'c crypto_ops \<Rightarrow> 'a aggregator_ops \<Rightarrow> 'a \<Rightarrow> 'c proposal \<Rightarrow> signed_share
    \<Rightarrow> (proposal_error + 'c proposal \<times> signed) \<times> 'a" where
  "proposal_aggregator_add cr A agg p sh =
     (case serialize cr (proposal_signable p) of
        None \<Rightarrow> (Inl InvalidProposal, agg)
      | Some bytes \<Rightarrow>
          (case agg_add A agg bytes sh of
             (Inl e, agg') \<Rightarrow> (Inl (Aggregation e), agg')
           | (Inr sg, agg') \<Rightarrow> (Inr (p, sg), agg')))"

section \<open>Lemmas\<close>

lemma into_commands_length: "into_commands cr node key cs = Inr cmds \<Longrightarrow> length cmds = length cs"
  unfolding into_commands_def collect_results_Inr by (metis length_map)

end
