(* ===== verification/Delivery_Group.thy ===== *)
theory Delivery_Group
  imports Network_Knowledge
begin

text \<open>
  Whom to send a message to: \<open>src/routing/core/delivery_group.rs\<close>.
\<close>

section \<open>Definitions\<close>

definition get_peer :: "xor_ops \<Rightarrow> xor_name \<Rightarrow> 'c section_state \<Rightarrow> network \<Rightarrow> peer option" where
  "get_peer X name section0 network =
     (case map_option ns_peer (peers_get (sec_members section0) name) of
        Some p \<Rightarrow> Some p
      | None \<Rightarrow> network_get_elder (section_pmap X) network name)"

definition min_dg_size :: nat where
  "min_dg_size = 1 + ELDER_SIZE - supermajority ELDER_SIZE"

text \<open>The loop over the sections, the closest first, with the candidates gathered so far; the
  flag says that this is the first iteration.\<close>

fun candidates_loop ::
  "xor_ops \<Rightarrow> xor_name \<Rightarrow> xor_name \<Rightarrow> pfx \<Rightarrow> bool \<Rightarrow> section_auth list \<Rightarrow> peer list \<Rightarrow> nat \<Rightarrow> peer list \<times> nat" where
  "candidates_loop X target_name our_name our_prefix first [] candidates dg_size = (candidates, dg_size)"
| "candidates_loop X target_name our_name our_prefix first (info # sections) candidates dg_size =
     (let len = elder_count info;
          candidates1 = candidates @ sap_peers info;
          dg_size1 = (if pf_matches X (sa_prefix info) target_name then len else min len dg_size)
      in if sa_prefix info = our_prefix
         then let candidates2 = filter (\<lambda>node. peer_name node \<noteq> our_name) candidates1
              in (candidates2, length candidates2)
         else if first \<and> dg_size1 \<le> length candidates1 then (candidates1, dg_size1)
         else candidates_loop X target_name our_name our_prefix False sections candidates1 dg_size1)"

definition delivery_candidates ::
  "xor_ops \<Rightarrow> xor_name \<Rightarrow> xor_name \<Rightarrow> 'c section_state \<Rightarrow> network \<Rightarrow> error + peer list \<times> nat" where
  "delivery_candidates X target_name our_name section0 network =
     (let sections = sort_by (\<lambda>lhs rhs. pf_cmp_distance X (sa_prefix lhs) (sa_prefix rhs) target_name)
            (authority_provider section0 # network_all network);
          (candidates0, dg_size) =
            candidates_loop X target_name our_name (sec_prefix section0) True sections [] min_dg_size;
          candidates = sort_by (\<lambda>lhs rhs. xn_cmp_distance X target_name (peer_name lhs) (peer_name rhs)) candidates0
      in if 0 < dg_size \<and> dg_size \<le> length candidates then Inr (candidates, dg_size) else Inl CannotRoute)"

definition section_candidates ::
  "xor_ops \<Rightarrow> xor_name \<Rightarrow> xor_name \<Rightarrow> 'c section_state \<Rightarrow> network \<Rightarrow> error + peer list \<times> nat" where
  "section_candidates X target_name our_name section0 network =
     (let info = (case min_by (\<lambda>lhs rhs. pf_cmp_distance X (sa_prefix lhs) (sa_prefix rhs) target_name)
                         (authority_provider section0 # network_all network) of
                    Some i \<Rightarrow> i
                  | None \<Rightarrow> authority_provider section0)
      in if sa_prefix info = sec_prefix section0
         then let chosen_section = filter (\<lambda>node. peer_name node \<noteq> our_name) (sap_peers info)
              in Inr (chosen_section, length chosen_section)
         else delivery_candidates X target_name our_name section0 network)"

definition delivery_targets ::
  "xor_ops \<Rightarrow> dst_location \<Rightarrow> xor_name \<Rightarrow> 'c section_state \<Rightarrow> network \<Rightarrow> error + peer list \<times> nat" where
  "delivery_targets X dst our_name section0 network =
     (if \<not> sec_is_elder section0 our_name
      then let targets = sap_peers (authority_provider section0) in Inr (targets, length targets)
      else case dst of
             DstSection target_name \<Rightarrow> section_candidates X target_name our_name section0 network
           | DstEndUser user \<Rightarrow> section_candidates X (eu_xorname user) our_name section0 network
           | DstNode target_name \<Rightarrow>
               if target_name = our_name then Inr ([], 0)
               else (case get_peer X target_name section0 network of
                       Some node \<Rightarrow> Inr ([node], 1)
                     | None \<Rightarrow> delivery_candidates X target_name our_name section0 network)
           | DirectAndUnrouted \<Rightarrow> Inl CannotRoute)"

section \<open>Lemmas\<close>

text \<open>The elders we know of: our own and those of the other sections.\<close>

definition known_elders :: "'c section_state \<Rightarrow> network \<Rightarrow> peer set" where
  "known_elders section0 network = (\<Union>sap \<in> set (authority_provider section0 # network_all network). set (sap_peers sap))"

lemma length_sap_peers [simp]: "length (sap_peers sap) = elder_count sap"
  by (simp add: sap_peers_def elder_count_def)

lemma candidates_loop_sub:
  "candidates_loop X t our p f sections cs n = (cs', n') \<Longrightarrow>
    set cs' \<subseteq> set cs \<union> (\<Union>sap \<in> set sections. set (sap_peers sap))"
  by (induction sections arbitrary: f cs n) (fastforce simp: Let_def split: if_splits)+

text \<open>The size never exceeds the candidates once a section has been seen.\<close>

lemma candidates_loop_size:
  "candidates_loop X t our p f sections cs n = (cs', n') \<Longrightarrow> sections \<noteq> [] \<or> n \<le> length cs \<Longrightarrow> n' \<le> length cs'"
  by (induction sections arbitrary: f cs n) (force simp: Let_def split: if_splits)+

lemma delivery_candidates_Inr:
  assumes "delivery_candidates X t our s nw = Inr (targets, n)"
  shows "0 < n \<and> n \<le> length targets \<and> set targets \<subseteq> known_elders s nw \<and>
    (\<exists>cs. targets = sort_by (\<lambda>lhs rhs. xn_cmp_distance X t (peer_name lhs) (peer_name rhs)) cs)"
proof -
  let ?secs = "sort_by (\<lambda>lhs rhs. pf_cmp_distance X (sa_prefix lhs) (sa_prefix rhs) t)
    (authority_provider s # network_all nw)"
  obtain cs dg where loop: "candidates_loop X t our (sec_prefix s) True ?secs [] min_dg_size = (cs, dg)"
    by (cases "candidates_loop X t our (sec_prefix s) True ?secs [] min_dg_size")
  have "set cs \<subseteq> known_elders s nw"
    using candidates_loop_sub [OF loop] unfolding known_elders_def by (simp del: sort_by.simps)
  then show ?thesis
    using assms loop by (auto simp: delivery_candidates_def Let_def simp del: sort_by.simps split: if_splits)
qed

lemma delivery_candidates_Inl:
  assumes "delivery_candidates X t our s nw = Inl e"
  shows "e = CannotRoute \<and>
    snd (candidates_loop X t our (sec_prefix s) True (sort_by (\<lambda>lhs rhs. pf_cmp_distance X (sa_prefix lhs) (sa_prefix rhs) t)
      (authority_provider s # network_all nw)) [] min_dg_size) = 0"
proof -
  let ?secs = "sort_by (\<lambda>lhs rhs. pf_cmp_distance X (sa_prefix lhs) (sa_prefix rhs) t)
    (authority_provider s # network_all nw)"
  obtain cs dg where loop: "candidates_loop X t our (sec_prefix s) True ?secs [] min_dg_size = (cs, dg)"
    by (cases "candidates_loop X t our (sec_prefix s) True ?secs [] min_dg_size")
  have "length ?secs \<noteq> 0" by (simp del: sort_by.simps)
  then have "dg \<le> length cs" using candidates_loop_size [OF loop] by force
  then show ?thesis
    using assms loop by (auto simp: delivery_candidates_def Let_def simp del: sort_by.simps split: if_splits)
qed

lemma section_candidates_ours:
  assumes "xor_space X" "pf_matches X (sec_prefix s) t" "\<And>sap. sap \<in> set (network_all nw) \<Longrightarrow> \<not> pf_matches X (sa_prefix sap) t"
  shows "section_candidates X t our s nw =
    Inr (filter (\<lambda>p. peer_name p \<noteq> our) (sap_peers (authority_provider s)),
         length (filter (\<lambda>p. peer_name p \<noteq> our) (sap_peers (authority_provider s))))"
proof -
  let ?cmp = "\<lambda>lhs rhs. pf_cmp_distance X (sa_prefix lhs) (sa_prefix rhs) t"
  obtain i where i: "min_by ?cmp (authority_provider s # network_all nw) = Some i" by simp
  have ours: "sa_prefix (authority_provider s) = sec_prefix s" by (simp add: authority_provider_def sec_prefix_def)
  have "pf_matches X (sa_prefix i) t"
    by (rule xor_space.closest_matches [OF assms(1) i, of "authority_provider s"]) (use assms(2) ours in simp_all)
  then have "i = authority_provider s" using min_by_mem [OF i] assms(3) by auto
  then show ?thesis using i by (simp add: section_candidates_def Let_def ours del: min_by.simps)
qed

text \<open>What is sent towards a target that is not known: to elders the node knows, the closest to the target first.\<close>

definition routed_by_distance :: "xor_ops \<Rightarrow> xor_name \<Rightarrow> 'c section_state \<Rightarrow> network \<Rightarrow> error + peer list \<times> nat \<Rightarrow> bool" where
  "routed_by_distance X t s nw result \<longleftrightarrow>
     (case result of
        Inl e \<Rightarrow> e = CannotRoute
      | Inr (targets, n) \<Rightarrow> 0 < n \<and> n \<le> length targets \<and> set targets \<subseteq> known_elders s nw \<and>
          sorted_wrt (\<lambda>a b. xn_cmp_distance X t (peer_name a) (peer_name b) \<noteq> Greater) targets)"

lemma delivery_candidates_routed:
  assumes "xor_space X"
  shows "routed_by_distance X t s nw (delivery_candidates X t our s nw)"
proof (cases "delivery_candidates X t our s nw")
  case (Inl e)
  then show ?thesis using delivery_candidates_Inl [OF Inl] by (simp add: routed_by_distance_def)
next
  case (Inr r)
  have total: "total_cmp (\<lambda>a b. xn_cmp_distance X t (peer_name a) (peer_name b))"
    using total_cmp_key [OF xor_space.distance_total [OF assms]] .
  obtain targets n where r: "r = (targets, n)" by (cases r)
  show ?thesis
    using delivery_candidates_Inr [OF Inr [unfolded r]] Inr r total_cmp.sorted_sort_by [OF total] by (auto simp: routed_by_distance_def)
qed

lemma section_candidates_routed:
  assumes "xor_space X"
  shows "(\<exists>own \<in> set (authority_provider s # network_all nw). sa_prefix own = sec_prefix s \<and>
      section_candidates X t our s nw = Inr (filter (\<lambda>p. peer_name p \<noteq> our) (sap_peers own),
        length (filter (\<lambda>p. peer_name p \<noteq> our) (sap_peers own)))) \<or>
    routed_by_distance X t s nw (section_candidates X t our s nw)"
proof -
  obtain i where i: "min_by (\<lambda>lhs rhs. pf_cmp_distance X (sa_prefix lhs) (sa_prefix rhs) t) (authority_provider s # network_all nw) = Some i"
    by simp
  show ?thesis
  proof (cases "sa_prefix i = sec_prefix s")
    case True
    then have "section_candidates X t our s nw = Inr (filter (\<lambda>p. peer_name p \<noteq> our) (sap_peers i),
        length (filter (\<lambda>p. peer_name p \<noteq> our) (sap_peers i)))"
      using i by (simp add: section_candidates_def Let_def del: min_by.simps)
    then show ?thesis using min_by_mem [OF i] True by blast
  next
    case False
    then have "section_candidates X t our s nw = delivery_candidates X t our s nw"
      using i by (simp add: section_candidates_def Let_def del: min_by.simps)
    then show ?thesis using delivery_candidates_routed [OF assms, of t s nw our] by simp
  qed
qed

text \<open>A section that matches the name comes first in the order of distance.\<close>

lemma hd_sort_by:
  assumes "\<And>a b. P a \<Longrightarrow> \<not> P b \<Longrightarrow> cmp a b = Less \<and> cmp b a = Greater" "\<exists>x \<in> set xs. P x"
  shows "P (hd (sort_by cmp xs))"
  using assms(2)
proof (induction xs)
  case (Cons x xs)
  show ?case
  proof (cases "sort_by cmp xs")
    case Nil
    then have "xs = []" by (metis length_sort_by length_0_conv list.size(3))
    then show ?thesis using Cons.prems by simp
  next
    case (Cons y ys)
    then have "y \<in> set xs" by (metis list.set_intros(1) set_sort_by)
    moreover have "P y \<or> (\<forall>z \<in> set xs. \<not> P z)" using Cons.IH Cons by auto
    ultimately show ?thesis using Cons assms(1) [of x y] assms(1) [of y x] Cons.prems by auto
  qed
qed simp

lemma delivery_candidates_known:
  assumes "xor_space X" "sap \<in> set (network_all nw)" "pf_matches X (sa_prefix sap) t" "\<not> pf_matches X (sec_prefix s) t"
    and "\<And>sap'. sap' \<in> set (network_all nw) \<Longrightarrow> pf_matches X (sa_prefix sap') t \<Longrightarrow> sap' = sap" "0 < elder_count sap"
  shows "delivery_candidates X t our s nw =
    Inr (sort_by (\<lambda>lhs rhs. xn_cmp_distance X t (peer_name lhs) (peer_name rhs)) (sap_peers sap), elder_count sap)"
proof -
  let ?secs = "sort_by (\<lambda>lhs rhs. pf_cmp_distance X (sa_prefix lhs) (sa_prefix rhs) t) (authority_provider s # network_all nw)"
  have ours: "sa_prefix (authority_provider s) = sec_prefix s" by (simp add: authority_provider_def sec_prefix_def)
  have "set ?secs = set (authority_provider s # network_all nw)" by (rule set_sort_by)
  then obtain i rest where secs: "?secs = i # rest" and i: "i \<in> set (authority_provider s # network_all nw)"
    by (cases ?secs) auto
  have "pf_matches X (sa_prefix (hd ?secs)) t"
    using xor_space.closer_match [OF assms(1)] assms(2,3) by (intro hd_sort_by [where P = "\<lambda>a. pf_matches X (sa_prefix a) t"]) auto
  then have "i = sap" using i secs ours assms(4,5) by auto
  moreover have "sa_prefix sap \<noteq> sec_prefix s" using assms(3,4) by auto
  ultimately have "candidates_loop X t our (sec_prefix s) True ?secs [] min_dg_size = (sap_peers sap, elder_count sap)"
    using secs assms(3) by (simp add: Let_def)
  then show ?thesis using assms(6) by (simp add: delivery_candidates_def Let_def del: sort_by.simps)
qed

lemma section_candidates_known:
  assumes "xor_space X" "sap \<in> set (network_all nw)" "pf_matches X (sa_prefix sap) t" "\<not> pf_matches X (sec_prefix s) t"
  shows "section_candidates X t our s nw = delivery_candidates X t our s nw"
proof -
  let ?cmp = "\<lambda>lhs rhs. pf_cmp_distance X (sa_prefix lhs) (sa_prefix rhs) t"
  obtain i where i: "min_by ?cmp (authority_provider s # network_all nw) = Some i" by simp
  have "pf_matches X (sa_prefix i) t"
    by (rule xor_space.closest_matches [OF assms(1) i, of sap]) (use assms(2,3) in simp_all)
  then have "sa_prefix i \<noteq> sec_prefix s" using assms(4) by auto
  then show ?thesis using i by (simp add: section_candidates_def Let_def del: min_by.simps)
qed

section \<open>Properties\<close>

text \<open>C25. The targets a message is sent to. An adult relays every message through all elders of its
  section. For an elder, let \<open>t\<close> be the name a message for a section or an end user is addressed to. When
  only its own section matches \<open>t\<close>, the message goes to exactly the other elders of the
  section, all of which have to receive it. When its own section does not match \<open>t\<close> and one known section
  with elders does, it goes to all elders of that section, the closest to \<open>t\<close> first, all of which have to receive it. In
  every case it goes to the other elders of a section with the node's own prefix or is routed to known elders in the order of their
  distance to \<open>t\<close>, a positive number of which has to receive it, not more than there are targets; the only error is
  \<open>CannotRoute\<close>. A message for another node goes to that node when it is a known member or
  elder and is routed to known elders otherwise, one for the elder itself has no targets, and a direct message cannot be routed.\<close>

theorem delivery_targets_correct:
  assumes "xor_space X"
  shows "(\<not> sec_is_elder s our \<longrightarrow> delivery_targets X dst our s nw =
      Inr (sap_peers (authority_provider s), elder_count (authority_provider s))) \<and>
    (sec_is_elder s our \<and> (dst = DstSection t \<or> (\<exists>i. dst = DstEndUser \<lparr>eu_xorname = t, eu_socket_id = i\<rparr>)) \<longrightarrow>
       (pf_matches X (sec_prefix s) t \<and> (\<forall>sap \<in> set (network_all nw). \<not> pf_matches X (sa_prefix sap) t) \<longrightarrow>
         delivery_targets X dst our s nw = Inr (filter (\<lambda>p. peer_name p \<noteq> our) (sap_peers (authority_provider s)),
           length (filter (\<lambda>p. peer_name p \<noteq> our) (sap_peers (authority_provider s))))) \<and>
       (\<not> pf_matches X (sec_prefix s) t \<and> sap \<in> set (network_all nw) \<and> pf_matches X (sa_prefix sap) t \<and> 0 < elder_count sap \<and>
         (\<forall>sap' \<in> set (network_all nw). pf_matches X (sa_prefix sap') t \<longrightarrow> sap' = sap) \<longrightarrow>
         delivery_targets X dst our s nw =
           Inr (sort_by (\<lambda>lhs rhs. xn_cmp_distance X t (peer_name lhs) (peer_name rhs)) (sap_peers sap), elder_count sap)) \<and>
       ((\<exists>own \<in> set (authority_provider s # network_all nw). sa_prefix own = sec_prefix s \<and>
          delivery_targets X dst our s nw = Inr (filter (\<lambda>p. peer_name p \<noteq> our) (sap_peers own),
            length (filter (\<lambda>p. peer_name p \<noteq> our) (sap_peers own)))) \<or>
        routed_by_distance X t s nw (delivery_targets X dst our s nw))) \<and>
    (sec_is_elder s our \<and> dst = DstNode t \<and> t \<noteq> our \<longrightarrow>
       (case get_peer X t s nw of
          Some p \<Rightarrow> delivery_targets X dst our s nw = Inr ([p], 1)
        | None \<Rightarrow> routed_by_distance X t s nw (delivery_targets X dst our s nw))) \<and>
    (sec_is_elder s our \<and> dst = DstNode our \<longrightarrow> delivery_targets X dst our s nw = Inr ([], 0)) \<and>
    (sec_is_elder s our \<and> dst = DirectAndUnrouted \<longrightarrow> delivery_targets X dst our s nw = Inl CannotRoute)"
proof (intro conjI impI)
  let ?ours = "\<lambda>own. Inr (filter (\<lambda>p. peer_name p \<noteq> our) (sap_peers own), length (filter (\<lambda>p. peer_name p \<noteq> our) (sap_peers own)))"
  show "delivery_targets X dst our s nw = Inr (sap_peers (authority_provider s), elder_count (authority_provider s))"
    if "\<not> sec_is_elder s our" using that by (simp add: delivery_targets_def)
  let ?section = "sec_is_elder s our \<and> (dst = DstSection t \<or> (\<exists>i. dst = DstEndUser \<lparr>eu_xorname = t, eu_socket_id = i\<rparr>))"
  have to_section: "delivery_targets X dst our s nw = section_candidates X t our s nw" if ?section
    using that by (auto simp: delivery_targets_def)
  show "delivery_targets X dst our s nw = ?ours (authority_provider s)"
    if ?section "pf_matches X (sec_prefix s) t \<and> (\<forall>sap \<in> set (network_all nw). \<not> pf_matches X (sa_prefix sap) t)"
    using to_section [OF that(1)] section_candidates_ours [OF assms, of s t nw our] that(2) by simp
  show "delivery_targets X dst our s nw =
      Inr (sort_by (\<lambda>lhs rhs. xn_cmp_distance X t (peer_name lhs) (peer_name rhs)) (sap_peers sap), elder_count sap)"
    if ?section "\<not> pf_matches X (sec_prefix s) t \<and> sap \<in> set (network_all nw) \<and> pf_matches X (sa_prefix sap) t \<and> 0 < elder_count sap \<and>
      (\<forall>sap' \<in> set (network_all nw). pf_matches X (sa_prefix sap') t \<longrightarrow> sap' = sap)"
    unfolding to_section [OF that(1)]
    using section_candidates_known [OF assms, of sap nw t s our] delivery_candidates_known [OF assms, of sap nw t s our] that(2) by metis
  show "(\<exists>own \<in> set (authority_provider s # network_all nw). sa_prefix own = sec_prefix s \<and> delivery_targets X dst our s nw = ?ours own) \<or>
      routed_by_distance X t s nw (delivery_targets X dst our s nw)" if ?section
    unfolding to_section [OF that] by (rule section_candidates_routed [OF assms])
  show "case get_peer X t s nw of Some p \<Rightarrow> delivery_targets X dst our s nw = Inr ([p], 1)
      | None \<Rightarrow> routed_by_distance X t s nw (delivery_targets X dst our s nw)"
    if "sec_is_elder s our \<and> dst = DstNode t \<and> t \<noteq> our"
    using that delivery_candidates_routed [OF assms, of t s nw our] by (simp add: delivery_targets_def split: option.split)
qed (simp_all add: delivery_targets_def)

definition one_elder_section :: "unit section_state" where
  "one_elder_section = \<lparr>sec_genesis_key = BlsPk 1, sec_chain = (),
     sec_auth = token_signed 1 (section_auth_new [peer_new 5 7, peer_new 6 8] [] (PkSet 1)), sec_members = []\<rparr>"

theorem delivery_targets_correct_witness:
  "delivery_targets bit_ops (DstSection 9) 5 one_elder_section network_new = Inr ([set_reachable True (peer_new 6 8)], 1)"
  using delivery_targets_correct [OF bits.xor_space_axioms, of one_elder_section 5 "DstSection 9" network_new 9]
  by (simp add: one_elder_section_def sec_is_elder_def authority_provider_def contains_elder_def bt_contains_def
      section_auth_new_def bt_collect_def sec_prefix_def bits.matches_iff network_new_def network_all_def sap_peers_def)

end
