(* ===== verification/End_Users.thy ===== *)
theory End_Users
  imports Stand_Ins
begin

text \<open>
  The registry of clients connected to a node: \<open>src/routing/enduser_registry.rs\<close>.
\<close>

record end_user_registry =
  er_clients :: "(socket_addr, end_user) btree_map"
  er_socket_id_mapping :: "(xor_name, socket_addr) btree_map"

definition end_user_registry_new :: end_user_registry where
  "end_user_registry_new = \<lparr>er_clients = [], er_socket_id_mapping = []\<rparr>"

definition get_enduser_by_addr :: "end_user_registry \<Rightarrow> socket_addr \<Rightarrow> end_user option" where
  "get_enduser_by_addr r addr = bt_get (er_clients r) addr"

definition get_socket_addr :: "end_user_registry \<Rightarrow> xor_name \<Rightarrow> socket_addr option" where
  "get_socket_addr r socket_id = bt_get (er_socket_id_mapping r) socket_id"

definition end_user_try_add ::
  "'c env \<Rightarrow> end_user_registry \<Rightarrow> socket_addr \<Rightarrow> pfx \<Rightarrow> (error + end_user) \<times> end_user_registry" where
  "end_user_try_add E r sender section_prefix =
     (case serialize (ev_crypto E) (PSocketAddr sender) of
        None \<Rightarrow> (Inl FailedSignature, r)
      | Some bytes \<Rightarrow>
          let socket_id = name_from_content (ev_crypto E) [bytes];
              user_xorname = pf_substituted_in (ev_xor E) section_prefix socket_id;
              end_user = \<lparr>eu_xorname = user_xorname, eu_socket_id = socket_id\<rparr>
          in (Inr end_user,
              case bt_get (er_socket_id_mapping r) socket_id of
                None \<Rightarrow> r\<lparr>er_clients := bt_insert sender end_user (er_clients r),
                          er_socket_id_mapping := bt_insert socket_id sender (er_socket_id_mapping r)\<rparr>
              | Some _ \<Rightarrow> r))"

text \<open>The two maps mirror each other, and a client's socket id is the hash of its address.\<close>

definition registry_inv :: "'c env \<Rightarrow> end_user_registry \<Rightarrow> bool" where
  "registry_inv E r \<longleftrightarrow> bt_inv (er_clients r) \<and> bt_inv (er_socket_id_mapping r) \<and>
     (\<forall>addr user. get_enduser_by_addr r addr = Some user \<longrightarrow>
        get_socket_addr r (eu_socket_id user) = Some addr \<and>
        map_option (\<lambda>b. name_from_content (ev_crypto E) [b]) (serialize (ev_crypto E) (PSocketAddr addr)) =
          Some (eu_socket_id user)) \<and>
     (\<forall>i addr. get_socket_addr r i = Some addr \<longrightarrow>
        (\<exists>user. get_enduser_by_addr r addr = Some user \<and> eu_socket_id user = i))"

lemma end_user_try_add_inv:
  assumes "registry_inv E r"
  shows "registry_inv E (snd (end_user_try_add E r sender p))"
proof (cases "serialize (ev_crypto E) (PSocketAddr sender)")
  case None
  then show ?thesis using assms by (simp add: end_user_try_add_def)
next
  case (Some bytes)
  let ?i = "name_from_content (ev_crypto E) [bytes]"
  show ?thesis
  proof (cases "get_socket_addr r ?i")
    case (Some a)
    then show ?thesis using assms \<open>serialize _ _ = Some bytes\<close>
      by (simp add: end_user_try_add_def Let_def get_socket_addr_def)
  next
    case None
    let ?u = "\<lparr>eu_xorname = pf_substituted_in (ev_xor E) p ?i, eu_socket_id = ?i\<rparr>"
    let ?r = "r\<lparr>er_clients := bt_insert sender ?u (er_clients r),
      er_socket_id_mapping := bt_insert ?i sender (er_socket_id_mapping r)\<rparr>"
    have r': "snd (end_user_try_add E r sender p) = ?r"
      using None Some by (simp add: end_user_try_add_def Let_def get_socket_addr_def)
    have get: "get_enduser_by_addr ?r = (get_enduser_by_addr r)(sender \<mapsto> ?u)"
      "get_socket_addr ?r = (get_socket_addr r)(?i \<mapsto> sender)"
      using assms by (simp_all add: registry_inv_def get_enduser_by_addr_def get_socket_addr_def fun_eq_iff)
    have fresh: "get_enduser_by_addr r sender = None"
    proof (rule ccontr)
      assume "get_enduser_by_addr r sender \<noteq> None"
      then obtain u where "get_enduser_by_addr r sender = Some u" by blast
      with assms Some have "get_socket_addr r (eu_socket_id u) = Some sender" "?i = eu_socket_id u"
        unfolding registry_inv_def by fastforce+
      then show False using None by simp
    qed
    have other: "eu_socket_id u \<noteq> ?i" if "get_enduser_by_addr r a = Some u" for a u
      using assms None that unfolding registry_inv_def by fastforce
    have no_id: "get_socket_addr r i \<noteq> Some sender" for i
      using assms fresh unfolding registry_inv_def by fastforce
    show ?thesis
      unfolding r' registry_inv_def get
      using assms Some None fresh other no_id by (auto simp: registry_inv_def)
  qed
qed

fun try_add_all :: "'c env \<Rightarrow> end_user_registry \<Rightarrow> (socket_addr \<times> pfx) list \<Rightarrow> end_user_registry" where
  "try_add_all E r [] = r"
| "try_add_all E r ((a, p) # cs) = try_add_all E (snd (end_user_try_add E r a p)) cs"

lemma try_add_all_inv: "registry_inv E r \<Longrightarrow> registry_inv E (try_add_all E r cs)"
  by (induction E r cs rule: try_add_all.induct) (simp_all add: end_user_try_add_inv)

section \<open>Properties\<close>

text \<open>C36. Whatever clients are registered, the two maps of the registry mirror each other:
  the socket id of a registered client leads back to its address, and every address a socket
  id leads to belongs to the client with that id. The name given to a client matches the
  prefix it was registered under, so replies are routed through our section.\<close>

theorem end_user_registry_consistent:
  assumes "xor_space (ev_xor E)" and "length p \<le> 256"
    and "end_user_try_add E (try_add_all E end_user_registry_new cs) sender p = (Inr user, r)"
  shows "registry_inv E r \<and> pf_matches (ev_xor E) p (eu_xorname user) \<and>
    (\<exists>addr u. get_socket_addr r (eu_socket_id user) = Some addr \<and>
       get_enduser_by_addr r addr = Some u \<and> eu_socket_id u = eu_socket_id user)"
proof -
  have "registry_inv E end_user_registry_new"
    by (simp add: registry_inv_def end_user_registry_new_def get_enduser_by_addr_def get_socket_addr_def)
  then have inv0: "registry_inv E (try_add_all E end_user_registry_new cs)" by (rule try_add_all_inv)
  then have inv: "registry_inv E r"
    using end_user_try_add_inv [OF inv0, of sender p] assms(3) by simp
  moreover have "get_socket_addr r (eu_socket_id user) \<noteq> None"
    using assms(3) inv0
    by (auto simp: end_user_try_add_def Let_def get_socket_addr_def registry_inv_def split: option.splits)
  moreover have "pf_matches (ev_xor E) p (eu_xorname user)"
    using assms(3) xor_space.substituted_in [OF assms(1,2)]
    by (auto simp: end_user_try_add_def Let_def split: option.splits)
  ultimately show ?thesis by (auto simp: registry_inv_def)
qed

theorem end_user_registry_consistent_witness:
  "registry_inv token_env (snd (end_user_try_add token_env (try_add_all token_env end_user_registry_new [(7, [])]) 9 [True]))"
proof -
  obtain user r where r: "end_user_try_add token_env (try_add_all token_env end_user_registry_new [(7, [])]) 9 [True] = (Inr user, r)"
    by (simp add: end_user_try_add_def token_crypto_def Let_def)
  show ?thesis
    using end_user_registry_consistent [OF _ _ r] bits.xor_space_axioms r by simp
qed

end
