(* ===== verification/Split_Barrier.thy ===== *)
theory Split_Barrier
  imports Section_Authority Stand_Ins
begin

text \<open>
  \<open>src/routing/split_barrier.rs\<close>: holds back an agreed change of elders for one half of a
  split until the change for the other half is agreed too.
\<close>

type_synonym barrier_entry = "section_auth section_signed \<times> signed"
type_synonym split_barrier = "barrier_entry list"

definition split_barrier_new :: split_barrier where
  "split_barrier_new = []"

definition split_barrier_process ::
  "xor_ops \<Rightarrow> split_barrier \<Rightarrow> pfx \<Rightarrow> section_auth section_signed \<Rightarrow> signed \<Rightarrow> barrier_entry list \<times> split_barrier" where
  "split_barrier_process X b our_prefix section_auth key_signed =
     (if \<not> pf_is_extension_of X (sa_prefix (ss_value section_auth)) our_prefix then ([(section_auth, key_signed)], b)
      else let (give, keep) =
                 partition (\<lambda>(cached_section_auth, _).
                   sa_prefix (ss_value cached_section_auth) = pf_sibling X (sa_prefix (ss_value section_auth))) b
           in if give = [] then ([], keep @ [(section_auth, key_signed)])
              else (give @ [(section_auth, key_signed)], keep))"

definition entry_prefix :: "barrier_entry \<Rightarrow> pfx" where
  "entry_prefix e = sa_prefix (ss_value (fst e))"

text \<open>A run of the barrier over agreed entries, each met under the prefix our section then
  has: everything that was released and what is still held.\<close>

fun barrier_run :: "xor_ops \<Rightarrow> split_barrier \<Rightarrow> (pfx \<times> barrier_entry) list \<Rightarrow> barrier_entry list list \<times> split_barrier" where
  "barrier_run X b [] = ([], b)"
| "barrier_run X b ((p, e) # es) =
     (let (out, b') = split_barrier_process X b p (fst e) (snd e);
          (outs, b'') = barrier_run X b' es
      in (out # outs, b''))"

text \<open>No two held entries are for sibling sections.\<close>

definition barrier_inv :: "xor_ops \<Rightarrow> split_barrier \<Rightarrow> bool" where
  "barrier_inv X b \<longleftrightarrow>
     (\<forall>e \<in> set b. entry_prefix e \<noteq> [] \<and> (\<forall>e' \<in> set b. entry_prefix e' \<noteq> pf_sibling X (entry_prefix e)))"

lemma process_split:
  "split_barrier_process X b p sa ks =
    (let sib = filter (\<lambda>e. entry_prefix e = pf_sibling X (sa_prefix (ss_value sa))) b;
         rest = filter (\<lambda>e. entry_prefix e \<noteq> pf_sibling X (sa_prefix (ss_value sa))) b
     in if \<not> pf_is_extension_of X (sa_prefix (ss_value sa)) p then ([(sa, ks)], b)
        else if sib = [] then ([], rest @ [(sa, ks)]) else (sib @ [(sa, ks)], rest))"
  by (simp add: split_barrier_process_def entry_prefix_def Let_def partition_filter_conv case_prod_unfold o_def)

lemma process_conserves:
  "mset (fst (split_barrier_process X b p sa ks)) + mset (snd (split_barrier_process X b p sa ks)) =
    add_mset (sa, ks) (mset b)"
proof -
  have "mset (filter P b) + mset (filter (\<lambda>e. \<not> P e) b) = mset b" for P :: "barrier_entry \<Rightarrow> bool"
    by (induction b) auto
  from this [of "\<lambda>e. entry_prefix e = pf_sibling X (sa_prefix (ss_value sa))"] show ?thesis
    by (auto simp: process_split Let_def simp del: mset_filter)
qed

context xor_space
begin

lemma process_barrier_inv:
  assumes "barrier_inv X b"
  shows "barrier_inv X (snd (split_barrier_process X b p sa ks))"
proof (cases "strict_prefix p (sa_prefix (ss_value sa))")
  case True
  let ?q = "sa_prefix (ss_value sa)"
  have q: "?q \<noteq> []" using True by auto
  let ?rest = "filter (\<lambda>e. entry_prefix e \<noteq> pf_sibling X ?q) b"
  have rest: "barrier_inv X ?rest" using assms unfolding barrier_inv_def by simp
  have "barrier_inv X (?rest @ [(sa, ks)])"
    unfolding barrier_inv_def
  proof (intro ballI conjI)
    fix e e' assume e: "e \<in> set (?rest @ [(sa, ks)])" and e': "e' \<in> set (?rest @ [(sa, ks)])"
    show ne: "entry_prefix e \<noteq> []" using e q assms by (auto simp: barrier_inv_def entry_prefix_def)
    show "entry_prefix e' \<noteq> pf_sibling X (entry_prefix e)"
    proof
      assume eq: "entry_prefix e' = pf_sibling X (entry_prefix e)"
      then have eq': "entry_prefix e = pf_sibling X (entry_prefix e')" by (simp add: sibling_sibling [OF ne])
      consider "e \<in> set ?rest" "e' \<in> set ?rest" | "e = (sa, ks)" | "e' = (sa, ks)" using e e' by auto
      then show False
      proof cases
        case 1
        then show False using rest eq unfolding barrier_inv_def by blast
      next
        case 2
        then show False using eq e' sibling_neq [OF q] by (auto simp: entry_prefix_def)
      next
        case 3
        then show False using eq' e sibling_neq [OF q] by (auto simp: entry_prefix_def)
      qed
    qed
  qed
  then show ?thesis using rest True by (simp add: process_split Let_def)
qed (use assms in \<open>simp add: process_split\<close>)

lemma barrier_run_conserves:
  "barrier_inv X b \<Longrightarrow>
    mset (concat (fst (barrier_run X b es))) + mset (snd (barrier_run X b es)) = mset (map snd es) + mset b \<and>
    barrier_inv X (snd (barrier_run X b es))"
proof (induction es arbitrary: b)
  case (Cons pe es)
  obtain p sa ks where pe: "pe = (p, sa, ks)" by (cases pe) auto
  let ?r = "split_barrier_process X b p sa ks"
  have "mset (concat (fst (barrier_run X (snd ?r) es))) + mset (snd (barrier_run X (snd ?r) es)) =
      mset (map snd es) + mset (snd ?r) \<and> barrier_inv X (snd (barrier_run X (snd ?r) es))"
    by (rule Cons.IH [OF process_barrier_inv [OF Cons.prems]])
  then show ?case
    using process_conserves [of X b p sa ks] by (simp add: pe split_beta union_assoc)
qed simp

end

section \<open>Properties\<close>

text \<open>C20. The split barrier neither loses nor duplicates nor invents: after any sequence of
  agreed entries, those released and those still held are together exactly those that came
  in, and no two held entries are for sibling sections.\<close>

theorem split_barrier_conserves:
  assumes "xor_space X"
  shows "case barrier_run X split_barrier_new es of (outs, held) \<Rightarrow>
    mset (concat outs) + mset held = mset (map snd es) \<and> barrier_inv X held"
  using xor_space.barrier_run_conserves [OF assms, of split_barrier_new es]
  by (simp add: split_barrier_new_def barrier_inv_def split_beta)

theorem split_barrier_conserves_witness:
  "mset (concat (fst (barrier_run bit_ops split_barrier_new
      [([], token_signed 1 (section_auth_new [] [True] (PkSet 2)), \<lparr>sg_public_key = BlsPk 1, sg_signature = BlsSig 1\<rparr>)]))) +
   mset (snd (barrier_run bit_ops split_barrier_new
      [([], token_signed 1 (section_auth_new [] [True] (PkSet 2)), \<lparr>sg_public_key = BlsPk 1, sg_signature = BlsSig 1\<rparr>)])) =
   {#(token_signed 1 (section_auth_new [] [True] (PkSet 2)), \<lparr>sg_public_key = BlsPk 1, sg_signature = BlsSig 1\<rparr>)#}"
  using split_barrier_conserves [OF bits.xor_space_axioms, of
      "[([], token_signed 1 (section_auth_new [] [True] (PkSet 2)), \<lparr>sg_public_key = BlsPk 1, sg_signature = BlsSig 1\<rparr>)]"]
  by (simp only: split_beta) simp

text \<open>A change of elders that does not extend our prefix passes at once. One that does is
  released only together with a change for the sibling section, so both halves of a split
  are always processed at the same time; until then it is held.\<close>

theorem split_barrier_pairs:
  assumes "xor_space X"
  shows "case split_barrier_process X b our_prefix sa ks of (out, held) \<Rightarrow>
    if strict_prefix our_prefix (sa_prefix (ss_value sa))
    then if \<exists>e \<in> set b. entry_prefix e = pf_sibling X (sa_prefix (ss_value sa))
         then out = filter (\<lambda>e. entry_prefix e = pf_sibling X (sa_prefix (ss_value sa))) b @ [(sa, ks)] \<and>
              held = filter (\<lambda>e. entry_prefix e \<noteq> pf_sibling X (sa_prefix (ss_value sa))) b
         else out = [] \<and> held = b @ [(sa, ks)]
    else out = [(sa, ks)] \<and> held = b"
  using assms
  by (auto simp: process_split Let_def xor_space.is_extension_of filter_empty_conv filter_id_conv
      split: if_splits)

theorem split_barrier_pairs_witness:
  "split_barrier_process bit_ops [] [] (token_signed 1 (section_auth_new [] [True] (PkSet 2)))
     \<lparr>sg_public_key = BlsPk 1, sg_signature = BlsSig 1\<rparr> =
   ([], [(token_signed 1 (section_auth_new [] [True] (PkSet 2)), \<lparr>sg_public_key = BlsPk 1, sg_signature = BlsSig 1\<rparr>)])"
  using split_barrier_pairs [OF bits.xor_space_axioms, of "[]"
      "token_signed 1 (section_auth_new [] [True] (PkSet 2))" "[]" "\<lparr>sg_public_key = BlsPk 1, sg_signature = BlsSig 1\<rparr>"]
  by (simp add: section_auth_new_def split: prod.splits)

end
