(* ===== verification/Item_Cache.thy ===== *)
theory Item_Cache
  imports Wire_Types
begin

text \<open>
  The cache of \<open>src/cache/mod.rs\<close> and \<open>src/cache/item.rs\<close>: a \<open>BTreeMap\<close> of items with an
  optional expiry and a capacity. Times are in nanoseconds. \<open>Instant::now()\<close> is an
  argument: an operation that reads the clock in several phases takes one reading for each
  phase.
\<close>

section \<open>Items\<close>

record time =
  tm_start :: nat
  tm_expiry :: nat

record 'v item =
  it_object :: 'v
  it_time :: "time option"

definition item_new :: "'v \<Rightarrow> nat option \<Rightarrow> nat \<Rightarrow> 'v item" where
  "item_new obj item_duration now =
     \<lparr>it_object = obj,
      it_time = map_option (\<lambda>d. \<lparr>tm_start = now, tm_expiry = now + d\<rparr>) item_duration\<rparr>"

definition item_expired :: "nat \<Rightarrow> 'v item \<Rightarrow> bool" where
  "item_expired now it = (case it_time it of None \<Rightarrow> False | Some t \<Rightarrow> tm_expiry t < now)"

text \<open>\<open>elapsed\<close> in whole milliseconds; an item without a duration has no start time and
  counts as new.\<close>

definition item_elapsed :: "nat \<Rightarrow> 'v item \<Rightarrow> nat" where
  "item_elapsed now it =
     (case it_time it of None \<Rightarrow> 0 | Some t \<Rightarrow> now - tm_start t) div 1000000"

section \<open>The cache\<close>

record ('k, 'v) cache =
  ca_items :: "('k, 'v item) btree_map"
  ca_item_duration :: "nat option"
  ca_capacity :: nat

definition with_capacity :: "nat \<Rightarrow> ('k, 'v) cache" where
  "with_capacity capacity = \<lparr>ca_items = [], ca_item_duration = None, ca_capacity = capacity\<rparr>"

definition with_expiry_duration :: "nat \<Rightarrow> ('k, 'v) cache" where
  "with_expiry_duration duration =
     \<lparr>ca_items = [], ca_item_duration = Some duration, ca_capacity = 2 ^ 64 - 1\<rparr>"

definition with_expiry_duration_and_capacity :: "nat \<Rightarrow> nat \<Rightarrow> ('k, 'v) cache" where
  "with_expiry_duration_and_capacity duration capacity =
     \<lparr>ca_items = [], ca_item_duration = Some duration, ca_capacity = capacity\<rparr>"

definition cache_len :: "('k, 'v) cache \<Rightarrow> nat" where
  "cache_len c = length (ca_items c)"

definition cache_is_empty :: "('k, 'v) cache \<Rightarrow> bool" where
  "cache_is_empty c \<longleftrightarrow> ca_items c = []"

definition cache_count :: "('k \<times> 'v item \<Rightarrow> bool) \<Rightarrow> ('k, 'v) cache \<Rightarrow> nat" where
  "cache_count P c = length (filter P (ca_items c))"

definition cache_get :: "nat \<Rightarrow> ('k, 'v) cache \<Rightarrow> 'k \<Rightarrow> 'v option" where
  "cache_get now c key =
     (case bt_get (ca_items c) key of
        None \<Rightarrow> None
      | Some it \<Rightarrow> if item_expired now it then None else Some (it_object it))"

definition remove_expired :: "nat \<Rightarrow> ('k::linorder, 'v) cache \<Rightarrow> ('k, 'v) cache" where
  "remove_expired now c =
     (let expired_keys = map fst (filter (\<lambda>p. item_expired now (snd p)) (ca_items c))
      in c\<lparr>ca_items := foldl (\<lambda>m k. bt_remove k m) (ca_items c) expired_keys\<rparr>)"

definition drop_excess :: "nat \<Rightarrow> ('k::linorder, 'v) cache \<Rightarrow> ('k, 'v) cache" where
  "drop_excess now c =
     (let len = cache_len c
      in if ca_capacity c < len
         then let excess = len - ca_capacity c;
                  items = sort_by (\<lambda>a b. ord_cmp (item_elapsed now (snd b)) (item_elapsed now (snd a)))
                            (ca_items c);
                  excess_keys = map fst (take excess items)
              in c\<lparr>ca_items := foldl (\<lambda>m k. bt_remove k m) (ca_items c) excess_keys\<rparr>
         else c)"

text \<open>\<open>set\<close> reads the clock when it builds the item, when it asks whether the replaced
  item had expired, when it removes expired items and when it drops the excess.\<close>

record clock =
  ck_new :: nat
  ck_replaced :: nat
  ck_expired :: nat
  ck_excess :: nat

definition clock_mono :: "clock \<Rightarrow> bool" where
  "clock_mono t \<longleftrightarrow> ck_new t \<le> ck_replaced t \<and> ck_replaced t \<le> ck_expired t \<and> ck_expired t \<le> ck_excess t"

definition cache_set ::
  "clock \<Rightarrow> ('k::linorder, 'v) cache \<Rightarrow> 'k \<Rightarrow> 'v \<Rightarrow> nat option \<Rightarrow> 'v option \<times> ('k, 'v) cache" where
  "cache_set t c key value custom_duration =
     (let duration = (case custom_duration of None \<Rightarrow> ca_item_duration c | Some d \<Rightarrow> Some d);
          replaced = (case bt_get (ca_items c) key of
                        None \<Rightarrow> None
                      | Some it \<Rightarrow> if item_expired (ck_replaced t) it then None else Some (it_object it));
          c1 = c\<lparr>ca_items := bt_insert key (item_new value duration (ck_new t)) (ca_items c)\<rparr>
      in (replaced, drop_excess (ck_excess t) (remove_expired (ck_expired t) c1)))"

definition cache_remove :: "('k, 'v) cache \<Rightarrow> 'k \<Rightarrow> 'v option \<times> ('k, 'v) cache" where
  "cache_remove c key =
     (map_option it_object (bt_get (ca_items c) key), c\<lparr>ca_items := bt_remove key (ca_items c)\<rparr>)"

definition cache_clear :: "('k, 'v) cache \<Rightarrow> ('k, 'v) cache" where
  "cache_clear c = c\<lparr>ca_items := []\<rparr>"

section \<open>Lemmas\<close>

definition cache_inv :: "('k::linorder, 'v) cache \<Rightarrow> bool" where
  "cache_inv c \<longleftrightarrow> bt_inv (ca_items c) \<and> cache_len c \<le> ca_capacity c"

lemma foldl_bt_remove: "foldl (\<lambda>m k. bt_remove k m) m ks = filter (\<lambda>p. fst p \<notin> set ks) m"
  by (induction ks arbitrary: m) (auto simp: bt_remove_def intro!: filter_cong)

lemma remove_expired_items:
  assumes "bt_inv (ca_items c)"
  shows "ca_items (remove_expired now c) = filter (\<lambda>p. \<not> item_expired now (snd p)) (ca_items c)"
proof -
  have "inj_on fst (set (ca_items c))" using bt_inv_distinct [OF assms] by (simp add: distinct_map)
  then have "fst p \<in> fst ` {q \<in> set (ca_items c). item_expired now (snd q)} \<longleftrightarrow> item_expired now (snd p)"
    if "p \<in> set (ca_items c)" for p
    using that by (subst inj_on_image_mem_iff) auto
  then show ?thesis
    unfolding remove_expired_def Let_def foldl_bt_remove set_map set_filter
    by (auto intro!: filter_cong)
qed

lemma ca_fields [simp]:
  "ca_capacity (remove_expired now c) = ca_capacity c"
  "ca_capacity (drop_excess now c) = ca_capacity c"
  "ca_item_duration (remove_expired now c) = ca_item_duration c"
  "ca_item_duration (drop_excess now c) = ca_item_duration c"
  by (simp_all add: remove_expired_def drop_excess_def Let_def)

lemma bt_inv_remove_expired [simp]:
  "bt_inv (ca_items c) \<Longrightarrow> bt_inv (ca_items (remove_expired now c))"
  by (simp add: remove_expired_items)

lemma bt_inv_drop_excess [simp]: "bt_inv (ca_items c) \<Longrightarrow> bt_inv (ca_items (drop_excess now c))"
  by (simp add: drop_excess_def Let_def foldl_bt_remove)

text \<open>The items by age, oldest first, as \<open>drop_excess\<close> sorts them.\<close>

abbreviation by_age :: "nat \<Rightarrow> ('k \<times> 'v item) list \<Rightarrow> ('k \<times> 'v item) list" where
  "by_age now \<equiv> sort_by (\<lambda>a b. ord_cmp (item_elapsed now (snd b)) (item_elapsed now (snd a)))"

lemma age_cmp_total: "total_cmp (\<lambda>a b. ord_cmp (item_elapsed now (snd b)) (item_elapsed now (snd a)))"
  by (rule total_cmp_key [OF total_cmp_flip [OF ord.total_cmp_axioms], of "\<lambda>p. item_elapsed now (snd p)"])

lemma drop_excess_mset:
  assumes "bt_inv (ca_items c)" "ca_capacity c < cache_len c"
  shows "mset (ca_items (drop_excess now c)) =
    mset (drop (cache_len c - ca_capacity c) (by_age now (ca_items c)))"
proof -
  let ?s = "by_age now (ca_items c)" and ?n = "cache_len c - ca_capacity c"
  have dist: "distinct (map fst ?s)" using assms(1) by (simp add: bt_inv_distinct)
  then have "distinct (map fst (take ?n ?s @ drop ?n ?s))" by simp
  then have disj: "fst ` set (take ?n ?s) \<inter> fst ` set (drop ?n ?s) = {}"
    by (simp only: map_append distinct_append set_map)
  have "mset (filter (\<lambda>p. fst p \<notin> fst ` set (take ?n ?s)) (ca_items c)) =
      mset (filter (\<lambda>p. fst p \<notin> fst ` set (take ?n ?s)) (take ?n ?s @ drop ?n ?s))"
    by (simp only: append_take_drop_id mset_filter mset_sort_by)
  also have "filter (\<lambda>p. fst p \<notin> fst ` set (take ?n ?s)) (take ?n ?s @ drop ?n ?s) = drop ?n ?s"
  proof -
    have "filter (\<lambda>p. fst p \<notin> fst ` set (take ?n ?s)) (take ?n ?s) = []"
      by (auto simp: filter_empty_conv)
    moreover have "filter (\<lambda>p. fst p \<notin> fst ` set (take ?n ?s)) (drop ?n ?s) = drop ?n ?s"
      using disj by (intro filter_True) blast
    ultimately show ?thesis by (simp only: filter_append append_Nil)
  qed
  finally show ?thesis using assms(2) by (simp add: drop_excess_def Let_def foldl_bt_remove)
qed

lemma drop_excess_len: "bt_inv (ca_items c) \<Longrightarrow> cache_len (drop_excess now c) = min (cache_len c) (ca_capacity c)"
proof (cases "ca_capacity c < cache_len c")
  case True
  assume inv: "bt_inv (ca_items c)"
  have "cache_len (drop_excess now c) = length (drop (cache_len c - ca_capacity c) (by_age now (ca_items c)))"
    using drop_excess_mset [OF inv True] unfolding cache_len_def by (metis size_mset)
  then show ?thesis using True by (simp add: cache_len_def)
qed (simp add: drop_excess_def)

lemma drop_excess_oldest:
  assumes "bt_inv (ca_items c)" "p \<in> set (ca_items c)" "p \<notin> set (ca_items (drop_excess now c))"
    and "q \<in> set (ca_items (drop_excess now c))"
  shows "item_elapsed now (snd q) \<le> item_elapsed now (snd p)"
proof -
  have cap: "ca_capacity c < cache_len c"
    using assms by (cases "ca_capacity c < cache_len c") (auto simp: drop_excess_def)
  let ?s = "by_age now (ca_items c)" and ?n = "cache_len c - ca_capacity c"
  have set: "set (ca_items (drop_excess now c)) = set (drop ?n ?s)"
    using drop_excess_mset [OF assms(1) cap] by (metis set_mset_mset)
  have "p \<in> set (take ?n ?s @ drop ?n ?s)" using assms(2) by simp
  then have "p \<in> set (take ?n ?s)" using assms(3) set by (simp only: set_append) auto
  moreover have "q \<in> set (drop ?n ?s)" using assms(4) set by simp
  ultimately have "ord_cmp (item_elapsed now (snd q)) (item_elapsed now (snd p)) \<noteq> Greater"
    using total_cmp.sort_by_best [OF age_cmp_total] by blast
  then show ?thesis by (auto simp: ord_cmp_def split: if_splits)
qed

lemma drop_excess_subset: "set (ca_items (drop_excess now c)) \<subseteq> set (ca_items c)"
  by (auto simp: drop_excess_def Let_def foldl_bt_remove)

lemma drop_excess_id: "cache_len c \<le> ca_capacity c \<Longrightarrow> drop_excess now c = c"
  by (simp add: drop_excess_def)

lemma item_new_fields [simp]: "it_object (item_new v d now) = v"
  by (simp add: item_new_def)

lemma item_new_expired: "item_expired now (item_new v d start) \<longleftrightarrow> (\<exists>x. d = Some x \<and> start + x < now)"
  by (cases d) (auto simp: item_new_def item_expired_def)

lemma map_of_remove_expired:
  assumes "bt_inv (ca_items c)"
  shows "map_of (ca_items (remove_expired now c)) k =
    (case map_of (ca_items c) k of None \<Rightarrow> None | Some it \<Rightarrow> if item_expired now it then None else Some it)"
  using assms
  by (auto simp: remove_expired_items bt_map_of_Some map_of_eq_None_iff split: option.split if_splits)
    (metis bt_inv_filter bt_map_of_Some fst_conv image_eqI mem_Collect_eq option.inject set_filter snd_conv)+

lemma item_expired_mono: "item_expired now it \<Longrightarrow> now \<le> now' \<Longrightarrow> item_expired now' it"
  by (auto simp: item_expired_def split: option.splits)

lemma remove_expired_len: "bt_inv (ca_items c) \<Longrightarrow> cache_len (remove_expired now c) \<le> cache_len c"
  by (simp add: remove_expired_items cache_len_def)

lemma cache_set_inv_lemma:
  assumes "bt_inv (ca_items c)"
  shows "cache_inv (snd (cache_set t c k v d))"
  using assms by (simp add: cache_inv_def cache_set_def Let_def drop_excess_len)

lemma sort_by_equal: "\<forall>a \<in> set xs. \<forall>b \<in> set xs. cmp a b = Equal \<Longrightarrow> sort_by cmp xs = xs"
proof (induction xs)
  case (Cons x xs)
  then show ?case by (cases xs) auto
qed simp

section \<open>Properties\<close>

text \<open>\<open>Cache::set\<close> keeps the store a sorted map within its capacity, whatever clock
  readings it sees and whatever the store held before; what it keeps is the new item or
  an old one that had not expired, and an unexpired item it evicts is at least as old, in
  whole milliseconds, as every item it keeps.\<close>

theorem cache_set_bounded:
  fixes c :: "('k::linorder, 'v) cache" and t :: clock and k :: 'k and v :: 'v and d :: "nat option"
  assumes inv: "bt_inv (ca_items c)"
  defines "new \<equiv> item_new v (case d of None \<Rightarrow> ca_item_duration c | Some x \<Rightarrow> Some x) (ck_new t)"
  defines "c' \<equiv> snd (cache_set t c k v d)"
  shows "cache_inv c' \<and>
    (\<forall>p \<in> set (ca_items c'). (p = (k, new) \<or> p \<in> set (ca_items c)) \<and> \<not> item_expired (ck_expired t) (snd p)) \<and>
    (\<forall>p \<in> insert (k, new) {p \<in> set (ca_items c). fst p \<noteq> k}. \<forall>q \<in> set (ca_items c').
      \<not> item_expired (ck_expired t) (snd p) \<longrightarrow> p \<notin> set (ca_items c')
      \<longrightarrow> item_elapsed (ck_excess t) (snd q) \<le> item_elapsed (ck_excess t) (snd p))"
proof -
  let ?c1 = "c\<lparr>ca_items := bt_insert k new (ca_items c)\<rparr>"
  let ?c2 = "remove_expired (ck_expired t) ?c1"
  have c': "c' = drop_excess (ck_excess t) ?c2"
    by (cases d) (simp_all add: c'_def new_def cache_set_def Let_def)
  have inv1: "bt_inv (ca_items ?c1)" using inv by simp
  have set2: "set (ca_items ?c2) = {p \<in> insert (k, new) {p \<in> set (ca_items c). fst p \<noteq> k}. \<not> item_expired (ck_expired t) (snd p)}"
    using set_bt_insert [OF inv, of k new] by (auto simp: remove_expired_items [OF inv1])
  have "cache_inv c'" unfolding c'_def by (rule cache_set_inv_lemma [OF inv])
  moreover have "set (ca_items c') \<subseteq> set (ca_items ?c2)" unfolding c' by (rule drop_excess_subset)
  moreover have "item_elapsed (ck_excess t) (snd q) \<le> item_elapsed (ck_excess t) (snd p)"
    if "p \<in> set (ca_items ?c2)" "p \<notin> set (ca_items c')" "q \<in> set (ca_items c')" for p q
    using drop_excess_oldest [OF bt_inv_remove_expired [OF inv1]] that unfolding c' by blast
  ultimately show ?thesis unfolding set2 by blast
qed

theorem cache_set_bounded_witness:
  "cache_inv (snd (cache_set \<lparr>ck_new = 9, ck_replaced = 9, ck_expired = 9, ck_excess = 9\<rparr>
     \<lparr>ca_items = [(1 :: nat, item_new (5 :: nat) (Some 20) 3)], ca_item_duration = Some 20, ca_capacity = 1\<rparr>
     2 6 None))"
  using cache_set_bounded [of "\<lparr>ca_items = [(1 :: nat, item_new (5 :: nat) (Some 20) 3)],
      ca_item_duration = Some 20, ca_capacity = 1\<rparr>"
      "\<lparr>ck_new = 9, ck_replaced = 9, ck_expired = 9, ck_excess = 9\<rparr>" 2 6 None]
  by simp

text \<open>While there is room (or the key is already present) the cache behaves as a map
  whose entries disappear when they expire: a later \<open>get\<close> of the key that was set returns
  the new value until its duration has passed, a \<open>get\<close> of any other key is unaffected,
  and \<open>set\<close> itself returns the unexpired previous value.\<close>

theorem cache_get_after_set:
  fixes c :: "('k::linorder, 'v) cache" and t :: clock and k :: 'k and v :: 'v and d :: "nat option"
  assumes "bt_inv (ca_items c)"
    and "cache_len c < ca_capacity c \<or> bt_contains (ca_items c) k \<and> cache_len c \<le> ca_capacity c"
    and "clock_mono t" and "ck_expired t \<le> now"
  defines "dur \<equiv> (case d of None \<Rightarrow> ca_item_duration c | Some x \<Rightarrow> Some x)"
  shows "cache_get now (snd (cache_set t c k v d)) j =
    (if j = k then (if item_expired now (item_new v dur (ck_new t)) then None else Some v)
     else cache_get now c j) \<and>
    fst (cache_set t c k v d) = cache_get (ck_replaced t) c k"
proof -
  let ?c1 = "c\<lparr>ca_items := bt_insert k (item_new v dur (ck_new t)) (ca_items c)\<rparr>"
  let ?c2 = "remove_expired (ck_expired t) ?c1"
  have inv1: "bt_inv (ca_items ?c1)" using assms(1) by simp
  have "cache_len ?c1 \<le> ca_capacity c"
    using assms(2) length_bt_insert [where m = "ca_items c" and k = k and v = "item_new v dur (ck_new t)"] assms(1)
    unfolding cache_len_def bt_contains_iff map_of_eq_None_iff
    by (cases "k \<in> fst ` set (ca_items c)") auto
  then have "cache_len ?c2 \<le> ca_capacity ?c2"
    using remove_expired_len [OF inv1, of "ck_expired t"] by simp
  then have "snd (cache_set t c k v d) = ?c2"
    by (simp add: cache_set_def Let_def dur_def drop_excess_id)
  then have "cache_get now (snd (cache_set t c k v d)) j =
    (if j = k then (if item_expired now (item_new v dur (ck_new t)) then None else Some v)
     else cache_get now c j)"
    using assms(1,4) item_expired_mono [of "ck_expired t" _ now]
    by (auto simp: cache_get_def map_of_remove_expired [OF inv1] split: option.split)
  moreover have "fst (cache_set t c k v d) = cache_get (ck_replaced t) c k"
    by (simp add: cache_set_def cache_get_def Let_def split: option.split)
  ultimately show ?thesis by blast
qed

theorem cache_get_after_set_witness:
  "cache_get 25 (snd (cache_set \<lparr>ck_new = 9, ck_replaced = 9, ck_expired = 9, ck_excess = 9\<rparr>
     \<lparr>ca_items = [(1 :: nat, item_new (5 :: nat) (Some 20) 3)], ca_item_duration = Some 20, ca_capacity = 2\<rparr>
     2 6 None)) 2 = Some 6"
  using cache_get_after_set [of "\<lparr>ca_items = [(1 :: nat, item_new (5 :: nat) (Some 20) 3)],
      ca_item_duration = Some 20, ca_capacity = 2\<rparr>" 2
      "\<lparr>ck_new = 9, ck_replaced = 9, ck_expired = 9, ck_excess = 9\<rparr>" 25 6 None 2]
  by (simp add: cache_len_def clock_mono_def item_expired_def item_new_def)

text \<open>In a cache built by \<open>with_capacity\<close> items carry no start time, so every item
  counts as zero milliseconds old and a full cache evicts by key order, not by age: setting
  a new key below all present ones leaves the full cache unchanged and the new value is
  the one that is lost.\<close>

theorem capacity_cache_drops_new_item:
  assumes "bt_inv (ca_items c)" and "cache_len c = ca_capacity c" and "ca_item_duration c = None"
    and "\<forall>p \<in> set (ca_items c). it_time (snd p) = None \<and> k < fst p"
  shows "cache_set t c k v None = (None, c)"
proof -
  let ?it = "item_new v None (ck_new t)"
  have ins: "bt_insert k ?it (ca_items c) = (k, ?it) # ca_items c"
    using assms(4) by (cases "ca_items c") auto
  let ?c1 = "c\<lparr>ca_items := (k, ?it) # ca_items c\<rparr>"
  have inv1: "bt_inv (ca_items ?c1)" using assms by simp
  have none: "\<forall>p \<in> set (ca_items ?c1). it_time (snd p) = None"
    using assms(4) by (simp add: item_new_def)
  have "remove_expired (ck_expired t) ?c1 = ?c1"
    using remove_expired_items [OF inv1] none
    by (intro cache.equality) (simp_all add: item_expired_def filter_id_conv remove_expired_def Let_def)
  moreover have "by_age (ck_excess t) (ca_items ?c1) = ca_items ?c1"
    using none by (intro sort_by_equal) (auto simp: item_elapsed_def ord.cmp_refl)
  moreover have "map_of (ca_items c) k = None"
    using assms(4) by (auto simp: map_of_eq_None_iff)
  moreover have "filter (\<lambda>p. fst p \<noteq> k) (ca_items c) = ca_items c"
    using assms(4) by (auto simp: filter_id_conv)
  ultimately show ?thesis
    using assms(2,3)
    by (simp add: cache_set_def Let_def ins drop_excess_def foldl_bt_remove cache_len_def)
qed

theorem capacity_cache_drops_new_item_witness:
  "cache_set \<lparr>ck_new = 9, ck_replaced = 9, ck_expired = 9, ck_excess = 9\<rparr>
     (snd (cache_set \<lparr>ck_new = 3, ck_replaced = 3, ck_expired = 3, ck_excess = 3\<rparr>
       (with_capacity 1) (2 :: nat) (5 :: nat) None)) 1 6 None =
   (None, snd (cache_set \<lparr>ck_new = 3, ck_replaced = 3, ck_expired = 3, ck_excess = 3\<rparr>
       (with_capacity 1) (2 :: nat) (5 :: nat) None))"
proof -
  have "snd (cache_set \<lparr>ck_new = 3, ck_replaced = 3, ck_expired = 3, ck_excess = 3\<rparr>
      (with_capacity 1) (2 :: nat) (5 :: nat) None) =
    \<lparr>ca_items = [(2, item_new 5 None 3)], ca_item_duration = None, ca_capacity = 1\<rparr>"
    by (simp add: cache_set_def with_capacity_def drop_excess_def remove_expired_def cache_len_def
        item_expired_def item_new_def)
  then show ?thesis
    using capacity_cache_drops_new_item [of "\<lparr>ca_items = [(2 :: nat, item_new (5 :: nat) None 3)],
        ca_item_duration = None, ca_capacity = 1\<rparr>" 1]
    by (simp add: cache_len_def item_new_def)
qed

end
