(* ===== verification/Message_Filter.thy ===== *)
theory Message_Filter
  imports Item_Cache "HOL-Library.Product_Lexorder"
begin

text \<open>
  The deduplication filter of \<open>src/message_filter.rs\<close> on top of the cache: incoming
  messages by identifier, outgoing ones by identifier and recipient.
\<close>

definition INCOMING_EXPIRY_DURATION :: nat where
  "INCOMING_EXPIRY_DURATION = 20 * 60 * 1000000000"

definition OUTGOING_EXPIRY_DURATION :: nat where
  "OUTGOING_EXPIRY_DURATION = 10 * 60 * 1000000000"

definition MAX_ENTRIES :: nat where
  "MAX_ENTRIES = 15000"

datatype filtering_result = NewMessage | KnownMessage

definition is_new :: "filtering_result \<Rightarrow> bool" where
  "is_new r = (case r of NewMessage \<Rightarrow> True | KnownMessage \<Rightarrow> False)"

record message_filter =
  mf_incoming :: "(message_id, unit) cache"
  mf_outgoing :: "(message_id \<times> xor_name, unit) cache"

definition message_filter_new :: message_filter where
  "message_filter_new =
     \<lparr>mf_incoming = with_expiry_duration_and_capacity INCOMING_EXPIRY_DURATION MAX_ENTRIES,
      mf_outgoing = with_expiry_duration_and_capacity OUTGOING_EXPIRY_DURATION MAX_ENTRIES\<rparr>"

definition filter_outgoing ::
  "clock \<Rightarrow> message_filter \<Rightarrow> 'c routing_msg \<Rightarrow> xor_name \<Rightarrow> filtering_result \<times> message_filter" where
  "filter_outgoing t f msg pub_id =
     (case msg_dst msg of
        DirectAndUnrouted \<Rightarrow> (NewMessage, f)
      | _ \<Rightarrow> (let (prev, c) = cache_set t (mf_outgoing f) (msg_id msg, pub_id) () None
             in (if prev \<noteq> None then KnownMessage else NewMessage, f\<lparr>mf_outgoing := c\<rparr>)))"

definition filter_add :: "clock \<Rightarrow> message_filter \<Rightarrow> message_id \<Rightarrow> bool \<times> message_filter" where
  "filter_add t f mid =
     (let (cur_value, c) = cache_set t (mf_incoming f) mid () None
      in (cur_value = None, f\<lparr>mf_incoming := c\<rparr>))"

definition filter_reset :: "message_filter \<Rightarrow> message_filter" where
  "filter_reset f = f\<lparr>mf_incoming := cache_clear (mf_incoming f), mf_outgoing := cache_clear (mf_outgoing f)\<rparr>"

section \<open>What the filter promises\<close>

text \<open>The abstract filter remembers for every key when it was last seen; a key is known
  while less than the duration has passed since.\<close>

type_synonym 'k seen = "'k \<rightharpoonup> nat"

definition spec_add :: "nat \<Rightarrow> clock \<Rightarrow> 'k seen \<Rightarrow> 'k \<Rightarrow> bool \<times> 'k seen" where
  "spec_add dur t seen k =
     ((case seen k of None \<Rightarrow> True | Some s \<Rightarrow> s + dur < ck_replaced t), seen(k \<mapsto> ck_new t))"

text \<open>A sequence of messages, each seen at its clock readings. \<open>key\<close> is the key a message
  is filtered by; a message without one is always new and leaves no trace.\<close>

fun spec_run :: "nat \<Rightarrow> ('m \<Rightarrow> 'k option) \<Rightarrow> 'k seen \<Rightarrow> (clock \<times> 'm) list \<Rightarrow> bool list" where
  "spec_run dur key seen [] = []"
| "spec_run dur key seen ((t, m) # ops) =
     (case key m of
        None \<Rightarrow> True # spec_run dur key seen ops
      | Some k \<Rightarrow> fst (spec_add dur t seen k) # spec_run dur key (snd (spec_add dur t seen k)) ops)"

fun filter_run :: "(clock \<Rightarrow> 's \<Rightarrow> 'm \<Rightarrow> bool \<times> 's) \<Rightarrow> 's \<Rightarrow> (clock \<times> 'm) list \<Rightarrow> bool list" where
  "filter_run add f [] = []"
| "filter_run add f ((t, m) # ops) = fst (add t f m) # filter_run add (snd (add t f m)) ops"

definition outgoing_is_new ::
  "clock \<Rightarrow> message_filter \<Rightarrow> 'c routing_msg \<times> xor_name \<Rightarrow> bool \<times> message_filter" where
  "outgoing_is_new t f m = (let (r, f') = filter_outgoing t f (fst m) (snd m) in (is_new r, f'))"

definition outgoing_key :: "'c routing_msg \<times> xor_name \<Rightarrow> (message_id \<times> xor_name) option" where
  "outgoing_key m = (if msg_dst (fst m) = DirectAndUnrouted then None else Some (msg_id (fst m), snd m))"

text \<open>Clock readings never go back, within an operation and from one to the next.\<close>

fun clocks_mono :: "nat \<Rightarrow> clock list \<Rightarrow> bool" where
  "clocks_mono now [] = True"
| "clocks_mono now (t # ts) = (clock_mono t \<and> now \<le> ck_new t \<and> clocks_mono (ck_excess t) ts)"

definition tracks :: "nat \<Rightarrow> nat \<Rightarrow> ('k::linorder, unit) cache \<Rightarrow> 'k seen \<Rightarrow> bool" where
  "tracks dur now c seen \<longleftrightarrow> bt_inv (ca_items c) \<and> ca_item_duration c = Some dur \<and>
     (\<forall>k. case seen k of
            None \<Rightarrow> bt_get (ca_items c) k = None
          | Some s \<Rightarrow> bt_get (ca_items c) k = Some (item_new () (Some dur) s) \<or>
                      bt_get (ca_items c) k = None \<and> s + dur < now)"

lemma tracks_set:
  assumes "tracks dur now c seen" "clock_mono t" "now \<le> ck_new t" "cache_len c < ca_capacity c"
  shows "fst (cache_set t c k () None) = None \<longleftrightarrow> fst (spec_add dur t seen k)" (is ?new)
    and "tracks dur (ck_excess t) (snd (cache_set t c k () None)) (snd (spec_add dur t seen k))" (is ?tracks)
    and "cache_len (snd (cache_set t c k () None)) \<le> Suc (cache_len c)" (is ?len)
    and "ca_capacity (snd (cache_set t c k () None)) = ca_capacity c" (is ?cap)
proof -
  let ?c1 = "c\<lparr>ca_items := bt_insert k (item_new () (Some dur) (ck_new t)) (ca_items c)\<rparr>"
  let ?c2 = "remove_expired (ck_expired t) ?c1"
  have inv: "bt_inv (ca_items c)" and dur: "ca_item_duration c = Some dur"
    and seen: "case seen j of None \<Rightarrow> map_of (ca_items c) j = None
      | Some s \<Rightarrow> map_of (ca_items c) j = Some (item_new () (Some dur) s) \<or>
          map_of (ca_items c) j = None \<and> s + dur < now" for j
    using assms(1) by (auto simp: tracks_def)
  have inv1: "bt_inv (ca_items ?c1)" using inv by simp
  have len1: "cache_len ?c1 \<le> Suc (cache_len c)" using length_bt_insert(1) by (simp add: cache_len_def)
  then have "cache_len ?c2 \<le> ca_capacity ?c2"
    using remove_expired_len [OF inv1, of "ck_expired t"] assms(4) by simp
  then have c2: "snd (cache_set t c k () None) = ?c2"
    by (simp add: cache_set_def Let_def dur drop_excess_id)
  show ?new using seen [of k] assms(2,3)
    by (auto simp: cache_set_def Let_def spec_add_def item_new_expired clock_mono_def split: option.splits)
  have "case snd (spec_add dur t seen k) j of
      None \<Rightarrow> map_of (ca_items ?c2) j = None
    | Some s \<Rightarrow> map_of (ca_items ?c2) j = Some (item_new () (Some dur) s) \<or>
        map_of (ca_items ?c2) j = None \<and> s + dur < ck_excess t" for j
    using seen [of j] assms(2,3)
    by (auto simp: spec_add_def map_of_remove_expired [OF inv1] inv item_new_expired clock_mono_def
        split: option.splits)
  then show ?tracks unfolding c2 tracks_def using inv1 dur by simp
  show ?len unfolding c2 using remove_expired_len [OF inv1, of "ck_expired t"] len1 by simp
  show ?cap unfolding c2 by simp
qed

text \<open>The contract both filters meet: with room for another entry, one operation answers as
  the abstract filter does and uses up at most one entry.\<close>

locale dedup =
  fixes add :: "clock \<Rightarrow> 's \<Rightarrow> 'm \<Rightarrow> bool \<times> 's"
    and key :: "'m \<Rightarrow> 'k option"
    and dur :: nat
    and holds :: "nat \<Rightarrow> nat \<Rightarrow> 's \<Rightarrow> 'k seen \<Rightarrow> bool"
  assumes add_keyed: "holds (Suc n) now f seen \<Longrightarrow> clock_mono t \<Longrightarrow> now \<le> ck_new t \<Longrightarrow> key m = Some k \<Longrightarrow>
      fst (add t f m) = fst (spec_add dur t seen k) \<and>
      holds n (ck_excess t) (snd (add t f m)) (snd (spec_add dur t seen k))"
    and add_unkeyed: "holds (Suc n) now f seen \<Longrightarrow> clock_mono t \<Longrightarrow> now \<le> ck_new t \<Longrightarrow> key m = None \<Longrightarrow>
      fst (add t f m) \<and> holds n (ck_excess t) (snd (add t f m)) seen"
begin

lemma run_refines:
  "holds (length ops) now f seen \<Longrightarrow> clocks_mono now (map fst ops) \<Longrightarrow>
    filter_run add f ops = spec_run dur key seen ops"
proof (induction ops arbitrary: now f seen)
  case (Cons op ops)
  obtain t m where op: "op = (t, m)" by fastforce
  show ?case
    using Cons add_keyed [of "length ops" now f seen t m] add_unkeyed [of "length ops" now f seen t m]
    by (cases "key m") (auto simp: op)
qed simp

end

lemma tracks_later: "tracks dur now c seen \<Longrightarrow> now \<le> now' \<Longrightarrow> tracks dur now' c seen"
  unfolding tracks_def by (elim conjE, intro conjI allI, assumption, assumption)
    (force split: option.splits)

lemma tracks_room:
  assumes "tracks dur now c seen \<and> cache_len c + Suc n \<le> ca_capacity c" "clock_mono t" "now \<le> ck_new t"
  shows "(fst (cache_set t c k () None) = None \<longleftrightarrow> fst (spec_add dur t seen k)) \<and>
    tracks dur (ck_excess t) (snd (cache_set t c k () None)) (snd (spec_add dur t seen k)) \<and>
    cache_len (snd (cache_set t c k () None)) + n \<le> ca_capacity (snd (cache_set t c k () None))"
  using tracks_set [of dur now c seen t k] assms by linarith

interpretation incoming: dedup filter_add Some INCOMING_EXPIRY_DURATION
  "\<lambda>n now f seen. tracks INCOMING_EXPIRY_DURATION now (mf_incoming f) seen \<and>
     cache_len (mf_incoming f) + n \<le> ca_capacity (mf_incoming f)"
  by unfold_locales (insert tracks_room, force simp: filter_add_def split_beta)+

interpretation outgoing: dedup outgoing_is_new outgoing_key OUTGOING_EXPIRY_DURATION
  "\<lambda>n now f seen. tracks OUTGOING_EXPIRY_DURATION now (mf_outgoing f) seen \<and>
     cache_len (mf_outgoing f) + n \<le> ca_capacity (mf_outgoing f)"
proof (unfold_locales, goal_cases)
  case (1 n now f seen t m k)
  then have "outgoing_is_new t f m = (fst (cache_set t (mf_outgoing f) k () None) = None,
      f\<lparr>mf_outgoing := snd (cache_set t (mf_outgoing f) k () None)\<rparr>)"
    by (cases "fst (cache_set t (mf_outgoing f) k () None)")
      (auto simp: outgoing_is_new_def filter_outgoing_def outgoing_key_def is_new_def split_beta
        split: if_splits dst_location.splits)
  then show ?case using tracks_room [OF 1(1,2,3), of k] by simp
next
  case (2 n now f seen t m)
  then have "now \<le> ck_excess t" by (simp add: clock_mono_def)
  with 2 show ?case
    by (auto simp: outgoing_is_new_def filter_outgoing_def outgoing_key_def is_new_def
        split: if_splits intro: tracks_later)
qed

lemma tracks_new:
  "tracks d now (with_expiry_duration_and_capacity d cap) (\<lambda>_. None)"
  by (simp add: tracks_def with_expiry_duration_and_capacity_def)

section \<open>Properties\<close>

text \<open>C34. The incoming filter accepts a message exactly when its identifier was not seen
  before or was last seen more than \<open>INCOMING_EXPIRY_DURATION\<close> ago: over any sequence of
  at most \<open>MAX_ENTRIES\<close> messages with clock readings that never go back, the answers of
  \<open>add_to_filter\<close> on a new filter are those of the abstract filter that remembers when each
  identifier was last seen.\<close>

theorem filter_add_refines:
  assumes "length ops \<le> MAX_ENTRIES" and "clocks_mono 0 (map fst ops)"
  shows "filter_run filter_add message_filter_new ops = spec_run INCOMING_EXPIRY_DURATION Some (\<lambda>_. None) ops"
  using assms tracks_new
  by (intro incoming.run_refines [where now = 0])
    (auto simp: message_filter_new_def cache_len_def with_expiry_duration_and_capacity_def)

theorem filter_add_refines_witness:
  "filter_run filter_add message_filter_new
     (map (\<lambda>(t, k). (\<lparr>ck_new = t, ck_replaced = t, ck_expired = t, ck_excess = t\<rparr>, MessageId k))
       [(5, 1), (6, 2), (7, 1), (8 + INCOMING_EXPIRY_DURATION, 1)]) = [True, True, False, True]"
  by (subst filter_add_refines)
    (simp_all add: MAX_ENTRIES_def clock_mono_def spec_add_def INCOMING_EXPIRY_DURATION_def)

text \<open>The outgoing filter refines the same abstract filter keyed by message identifier
  and recipient, with \<open>OUTGOING_EXPIRY_DURATION\<close>; direct messages are never filtered and
  leave the filter as it is.\<close>

theorem filter_outgoing_refines:
  assumes "length ops \<le> MAX_ENTRIES" and "clocks_mono 0 (map fst ops)"
  shows "filter_run outgoing_is_new message_filter_new ops =
    spec_run OUTGOING_EXPIRY_DURATION outgoing_key (\<lambda>_. None) ops"
  using assms tracks_new
  by (intro outgoing.run_refines [where now = 0])
    (auto simp: message_filter_new_def cache_len_def with_expiry_duration_and_capacity_def)

theorem filter_outgoing_refines_witness:
  "filter_run outgoing_is_new message_filter_new
     (map (\<lambda>(t, dst, to). (\<lparr>ck_new = t, ck_replaced = t, ck_expired = t, ck_excess = t\<rparr>,
         RoutingMsg (MessageId 1) (NodeAuth (EdPk 0) (EdSig 0) :: unit src_authority) dst AggNone
           (UserMessage []) (BlsPk 0), to))
       [(5, DstNode 1, 1), (6, DstNode 1, 2), (7, DstNode 1, 1), (8, DirectAndUnrouted, 1)]) =
   [True, True, False, True]"
  by (subst filter_outgoing_refines)
    (simp_all add: MAX_ENTRIES_def clock_mono_def spec_add_def outgoing_key_def OUTGOING_EXPIRY_DURATION_def)

end
