(* ===== verification/Core_State.thy ===== *)
theory Core_State
  imports Commands Delivery_Group End_Users Split_Barrier Message_Filter Section_Keys
begin

text \<open>
  The state of a routing node and its queries: \<open>src/routing/core/mod.rs\<close> (struct and
  helpers) and \<open>src/routing/core/api.rs\<close>, with the events of \<open>src/event.rs\<close>. What the
  node sends on its event channel and hands to a running relocation is recorded in the state.
  The functions of \<open>sn_messaging\<close> on locations, the aggregator, the resource proof and
  the conversion of client messages are the parameters of a \<open>kit\<close>; the key generation is
  used through the interface \<open>dkg_ops\<close>, which \<open>source_dkg\<close> provides.
\<close>

section \<open>Events\<close>

datatype node_elder_change = Promoted | Demoted | NoElderChange

record elders =
  el_prefix :: pfx
  el_key :: bls_public_key
  el_remaining :: "xor_name btree_set"
  el_added :: "xor_name btree_set"
  el_removed :: "xor_name btree_set"

datatype event =
    MessageReceived bytes src_location dst_location "signed option" bls_public_key
  | MemberJoined xor_name "xor_name option" u8
  | MemberLeft xor_name u8
  | SectionSplit elders elders node_elder_change
  | EldersChanged elders node_elder_change
  | RelocationStarted xor_name
  | RelocatedEvent xor_name keypair
  | RestartRequired
  | ClientMsgReceived client_msg end_user
  | ClientLost socket_addr
  | AdultsChanged "xor_name btree_set" "xor_name btree_set" "xor_name btree_set"

section \<open>Parameters\<close>

text \<open>\<open>DstLocation\<close>, \<open>SrcLocation\<close> and \<open>Itinerary\<close> of \<open>sn_messaging\<close>.\<close>

record loc_ops =
  dst_contains :: "dst_location \<Rightarrow> xor_name \<Rightarrow> pfx \<Rightarrow> bool"
  dst_name :: "dst_location \<Rightarrow> xor_name option"
  src_equals :: "src_location \<Rightarrow> xor_name \<Rightarrow> bool"
  src_loc_name :: "src_location \<Rightarrow> xor_name"
  src_to_dst :: "src_location \<Rightarrow> dst_location"
  itinerary_dst_name :: "itinerary \<Rightarrow> xor_name option"
  aggregate_at_dst :: "itinerary \<Rightarrow> bool"
  aggregate_at_src :: "itinerary \<Rightarrow> bool"
  query_name :: "nat \<Rightarrow> xor_name"

record 'd dkg_ops =
  dg_default :: 'd
  dg_start :: "keypair \<Rightarrow> dkg_key \<Rightarrow> elder_candidates \<Rightarrow> 'd \<Rightarrow> dkg_command list \<times> 'd"
  dg_process_message :: "keypair \<Rightarrow> dkg_key \<Rightarrow> dkg_message \<Rightarrow> 'd \<Rightarrow> dkg_command list \<times> 'd"
  dg_process_failure :: "dkg_key \<Rightarrow> xor_name btree_set \<Rightarrow> dkg_failure_signed \<Rightarrow> 'd \<Rightarrow> dkg_command option \<times> 'd"
  dg_handle_timeout :: "keypair \<Rightarrow> u64 \<Rightarrow> 'd \<Rightarrow> dkg_command list \<times> 'd"

record ('c, 'a, 'd) kit =
  kt_env :: "'c env"
  kt_aggregator :: "'a aggregator_ops"
  kt_dkg :: "'d dkg_ops"
  kt_loc :: loc_ops
  kt_validate_all :: "nat \<Rightarrow> u8 \<Rightarrow> bytes \<Rightarrow> bytes \<Rightarrow> u64 \<Rightarrow> bool"
  kt_client_msg :: "bytes \<Rightarrow> nat + client_msg"
  kt_alloc :: "nat \<Rightarrow> nat"

abbreviation kt_crypto :: "('c, 'a, 'd) kit \<Rightarrow> 'c crypto_ops" where
  "kt_crypto K \<equiv> ev_crypto (kt_env K)"

abbreviation kt_chain :: "('c, 'a, 'd) kit \<Rightarrow> 'c chain_ops" where
  "kt_chain K \<equiv> ev_chain (kt_env K)"

abbreviation kt_xor :: "('c, 'a, 'd) kit \<Rightarrow> xor_ops" where
  "kt_xor K \<equiv> ev_xor (kt_env K)"

abbreviation kt_pmap :: "('c, 'a, 'd) kit \<Rightarrow> other_section pmap_ops" where
  "kt_pmap K \<equiv> section_pmap (kt_xor K)"

text \<open>The key generation of \<open>Dkg_Voter\<close>: its state has the voter, the timer counter and
  the random key sets still to be drawn. A call that does not return leaves the state as it was
  and gives no commands; the calls return for every generator with \<open>keygen_progress\<close>.\<close>

record 'g dkg_state =
  ds_voter :: "'g dkg_voter"
  ds_counter :: u64
  ds_draws :: "nat \<Rightarrow> public_key_set \<times> secret_key_share"

definition returned :: "('r \<times> 'g dkg_voter \<times> u64) option \<Rightarrow> 'r \<Rightarrow> 'g dkg_state \<Rightarrow> 'r \<times> 'g dkg_state" where
  "returned result stuck d =
     (case result of
        Some (r, v, counter) \<Rightarrow> (r, d\<lparr>ds_voter := v, ds_counter := counter\<rparr>)
      | None \<Rightarrow> (stuck, d))"

definition source_dkg :: "'g keygen_ops \<Rightarrow> 'c crypto_ops \<Rightarrow> (nat \<Rightarrow> nat) \<Rightarrow>
    (nat \<Rightarrow> public_key_set \<times> secret_key_share) \<Rightarrow> 'g dkg_state dkg_ops" where
  "source_dkg G cr alloc draws = \<lparr>
     dg_default = \<lparr>ds_voter = dkg_voter_default alloc, ds_counter = 0, ds_draws = draws\<rparr>,
     dg_start = (\<lambda>keypair dkg_key elder_candidates d.
       returned (voter_start G cr (ds_draws d 0) keypair dkg_key elder_candidates (ds_voter d) (ds_counter d)) []
         (d\<lparr>ds_draws := (\<lambda>n. ds_draws d (Suc n))\<rparr>)),
     dg_process_message = (\<lambda>keypair dkg_key message d.
       returned (voter_process_message G cr keypair dkg_key message (ds_voter d) (ds_counter d)) [] d),
     dg_process_failure = (\<lambda>dkg_key non_participants sg d.
       returned (map_option (\<lambda>(c, v). (c, v, ds_counter d))
         (voter_process_failure cr dkg_key non_participants sg (ds_voter d))) None d),
     dg_handle_timeout = (\<lambda>keypair token d.
       returned (voter_handle_timeout G cr keypair token (ds_voter d) (ds_counter d)) [] d)\<rparr>"

section \<open>The state of a node\<close>

definition RESOURCE_PROOF_DATA_SIZE :: nat where
  "RESOURCE_PROOF_DATA_SIZE = 64"

definition RESOURCE_PROOF_DIFFICULTY :: u8 where
  "RESOURCE_PROOF_DIFFICULTY = 2"

definition KEY_CACHE_SIZE :: u8 where
  "KEY_CACHE_SIZE = 5"

record ('c, 'a, 'd) core =
  co_node :: node
  co_section :: "'c section_state"
  co_network :: network
  co_section_keys_provider :: section_keys_provider
  co_message_aggregator :: 'a
  co_proposal_aggregator :: 'a
  co_split_barrier :: split_barrier
  co_dkg_voter :: 'd
  co_relocate_state :: "'c relocate_state option"
  co_msg_filter :: message_filter
  co_events :: "event list"
  co_joins_allowed :: bool
  co_end_users :: end_user_registry
  co_forwarded :: "(nat \<times> 'c routing_msg \<times> socket_addr) list"

definition core_new ::
  "('c, 'a, 'd) kit \<Rightarrow> node \<Rightarrow> 'c section_state \<Rightarrow> section_key_share option \<Rightarrow> ('c, 'a, 'd) core" where
  "core_new K node section0 section_key_share =
     \<lparr>co_node = node, co_section = section0, co_network = network_new,
      co_section_keys_provider = section_keys_new (kt_alloc K) (kt_crypto K) KEY_CACHE_SIZE section_key_share,
      co_message_aggregator = agg_default (kt_aggregator K),
      co_proposal_aggregator = agg_default (kt_aggregator K),
      co_split_barrier = split_barrier_new, co_dkg_voter = dg_default (kt_dkg K), co_relocate_state = None,
      co_msg_filter = message_filter_new, co_events = [], co_joins_allowed = True,
      co_end_users = end_user_registry_new, co_forwarded = []\<rparr>"

definition core_first_node ::
  "('c, 'a, 'd) kit \<Rightarrow> public_key_set \<Rightarrow> secret_key_share \<Rightarrow> node \<Rightarrow> error + ('c, 'a, 'd) core" where
  "core_first_node K public_key_set secret_key_share node =
     and_then (section_first_node (kt_env K) public_key_set secret_key_share (node_peer (kt_crypto K) node))
       (\<lambda>(section0, section_key_share). Inr (core_new K node section0 (Some section_key_share)))"

section \<open>Queries\<close>

abbreviation core_name :: "('c, 'a, 'd) kit \<Rightarrow> ('c, 'a, 'd) core \<Rightarrow> xor_name" where
  "core_name K s \<equiv> node_name (kt_crypto K) (co_node s)"

abbreviation core_last_key :: "('c, 'a, 'd) kit \<Rightarrow> ('c, 'a, 'd) core \<Rightarrow> bls_public_key" where
  "core_last_key K s \<equiv> sll_last_key (kt_chain K) (sec_chain (co_section s))"

abbreviation core_section_key :: "('c, 'a, 'd) kit \<Rightarrow> ('c, 'a, 'd) core \<Rightarrow> bls_public_key" where
  "core_section_key K s \<equiv> section_key (kt_crypto K) (authority_provider (co_section s))"

definition core_is_elder :: "('c, 'a, 'd) kit \<Rightarrow> ('c, 'a, 'd) core \<Rightarrow> bool" where
  "core_is_elder K s = sec_is_elder (co_section s) (core_name K s)"

definition core_get_enduser_by_addr :: "('c, 'a, 'd) core \<Rightarrow> socket_addr \<Rightarrow> end_user option" where
  "core_get_enduser_by_addr s sender = get_enduser_by_addr (co_end_users s) sender"

definition core_get_socket_addr :: "('c, 'a, 'd) core \<Rightarrow> xor_name \<Rightarrow> socket_addr option" where
  "core_get_socket_addr s socket_id = get_socket_addr (co_end_users s) socket_id"

definition core_try_add ::
  "('c, 'a, 'd) kit \<Rightarrow> ('c, 'a, 'd) core \<Rightarrow> socket_addr \<Rightarrow> (error + end_user) \<times> ('c, 'a, 'd) core" where
  "core_try_add K s sender =
     (let (r, users) = end_user_try_add (kt_env K) (co_end_users s) sender (sec_prefix (co_section s))
      in (r, s\<lparr>co_end_users := users\<rparr>))"

definition sign_with_section_key_share ::
  "('c, 'a, 'd) kit \<Rightarrow> ('c, 'a, 'd) core \<Rightarrow> bytes \<Rightarrow> bls_public_key \<Rightarrow> error + signature_share" where
  "sign_with_section_key_share K s data public_key = sign_with (kt_crypto K) (co_section_keys_provider s) data public_key"

definition core_public_key_set :: "('c, 'a, 'd) core \<Rightarrow> error + public_key_set" where
  "core_public_key_set s = and_then (key_share (co_section_keys_provider s)) (\<lambda>ks. Inr (ks_public_key_set ks))"

definition our_index :: "('c, 'a, 'd) core \<Rightarrow> error + nat" where
  "our_index s = and_then (key_share (co_section_keys_provider s)) (\<lambda>ks. Inr (ks_index ks))"

definition core_section_key_of :: "('c, 'a, 'd) kit \<Rightarrow> ('c, 'a, 'd) core \<Rightarrow> pfx \<Rightarrow> bls_public_key option" where
  "core_section_key_of K s p =
     (if p = sec_prefix (co_section s) \<or> pf_is_extension_of (kt_xor K) p (sec_prefix (co_section s))
      then Some (core_last_key K s)
      else case network_key_by_prefix (kt_crypto K) (kt_pmap K) (co_network s) p of
             Some k \<Rightarrow> Some k
           | None \<Rightarrow> if core_is_elder K s then Some (sll_root_key (kt_chain K) (sec_chain (co_section s))) else None)"

definition matching_section :: "('c, 'a, 'd) kit \<Rightarrow> ('c, 'a, 'd) core \<Rightarrow> xor_name \<Rightarrow> error + section_auth" where
  "matching_section K s name =
     (if pf_matches (kt_xor K) (sec_prefix (co_section s)) name then Inr (authority_provider (co_section s))
      else network_section_by_name (kt_pmap K) (co_network s) name)"

definition section_key_by_name :: "('c, 'a, 'd) kit \<Rightarrow> ('c, 'a, 'd) core \<Rightarrow> xor_name \<Rightarrow> bls_public_key" where
  "section_key_by_name K s name =
     (if pf_matches (kt_xor K) (sec_prefix (co_section s)) name then core_last_key K s
      else case network_key_by_name (kt_crypto K) (kt_pmap K) (co_network s) name of
             Inr key \<Rightarrow> key
           | Inl _ \<Rightarrow>
               if pf_matches (kt_xor K) (pf_sibling (kt_xor K) (sec_prefix (co_section s))) name
               then sll_prev_key (kt_chain K) (sec_chain (co_section s))
               else sll_root_key (kt_chain K) (sec_chain (co_section s)))"

datatype target_section_error =
    DkgInProgress
  | UnrecognizedSectionKey
  | TargetSectionInfoOutdated section_auth

definition check_key_status ::
  "('c, 'a, 'd) kit \<Rightarrow> ('c, 'a, 'd) core \<Rightarrow> bls_public_key \<Rightarrow> target_section_error + unit" where
  "check_key_status K s bls_pk =
     (if promote_and_demote_elders (kt_env K) (co_section s) (core_name K s) \<noteq> [] then Inl DkgInProgress
      else if \<not> sll_has_key (kt_chain K) (sec_chain (co_section s)) bls_pk then Inl UnrecognizedSectionKey
      else if bls_pk \<noteq> core_last_key K s
      then (case core_public_key_set s of
              Inr public_key_set \<Rightarrow>
                Inl (TargetSectionInfoOutdated
                  \<lparr>sa_prefix = sec_prefix (co_section s), sa_public_key_set = public_key_set,
                   sa_elders = sap_elders (ss_value (sec_auth (co_section s)))\<rparr>)
            | Inl _ \<Rightarrow> Inl DkgInProgress)
      else Inr ())"

record state_snapshot =
  sn_is_elder :: bool
  sn_last_key :: bls_public_key
  sn_prefix :: pfx
  sn_elders :: "xor_name btree_set"

definition core_state_snapshot :: "('c, 'a, 'd) kit \<Rightarrow> ('c, 'a, 'd) core \<Rightarrow> state_snapshot" where
  "core_state_snapshot K s =
     \<lparr>sn_is_elder = core_is_elder K s, sn_last_key = core_last_key K s, sn_prefix = sec_prefix (co_section s),
      sn_elders = sap_names (authority_provider (co_section s))\<rparr>"

section \<open>Small updates\<close>

definition send_event :: "event \<Rightarrow> ('c, 'a, 'd) core \<Rightarrow> ('c, 'a, 'd) core" where
  "send_event e s = s\<lparr>co_events := co_events s @ [e]\<rparr>"

text \<open>\<open>is_join_request\<close> and \<open>msg_id\<close> of the \<open>WireMsg\<close> are arguments.\<close>

definition add_to_filter ::
  "clock \<Rightarrow> bool \<Rightarrow> message_id \<Rightarrow> ('c, 'a, 'd) core \<Rightarrow> bool \<times> ('c, 'a, 'd) core" where
  "add_to_filter t is_join_request mid s =
     (if is_join_request then (True, s)
      else let (new, f) = filter_add t (co_msg_filter s) mid in (new, s\<lparr>co_msg_filter := f\<rparr>))"

definition update_section_knowledge ::
  "('c, 'a, 'd) kit \<Rightarrow> section_auth section_signed \<Rightarrow> 'c \<Rightarrow> ('c, 'a, 'd) core \<Rightarrow> ('c, 'a, 'd) core" where
  "update_section_knowledge K section_auth section_chain s =
     s\<lparr>co_network := snd (network_update_section (kt_env K) (kt_pmap K) (co_network s) section_auth None section_chain)\<rparr>"

end
