(* ===== verification/Core_Sending.thy ===== *)
theory Core_Sending
  imports Core_State
begin

text \<open>
  The messages a node sends: \<open>src/routing/core/messaging/sending.rs\<close>, the proposals of
  \<open>src/routing/core/messaging/mod.rs\<close>, and the sending methods of
  \<open>src/routing/core/api.rs\<close>.
\<close>

section \<open>Addressing\<close>

definition peer_entry :: "peer \<Rightarrow> xor_name \<times> socket_addr" where
  "peer_entry p = (peer_name p, peer_addr p)"

text \<open>Everything addressed to us is handled directly instead of being sent.\<close>

definition send_or_handle :: "('c, 'a, 'd) kit \<Rightarrow> ('c, 'a, 'd) core \<Rightarrow> 'c routing_msg \<Rightarrow> peer list \<Rightarrow> 'c command list" where
  "send_or_handle K s message recipients =
     (let others = map peer_entry (filter (\<lambda>recipient. peer_name recipient \<noteq> core_name K s) recipients);
          handle = list_ex (\<lambda>recipient. peer_name recipient = core_name K s) recipients
      in (if others \<noteq> []
          then [send_message_to_nodes others (length others) message
                  \<lparr>di_dest = RandomDest, di_section_pk = section_key_by_name K s (fst (hd others))\<rparr>]
          else []) @
         (if handle
          then [HandleMessage (Some (nd_addr (co_node s))) message
                  \<lparr>di_dest = Dest (core_name K s), di_section_pk = core_last_key K s\<rparr>]
          else []))"

definition send_direct_message ::
  "('c, 'a, 'd) kit \<Rightarrow> ('c, 'a, 'd) core \<Rightarrow> xor_name \<times> socket_addr \<Rightarrow> 'c variant \<Rightarrow> bls_public_key \<Rightarrow> error + 'c command" where
  "send_direct_message K s recipient variant dst_pk =
     and_then (single_src (kt_crypto K) (co_node s) DirectAndUnrouted variant (core_section_key K s)) (\<lambda>message.
     Inr (send_message_to_node recipient message \<lparr>di_dest = Dest (fst recipient), di_section_pk = dst_pk\<rparr>))"

definition send_message_to_our_elders :: "('c, 'a, 'd) kit \<Rightarrow> ('c, 'a, 'd) core \<Rightarrow> 'c routing_msg \<Rightarrow> 'c command" where
  "send_message_to_our_elders K s msg =
     (let targets = sap_elders (authority_provider (co_section s));
          dest_section_pk = core_last_key K s
      in send_message_to_nodes targets (length targets) msg
           \<lparr>di_dest = Dest (pf_name (kt_xor K) (sec_prefix (co_section s))), di_section_pk = dest_section_pk\<rparr>)"

section \<open>Proposals\<close>

definition send_proposal_with ::
  "('c, 'a, 'd) kit \<Rightarrow> ('c, 'a, 'd) core \<Rightarrow> peer list \<Rightarrow> 'c proposal \<Rightarrow> section_key_share \<Rightarrow> error + 'c command list" where
  "send_proposal_with K s recipients proposal ks =
     and_then (prove (kt_crypto K) proposal (ks_public_key_set ks) (ks_index ks) (ks_secret_key_share ks)) (\<lambda>sh.
     and_then (single_src (kt_crypto K) (co_node s) DirectAndUnrouted (Propose proposal sh) (core_section_key K s)) (\<lambda>message.
     Inr (send_or_handle K s message recipients)))"

definition send_proposal ::
  "('c, 'a, 'd) kit \<Rightarrow> ('c, 'a, 'd) core \<Rightarrow> peer list \<Rightarrow> 'c proposal \<Rightarrow> error + 'c command list" where
  "send_proposal K s recipients proposal =
     and_then (key_share (co_section_keys_provider s)) (\<lambda>ks. send_proposal_with K s recipients proposal ks)"

definition propose :: "('c, 'a, 'd) kit \<Rightarrow> ('c, 'a, 'd) core \<Rightarrow> 'c proposal \<Rightarrow> error + 'c command list" where
  "propose K s proposal = send_proposal K s (sap_peers (authority_provider (co_section s))) proposal"

definition check_lagging ::
  "('c, 'a, 'd) kit \<Rightarrow> ('c, 'a, 'd) core \<Rightarrow> xor_name \<times> socket_addr \<Rightarrow> signed_share \<Rightarrow> error + 'c command option" where
  "check_lagging K s peer sh =
     (let public_key = pks_public_key (kt_crypto K) (sh_public_key_set sh)
      in if sll_has_key (kt_chain K) (sec_chain (co_section s)) public_key \<and> public_key \<noteq> core_last_key K s
         then and_then (send_direct_message K s peer (Sync (co_section s) (co_network s)) public_key) (\<lambda>c. Inr (Some c))
         else Inr None)"

section \<open>Messages for accumulation\<close>

definition send_message_for_dst_accumulation ::
  "('c, 'a, 'd) kit \<Rightarrow> ('c, 'a, 'd) core \<Rightarrow> xor_name \<Rightarrow> dst_location \<Rightarrow> 'c variant \<Rightarrow> peer list \<Rightarrow> error + 'c command list" where
  "send_message_for_dst_accumulation K s src dst variant recipients =
     and_then (key_share (co_section_keys_provider s)) (\<lambda>ks.
     and_then (for_dst_accumulation (kt_env K) ks src dst variant (sec_chain (co_section s))) (\<lambda>message.
     Inr (send_or_handle K s message recipients)))"

definition create_proof_chain :: "('c, 'a, 'd) kit \<Rightarrow> ('c, 'a, 'd) core \<Rightarrow> bls_public_key option \<Rightarrow> error + 'c" where
  "create_proof_chain K s additional_key =
     and_then (key_share (co_section_keys_provider s)) (\<lambda>ks.
     let last_key = pks_public_key (kt_crypto K) (ks_public_key_set ks);
         additional = (case additional_key of
                         Some key \<Rightarrow>
                           if sll_cmp_by_position (kt_chain K) (sec_chain (co_section s)) key last_key = Less
                           then [key] else []
                       | None \<Rightarrow> [])
     in map_err InvalidSectionChain (sll_minimize (kt_chain K) (sec_chain (co_section s)) (last_key # additional)))"

definition create_aggregate_at_src_proposal ::
  "('c, 'a, 'd) kit \<Rightarrow> ('c, 'a, 'd) core \<Rightarrow> dst_location \<Rightarrow> 'c variant \<Rightarrow> bls_public_key option \<Rightarrow> error + 'c proposal" where
  "create_aggregate_at_src_proposal K s dst variant proof_chain_first_key =
     and_then (create_proof_chain K s proof_chain_first_key) (\<lambda>proof_chain.
     let dst_key = (case dst_name (kt_loc K) dst of
                      Some name \<Rightarrow> section_key_by_name K s name
                    | None \<Rightarrow> core_last_key K s);
         message = PlainMessage (pf_name (kt_xor K) (sec_prefix (co_section s))) dst dst_key variant
     in Inr (AccumulateAtSrc message proof_chain))"

section \<open>Messages to members\<close>

definition send_node_approval ::
  "('c, 'a, 'd) kit \<Rightarrow> ('c, 'a, 'd) core \<Rightarrow> node_state section_signed \<Rightarrow> error + 'c command" where
  "send_node_approval K s node_state =
     (let addr = peer_addr (ns_peer (ss_value node_state));
          name = peer_name (ns_peer (ss_value node_state));
          variant = JoinResponse (Approval (sec_genesis_key (co_section s)) (sec_auth (co_section s)) node_state
                      (sec_chain (co_section s)))
      in and_then (single_src (kt_crypto K) (co_node s) DirectAndUnrouted variant (core_section_key K s)) (\<lambda>message.
         Inr (send_message_to_node (name, addr) message \<lparr>di_dest = Dest name, di_section_pk = core_last_key K s\<rparr>)))"

definition send_sync_part ::
  "('c, 'a, 'd) kit \<Rightarrow> ('c, 'a, 'd) core \<Rightarrow> 'c variant \<Rightarrow> (xor_name \<times> socket_addr) list \<Rightarrow> error + 'c command" where
  "send_sync_part K s variant recipients =
     and_then (single_src (kt_crypto K) (co_node s) DirectAndUnrouted variant (core_section_key K s)) (\<lambda>message.
     Inr (send_message_to_nodes recipients (length recipients) message
            \<lparr>di_dest = RandomDest, di_section_pk = core_last_key K s\<rparr>))"

definition send_sync ::
  "('c, 'a, 'd) kit \<Rightarrow> ('c, 'a, 'd) core \<Rightarrow> 'c section_state \<Rightarrow> network \<Rightarrow> error + 'c command list" where
  "send_sync K s section0 network =
     (let (elders, non_elders) =
            partition (\<lambda>peer. sec_is_elder section0 (fst peer))
              (map peer_entry (filter (\<lambda>peer. peer_name peer \<noteq> core_name K s) (active_members section0)))
      in and_then (send_sync_part K s (Sync section0 network_new) non_elders) (\<lambda>c1.
         and_then (send_sync_part K s (Sync section0 network) elders) (\<lambda>c2. Inr [c1, c2])))"

definition send_sync_to_adults :: "('c, 'a, 'd) kit \<Rightarrow> ('c, 'a, 'd) core \<Rightarrow> error + 'c command list" where
  "send_sync_to_adults K s =
     (let adults = map peer_entry (live_adults (co_section s))
      in and_then (send_sync_part K s (Sync (co_section s) network_new) adults) (\<lambda>c. Inr [c]))"

definition send_relocate ::
  "('c, 'a, 'd) kit \<Rightarrow> ('c, 'a, 'd) core \<Rightarrow> peer \<Rightarrow> relocate_details \<Rightarrow> error + 'c command list" where
  "send_relocate K s recipient details =
     send_message_for_dst_accumulation K s (rd_pub_id details) (DstNode (rd_pub_id details)) (Relocate details) [recipient]"

definition send_relocate_promise ::
  "('c, 'a, 'd) kit \<Rightarrow> ('c, 'a, 'd) core \<Rightarrow> peer \<Rightarrow> relocate_promise \<Rightarrow> error + 'c command list" where
  "send_relocate_promise K s recipient promise =
     send_message_for_dst_accumulation K s (rp_name promise) (DstSection (rp_name promise)) (RelocatePromise promise) [recipient]"

definition return_relocate_promise :: "('c, 'a, 'd) kit \<Rightarrow> ('c, 'a, 'd) core \<Rightarrow> 'c command option" where
  "return_relocate_promise K s =
     (case co_relocate_state s of
        Some (DelayedRelocation msg) \<Rightarrow> Some (send_message_to_our_elders K s msg)
      | _ \<Rightarrow> None)"

definition send_dkg_start_to ::
  "('c, 'a, 'd) kit \<Rightarrow> ('c, 'a, 'd) core \<Rightarrow> elder_candidates \<Rightarrow> peer list \<Rightarrow> error + 'c command list" where
  "send_dkg_start_to K s candidates recipients =
     (let src_prefix = ec_prefix candidates;
          generation = of_nat (sll_main_branch_len (kt_chain K) (sec_chain (co_section s)));
          dkg_key = dkg_key_new (kt_env K) candidates generation
      in send_message_for_dst_accumulation K s (pf_name (kt_xor K) src_prefix) DirectAndUnrouted
           (DkgStart dkg_key candidates) recipients)"

definition send_dkg_start :: "('c, 'a, 'd) kit \<Rightarrow> ('c, 'a, 'd) core \<Rightarrow> elder_candidates \<Rightarrow> error + 'c command list" where
  "send_dkg_start K s candidates = send_dkg_start_to K s candidates (ec_peers candidates)"

text \<open>One key generation for each proposed set of elders.\<close>

fun send_dkg_starts :: "('c, 'a, 'd) kit \<Rightarrow> ('c, 'a, 'd) core \<Rightarrow> elder_candidates list \<Rightarrow> error + 'c command list" where
  "send_dkg_starts K s [] = Inr []"
| "send_dkg_starts K s (info # infos) =
     and_then (send_dkg_start K s info) (\<lambda>commands.
     and_then (send_dkg_starts K s infos) (\<lambda>commands'. Inr (commands @ commands')))"

definition core_promote_and_demote_elders :: "('c, 'a, 'd) kit \<Rightarrow> ('c, 'a, 'd) core \<Rightarrow> error + 'c command list" where
  "core_promote_and_demote_elders K s =
     send_dkg_starts K s (promote_and_demote_elders (kt_env K) (co_section s) (core_name K s))"

section \<open>Relaying\<close>

text \<open>The clock readings of the filter, one for each target in turn.\<close>

fun filter_targets ::
  "(nat \<Rightarrow> clock) \<Rightarrow> 'c routing_msg \<Rightarrow> peer list \<Rightarrow> message_filter \<Rightarrow> (xor_name \<times> socket_addr) list \<times> message_filter" where
  "filter_targets ts msg [] f = ([], f)"
| "filter_targets ts msg (peer # peers) f =
     (let (r, f1) = filter_outgoing (ts 0) f msg (peer_name peer);
          (targets, f2) = filter_targets (\<lambda>i. ts (Suc i)) msg peers f1
      in ((if is_new r then [peer_entry peer] else []) @ targets, f2))"

definition relay_message ::
  "('c, 'a, 'd) kit \<Rightarrow> (nat \<Rightarrow> clock) \<Rightarrow> 'c routing_msg \<Rightarrow> (('c, 'a, 'd) core, error, 'c command option) comp" where
  "relay_message K ts msg s =
     (case delivery_targets (kt_xor K) (msg_dst msg) (core_name K s) (co_section s) (co_network s) of
        Inl e \<Rightarrow> (Inl e, s)
      | Inr (presumed_targets, dg_size) \<Rightarrow>
          (case dst_name (kt_loc K) (msg_dst msg) of
             None \<Rightarrow> (Inl CannotRoute, s)
           | Some target_name \<Rightarrow>
               let dest_pk = section_key_by_name K s target_name;
                   (targets, f) = filter_targets ts msg presumed_targets (co_msg_filter s);
                   s1 = s\<lparr>co_msg_filter := f\<rparr>
               in if targets = [] then (Inr None, s1)
                  else (Inr (Some (send_message_to_nodes targets dg_size msg
                          \<lparr>di_dest = RandomDest, di_section_pk = dest_pk\<rparr>)), s1)))"

definition send_user_message ::
  "('c, 'a, 'd) kit \<Rightarrow> (nat \<Rightarrow> clock) \<Rightarrow> itinerary \<Rightarrow> bytes \<Rightarrow> (('c, 'a, 'd) core, error, 'c command list) comp" where
  "send_user_message K ts it content s =
     (if \<not> (src_equals (kt_loc K) (it_src it) (core_name K s) \<or>
             src_equals (kt_loc K) (it_src it) (pf_name (kt_xor K) (sec_prefix (co_section s))))
      then (Inl InvalidSrcLocation, s)
      else if (case it_src it of SrcEndUser _ \<Rightarrow> True | _ \<Rightarrow> False) then (Inl InvalidSrcLocation, s)
      else case itinerary_dst_name (kt_loc K) it of
             None \<Rightarrow> (Inl InvalidDstLocation, s)
           | Some name \<Rightarrow>
               let dest_section_pk = section_key_by_name K s name;
                   variant = UserMessage content
               in if \<not> aggregate_at_dst (kt_loc K) it \<and> aggregate_at_src (kt_loc K) it
                  then (and_then (create_aggregate_at_src_proposal K s (it_dst it) variant None) (\<lambda>p. propose K s p), s)
                  else (case (if aggregate_at_dst (kt_loc K) it
                              then and_then (key_share (co_section_keys_provider s)) (\<lambda>ks.
                                   for_dst_accumulation (kt_env K) ks (src_loc_name (kt_loc K) (it_src it)) (it_dst it) variant
                                     (sec_chain (co_section s)))
                              else single_src (kt_crypto K) (co_node s) (it_dst it) variant (core_section_key K s)) of
                          Inl e \<Rightarrow> (Inl e, s)
                        | Inr msg \<Rightarrow>
                            let commands = (if dst_contains (kt_loc K) (it_dst it) (core_name K s) (sec_prefix (co_section s))
                                            then [HandleMessage (Some (nd_addr (co_node s))) msg
                                                    \<lparr>di_dest = Dest name, di_section_pk = dest_section_pk\<rparr>]
                                            else [])
                            in bind (relay_message K ts msg)
                                 (\<lambda>c. ret (commands @ (case c of None \<Rightarrow> [] | Some c \<Rightarrow> [c]))) s))"

definition joins_allowed_proposal ::
  "('c, 'a, 'd) kit \<Rightarrow> ('c, 'a, 'd) core \<Rightarrow> bool \<Rightarrow> error + 'c command list" where
  "joins_allowed_proposal K s joins_allowed =
     (let names = map peer_name (active_members (co_section s))
      in and_then (ok_or (Messaging 0) (id_from_content (kt_crypto K) (IdNames names))) (\<lambda>mid.
         propose K s (JoinsAllowed mid joins_allowed)))"

definition set_joins_allowed :: "('c, 'a, 'd) kit \<Rightarrow> ('c, 'a, 'd) core \<Rightarrow> bool \<Rightarrow> error + 'c command list" where
  "set_joins_allowed K s joins_allowed =
     (if core_is_elder K s \<and> joins_allowed \<noteq> co_joins_allowed s then joins_allowed_proposal K s joins_allowed else Inr [])"

definition make_online_proposal ::
  "('c, 'a, 'd) kit \<Rightarrow> ('c, 'a, 'd) core \<Rightarrow> peer \<Rightarrow> xor_name option \<Rightarrow> bls_public_key option \<Rightarrow> error + 'c command list" where
  "make_online_proposal K s peer previous_name destination_key =
     propose K s (Online (joined_state peer) previous_name destination_key)"

end
