(* ===== verification/Core_Decisions.thy ===== *)
theory Core_Decisions
  imports Core_Sending
begin

text \<open>
  What to do with a received message: \<open>src/routing/core/messaging/handling/decisions.rs\<close>,
  the trust check of \<open>handling/mod.rs\<close>, the handling of untrusted messages
  (\<open>handling/bad_msgs.rs\<close>), and the entropy check of
  \<open>src/routing/core/anti_entropy.rs\<close> and \<open>src/routing/core/mod.rs\<close>.
\<close>

section \<open>Trust and status\<close>

definition core_known_keys :: "('c, 'a, 'd) kit \<Rightarrow> ('c, 'a, 'd) core \<Rightarrow> bls_public_key list" where
  "core_known_keys K s =
     sll_keys (kt_chain K) (sec_chain (co_section s)) @
     map snd (network_keys (kt_crypto K) (co_network s)) @ [sec_genesis_key (co_section s)]"

definition core_verify_message :: "('c, 'a, 'd) kit \<Rightarrow> ('c, 'a, 'd) core \<Rightarrow> 'c routing_msg \<Rightarrow> error + bool" where
  "core_verify_message K s msg =
     (case message_verify (kt_env K) msg (core_known_keys K s) of
        Inr Full \<Rightarrow> Inr True
      | Inr Unknown \<Rightarrow> Inr False
      | Inl e \<Rightarrow> Inl e)"

definition decide_propose_status ::
  "('c, 'a, 'd) kit \<Rightarrow> ('c, 'a, 'd) core \<Rightarrow> xor_name \<Rightarrow> 'c proposal \<Rightarrow> signed_share \<Rightarrow> message_status option" where
  "decide_propose_status K s sender proposal sh =
     (let known = (if sll_has_key (kt_chain K) (sec_chain (co_section s)) (pks_public_key (kt_crypto K) (sh_public_key_set sh))
                   then None else Some Untrusted)
      in case proposal of
           SectionInfo section_auth \<Rightarrow>
             if sa_prefix section_auth = sec_prefix (co_section s) \<or>
                pf_is_extension_of (kt_xor K) (sa_prefix section_auth) (sec_prefix (co_section s))
             then (if contains_elder section_auth sender then None else Some Useless)
             else known
         | _ \<Rightarrow> known)"

definition decide_relocate_promise_status ::
  "('c, 'a, 'd) kit \<Rightarrow> ('c, 'a, 'd) core \<Rightarrow> relocate_promise \<Rightarrow> message_status option" where
  "decide_relocate_promise_status K s promise =
     (if rp_name promise = core_name K s
      then (if co_relocate_state s \<noteq> None then Some Useless else None)
      else if \<not> core_is_elder K s \<or> sec_is_elder (co_section s) (rp_name promise) then Some Useless else None)"

text \<open>The decision without the signature: \<open>None\<close> when the message has to be verified.\<close>

definition decide_before_verify ::
  "('c, 'a, 'd) kit \<Rightarrow> ('c, 'a, 'd) core \<Rightarrow> 'c routing_msg \<Rightarrow> message_status option" where
  "decide_before_verify K s msg =
     (case msg_variant msg of
        SectionKnowledge _ _ _ \<Rightarrow> if \<not> core_is_elder K s then Some Useless else None
      | StartConnectivityTest _ \<Rightarrow> if \<not> core_is_elder K s then Some Useless else None
      | UserMessage _ \<Rightarrow>
          if \<not> core_is_elder K s \<and> msg_dst msg \<noteq> DstNode (core_name K s) then Some Useless else None
      | JoinRequest req \<Rightarrow>
          if \<not> core_is_elder K s \<and> jr_section_key req = core_last_key K s then Some Useless else None
      | JoinAsRelocatedRequest req_section_key _ \<Rightarrow>
          if \<not> core_is_elder K s \<and> req_section_key = core_last_key K s then Some Useless else None
      | DkgStart _ elder_candidates \<Rightarrow>
          if \<not> bt_contains (ec_elders elder_candidates) (core_name K s) then Some Useless else None
      | JoinResponse resp \<Rightarrow> (case resp of ResourceChallenge _ _ _ _ \<Rightarrow> None | _ \<Rightarrow> Some Useful)
      | JoinAsRelocatedResponse _ \<Rightarrow> Some Useful
      | Sync section0 _ \<Rightarrow>
          if \<not> pf_matches (kt_xor K) (sec_prefix section0) (core_name K s) then Some Useless else None
      | Propose content sh \<Rightarrow> decide_propose_status K s (src_name_of (kt_crypto K) (msg_src msg)) content sh
      | RelocatePromise promise \<Rightarrow> decide_relocate_promise_status K s promise
      | Relocate _ \<Rightarrow> None
      | BouncedUntrustedMessage _ _ \<Rightarrow> None
      | DkgMessage _ _ \<Rightarrow> None
      | DkgFailureObservation _ _ _ \<Rightarrow> None
      | DkgFailureAgreement _ \<Rightarrow> None
      | SectionKnowledgeQuery _ _ \<Rightarrow> None)"

definition decide_message_status ::
  "('c, 'a, 'd) kit \<Rightarrow> ('c, 'a, 'd) core \<Rightarrow> 'c routing_msg \<Rightarrow> error + message_status" where
  "decide_message_status K s msg =
     (case decide_before_verify K s msg of
        Some status \<Rightarrow> Inr status
      | None \<Rightarrow>
          and_then (core_verify_message K s msg) (\<lambda>trusted. Inr (if trusted then Useful else Untrusted)))"

section \<open>Untrusted messages\<close>

definition handle_untrusted_message ::
  "('c, 'a, 'd) kit \<Rightarrow> ('c, 'a, 'd) core \<Rightarrow> socket_addr option \<Rightarrow> 'c routing_msg \<Rightarrow> dest_info \<Rightarrow> error + 'c command" where
  "handle_untrusted_message K s sender msg received_dest_info =
     (let src_name = src_name_of (kt_crypto K) (msg_src msg);
          bounce_dst_key = section_key_by_name K s src_name;
          dest_info = \<lparr>di_dest = Dest src_name, di_section_pk = bounce_dst_key\<rparr>
      in and_then (single_src (kt_crypto K) (co_node s) DirectAndUnrouted (BouncedUntrustedMessage msg received_dest_info)
                    (core_section_key K s)) (\<lambda>bounce_msg.
         Inr (case sender of
                Some addr \<Rightarrow> send_message_to_node (src_name, addr) bounce_msg dest_info
              | None \<Rightarrow> send_message_to_our_elders K s bounce_msg)))"

definition handle_bounced_untrusted_message ::
  "('c, 'a, 'd) kit \<Rightarrow> ('c, 'a, 'd) core \<Rightarrow> peer \<Rightarrow> bls_public_key \<Rightarrow> 'c routing_msg \<Rightarrow> error + 'c command" where
  "handle_bounced_untrusted_message K s sender dst_key bounced_msg =
     and_then (case msg_variant bounced_msg of
                 Sync section0 network \<Rightarrow>
                   and_then (map_err (\<lambda>_. InvalidMessage)
                      (extend_chain (kt_env K) section0 dst_key (sec_chain (co_section s)))) (\<lambda>extended.
                   single_src (kt_crypto K) (co_node s) DirectAndUnrouted (Sync extended network) (core_section_key K s))
               | _ \<Rightarrow> Inr (updated_with_latest_key (core_section_key K s) bounced_msg)) (\<lambda>resend_msg.
     Inr (send_message_to_node (peer_entry sender) resend_msg
            \<lparr>di_dest = Dest (peer_name sender), di_section_pk = dst_key\<rparr>))"

section \<open>Anti-entropy\<close>

definition anti_entropy_process ::
  "('c, 'a, 'd) kit \<Rightarrow> node \<Rightarrow> 'c section_state \<Rightarrow> 'c routing_msg \<Rightarrow> dest_info \<Rightarrow> error + 'c routing_msg list \<times> bool" where
  "anti_entropy_process K node section0 msg dest_info =
     (let src_name = src_name_of (kt_crypto K) (msg_src msg)
      in if pf_matches (kt_xor K) (sec_prefix section0) src_name then Inr ([], True)
         else let dst = src_to_dst (kt_loc K) (src_location_of (kt_crypto K) (msg_src msg))
              in if sll_cmp_by_position (kt_chain K) (sec_chain section0) (di_section_pk dest_info)
                      (sll_last_key (kt_chain K) (sec_chain section0)) = Less
                 then let known = sll_proof_chain (kt_chain K) (sec_chain section0) (di_section_pk dest_info)
                      in if \<not> is_ok known \<and> (case msg_variant msg of JoinRequest _ \<Rightarrow> True | _ \<Rightarrow> False)
                         then Inr ([], False)
                         else let chain = (case known of Inr c \<Rightarrow> c | Inl _ \<Rightarrow> sec_chain section0)
                              in and_then (single_src (kt_crypto K) node dst
                                    (SectionKnowledge (sec_auth section0) chain (Some msg))
                                    (section_key (kt_crypto K) (authority_provider section0)))
                                  (\<lambda>m. Inr ([m], False))
                 else Inr ([], True))"

fun relay_messages ::
  "('c, 'a, 'd) kit \<Rightarrow> (nat \<Rightarrow> clock) \<Rightarrow> 'c routing_msg list \<Rightarrow> (('c, 'a, 'd) core, error, 'c command list) comp" where
  "relay_messages K ts [] = ret []"
| "relay_messages K ts (msg # msgs) =
     bind (relay_message K ts msg) (\<lambda>c.
     bind (relay_messages K ts msgs) (\<lambda>cs. ret ((case c of None \<Rightarrow> [] | Some c \<Rightarrow> [c]) @ cs)))"

definition check_for_entropy ::
  "('c, 'a, 'd) kit \<Rightarrow> (nat \<Rightarrow> clock) \<Rightarrow> 'c routing_msg \<Rightarrow> dest_info \<Rightarrow> (('c, 'a, 'd) core, error, 'c command list \<times> bool) comp" where
  "check_for_entropy K ts msg dest_info s =
     (if \<not> core_is_elder K s then (Inr ([], True), s)
      else case anti_entropy_process K (co_node s) (co_section s) msg dest_info of
             Inl e \<Rightarrow> (Inl e, s)
           | Inr (send, can_be_executed) \<Rightarrow>
               bind (relay_messages K ts send) (\<lambda>commands. ret (commands, can_be_executed)) s)"

end
