(* ===== verification/Core_Update.thy ===== *)
theory Core_Update
  imports Core_Sending
begin

text \<open>
  The reaction to a change of our section: \<open>Core::update_state\<close> of
  \<open>src/routing/core/mod.rs\<close>. The statistics it logs are left out.
\<close>

section \<open>Definitions\<close>

text \<open>\<open>BTreeSet::difference\<close> and \<open>BTreeSet::intersection\<close>\<close>

definition bts_diff :: "'k btree_set \<Rightarrow> 'k btree_set \<Rightarrow> 'k btree_set" where
  "bts_diff a b = filter (\<lambda>x. x \<notin> set b) a"

definition bts_inter :: "'k btree_set \<Rightarrow> 'k btree_set \<Rightarrow> 'k btree_set" where
  "bts_inter a b = filter (\<lambda>x. x \<in> set b) a"

definition elders_change :: "pfx \<Rightarrow> bls_public_key \<Rightarrow> xor_name btree_set \<Rightarrow> xor_name btree_set \<Rightarrow> elders" where
  "elders_change p key old current =
     \<lparr>el_prefix = p, el_key = key, el_remaining = bts_inter old current, el_added = bts_diff current old,
      el_removed = bts_diff old current\<rparr>"

text \<open>What a new elder set is announced with: the key generations and the flag for joins when
  we can sign, and our section's info to all sections we know.\<close>

definition section_knowledge_messages :: "('c, 'a, 'd) kit \<Rightarrow> ('c, 'a, 'd) core \<Rightarrow> error + 'c command list" where
  "section_knowledge_messages K s =
     (let section_auth = sec_auth (co_section s);
          variant = SectionKnowledge section_auth (sec_chain (co_section s)) None
      in collect_results (map (\<lambda>sap.
           and_then (single_src (kt_crypto K) (co_node s) DirectAndUnrouted variant
                      (section_key (kt_crypto K) (ss_value section_auth))) (\<lambda>msg.
           let targets = sap_elders sap
           in Inr (send_message_to_nodes targets (length targets) msg
                     \<lparr>di_dest = RandomDest, di_section_pk = section_key (kt_crypto K) sap\<rparr>)))
         (network_all (co_network s))))"

definition elder_announcements :: "('c, 'a, 'd) kit \<Rightarrow> ('c, 'a, 'd) core \<Rightarrow> error + 'c command list" where
  "elder_announcements K s =
     and_then (if has_key_share (co_section_keys_provider s)
               then and_then (core_promote_and_demote_elders K s) (\<lambda>c1.
                    and_then (joins_allowed_proposal K s (co_joins_allowed s)) (\<lambda>c2. Inr (c1 @ c2)))
               else Inr []) (\<lambda>c1.
     and_then (section_knowledge_messages K s) (\<lambda>c2. Inr (c1 @ c2)))"

text \<open>The part of \<open>update_state\<close> for a new section key.\<close>

definition update_for_new_key ::
  "('c, 'a, 'd) kit \<Rightarrow> state_snapshot \<Rightarrow> state_snapshot \<Rightarrow> (('c, 'a, 'd) core, error, 'c command list) comp" where
  "update_for_new_key K old new =
     bind (modify (\<lambda>s. s\<lparr>co_msg_filter := filter_reset (co_msg_filter s)\<rparr>)) (\<lambda>_.
     bind (if sn_is_elder new then lift_result (elder_announcements K) else ret []) (\<lambda>c1.
     bind (if sn_is_elder new \<or> sn_is_elder old
           then lift_result (\<lambda>s. send_sync K s (co_section s) (co_network s)) else ret []) (\<lambda>c2.
     bind (gets (\<lambda>s. elders_change (sn_prefix new) (sn_last_key new) (sn_elders old)
                       (sap_names (authority_provider (co_section s))))) (\<lambda>elders.
     bind (modify (\<lambda>s. if sn_is_elder old \<and> \<not> sn_is_elder new
                       then s\<lparr>co_network := network_new,
                              co_section_keys_provider := section_keys_new (kt_alloc K) (kt_crypto K) KEY_CACHE_SIZE None\<rparr>
                       else s)) (\<lambda>_.
     let self_status_change = (if \<not> sn_is_elder old \<and> sn_is_elder new then Promoted
                               else if sn_is_elder old \<and> \<not> sn_is_elder new then Demoted
                               else NoElderChange)
     in bind (gets (\<lambda>s. if sn_prefix new \<noteq> sn_prefix old
                        then map_option (\<lambda>sec_auth.
                               elders_change (pf_sibling (kt_xor K) (sn_prefix new)) (section_key (kt_crypto K) sec_auth)
                                 (sn_elders old) (sap_names sec_auth))
                             (network_get (kt_pmap K) (co_network s) (pf_sibling (kt_xor K) (sn_prefix new)))
                        else None)) (\<lambda>sibling_elders.
        bind (modify (send_event (case sibling_elders of
                                    Some sibling \<Rightarrow> SectionSplit elders sibling self_status_change
                                  | None \<Rightarrow> EldersChanged elders self_status_change))) (\<lambda>_.
        ret (c1 @ c2))))))))"

definition update_state ::
  "('c, 'a, 'd) kit \<Rightarrow> state_snapshot \<Rightarrow> (('c, 'a, 'd) core, error, 'c command list) comp" where
  "update_state K old =
     bind (gets (core_state_snapshot K)) (\<lambda>new.
     bind (modify (\<lambda>s. s\<lparr>co_section_keys_provider := finalise_dkg (co_section_keys_provider s) (core_last_key K s)\<rparr>)) (\<lambda>_.
     bind (if sn_last_key new \<noteq> sn_last_key old then update_for_new_key K old new else ret []) (\<lambda>commands.
     bind (if \<not> sn_is_elder new then gets (return_relocate_promise K) else ret None) (\<lambda>promise.
     ret (commands @ (case promise of None \<Rightarrow> [] | Some c \<Rightarrow> [c]))))))"

end
