(* ===== verification/Core_Agreement.thy ===== *)
theory Core_Agreement
  imports Core_Update
begin

text \<open>
  What a node does when a proposal is agreed on:
  \<open>src/routing/core/messaging/handling/agreement.rs\<close>, the relocation of members after
  churn (\<open>handling/relocation.rs\<close>), and the aggregation of proposals and key generation
  results of \<open>handling/mod.rs\<close>.
\<close>

section \<open>Relocation\<close>

fun relocate_each ::
  "('c, 'a, 'd) kit \<Rightarrow> ('c, 'a, 'd) core \<Rightarrow> xor_name \<Rightarrow> (node_state \<times> relocate_action) list \<Rightarrow> error + 'c command list" where
  "relocate_each K s churn_name [] = Inr []"
| "relocate_each K s churn_name ((info, action) # relocations) =
     (if peer_name (ns_peer info) = churn_name then relocate_each K s churn_name relocations
      else and_then (propose K s (Offline (relocate (action_destination action) info))) (\<lambda>c1.
           and_then (case action of
                       Instant details \<Rightarrow> send_relocate K s (ns_peer info) details
                     | Delayed promise \<Rightarrow> send_relocate_promise K s (ns_peer info) promise) (\<lambda>c2.
           and_then (relocate_each K s churn_name relocations) (\<lambda>c3. Inr (c1 @ c2 @ c3)))))"

definition relocate_peers ::
  "('c, 'a, 'd) kit \<Rightarrow> ('c, 'a, 'd) core \<Rightarrow> xor_name \<Rightarrow> bls_signature \<Rightarrow> error + 'c command list" where
  "relocate_peers K s churn_name churn_signature =
     (if elder_count (authority_provider (co_section s)) < ELDER_SIZE then Inr []
      else if pf_bit_count (kt_xor K) (sec_prefix (co_section s)) < 1 then Inr []
      else relocate_each K s churn_name
             (relocation_actions (kt_env K) (kt_pmap K) (co_section s) (co_network s) churn_name churn_signature))"

definition relocate_rejoining_peer ::
  "('c, 'a, 'd) kit \<Rightarrow> ('c, 'a, 'd) core \<Rightarrow> peer \<Rightarrow> u8 \<Rightarrow> error + 'c command list" where
  "relocate_rejoining_peer K s peer age =
     (let details = relocate_details_with_age (kt_env K) (kt_pmap K) (co_section s) (co_network s) peer (peer_name peer) age
      in send_relocate K s peer details)"

section \<open>Membership\<close>

definition churn_reactions :: "('c, 'a, 'd) kit \<Rightarrow> ('c, 'a, 'd) core \<Rightarrow> xor_name \<Rightarrow> bls_signature \<Rightarrow> error + 'c command list" where
  "churn_reactions K s churn_name churn_signature =
     and_then (relocate_peers K s churn_name churn_signature) (\<lambda>c1.
     and_then (core_promote_and_demote_elders K s) (\<lambda>result.
     and_then (if result = [] then send_sync_to_adults K s else Inr []) (\<lambda>c2.
     Inr (c1 @ c2 @ result))))"

definition rejoining_age :: "u8 \<Rightarrow> u8" where
  "rejoining_age age = max MIN_AGE (age div 2)"

definition accept_online ::
  "('c, 'a, 'd) kit \<Rightarrow> node_state section_signed \<Rightarrow> xor_name option \<Rightarrow> (('c, 'a, 'd) core, error, 'c command list) comp" where
  "accept_online K new_info previous_name s =
     (let (updated, section1) = update_member (kt_env K) (co_section s) new_info;
          s1 = s\<lparr>co_section := section1\<rparr>;
          peer = ns_peer (ss_value new_info)
      in if \<not> updated then (Inr [], s1)
         else let s2 = send_event (MemberJoined (peer_name peer) previous_name (peer_age peer)) s1
              in (and_then (churn_reactions K s2 (peer_name peer) (sg_signature (ss_signed new_info))) (\<lambda>c1.
                  and_then (send_node_approval K s2 new_info) (\<lambda>c2. Inr (c1 @ [c2]))), s2))"

definition handle_online_agreement ::
  "('c, 'a, 'd) kit \<Rightarrow> node_state \<Rightarrow> xor_name option \<Rightarrow> signed \<Rightarrow> (('c, 'a, 'd) core, error, 'c command list) comp" where
  "handle_online_agreement K new_info previous_name sg s =
     (case get_section_signed (sec_members (co_section s)) (peer_name (ns_peer new_info)) of
        Some old_info \<Rightarrow>
          if ns_state (ss_value old_info) \<noteq> Left then (Inr [], s)
          else let new_age = rejoining_age (peer_age (ns_peer (ss_value old_info)))
               in if MIN_AGE < new_age
                  then (and_then (send_node_approval K s old_info) (\<lambda>c1.
                        and_then (relocate_rejoining_peer K s (ns_peer (ss_value old_info)) new_age) (\<lambda>c2.
                        Inr (c1 # c2))), s)
                  else accept_online K \<lparr>ss_value = new_info, ss_signed = sg\<rparr> previous_name s
      | None \<Rightarrow> accept_online K \<lparr>ss_value = new_info, ss_signed = sg\<rparr> previous_name s)"

definition handle_offline_agreement ::
  "('c, 'a, 'd) kit \<Rightarrow> node_state \<Rightarrow> signed \<Rightarrow> (('c, 'a, 'd) core, error, 'c command list) comp" where
  "handle_offline_agreement K node_state sg s =
     (let peer = ns_peer node_state;
          (updated, section1) = update_member (kt_env K) (co_section s) \<lparr>ss_value = node_state, ss_signed = sg\<rparr>;
          s1 = s\<lparr>co_section := section1\<rparr>
      in if \<not> updated then (Inr [], s1)
         else (case churn_reactions K s1 (peer_name peer) (sg_signature sg) of
                 Inl e \<Rightarrow> (Inl e, s1)
               | Inr commands \<Rightarrow> (Inr commands, send_event (MemberLeft (peer_name peer) (peer_age peer)) s1)))"

section \<open>Elders\<close>

definition handle_section_info_agreement ::
  "('c, 'a, 'd) kit \<Rightarrow> section_auth \<Rightarrow> signed \<Rightarrow> (('c, 'a, 'd) core, error, 'c command list) comp" where
  "handle_section_info_agreement K section_auth sg s =
     (let equal_or_extension = (sa_prefix section_auth = sec_prefix (co_section s) \<or>
            pf_is_extension_of (kt_xor K) (sa_prefix section_auth) (sec_prefix (co_section s)));
          signed_auth = section_signed_new section_auth sg
      in if equal_or_extension
         then let infos = promote_and_demote_elders (kt_env K) (co_section s) (core_name K s)
              in if sap_elder_candidates section_auth \<notin> set infos then (Inr [], s)
                 else let recipients = concat (map ec_peers infos);
                          sync_recipients = map peer_entry
                            (filter (\<lambda>peer. \<not> sec_is_elder (co_section s) (peer_name peer)) recipients)
                      in (and_then (if sync_recipients \<noteq> []
                                    then and_then (single_src (kt_crypto K) (co_node s) DirectAndUnrouted
                                           (Sync (co_section s) (co_network s)) (core_section_key K s)) (\<lambda>m.
                                         Inr [send_message_to_nodes sync_recipients (length sync_recipients) m
                                                \<lparr>di_dest = RandomDest, di_section_pk = sg_public_key sg\<rparr>])
                                    else Inr []) (\<lambda>c1.
                          and_then (send_proposal K s recipients (OurElders signed_auth)) (\<lambda>c2. Inr (c1 @ c2))), s)
         else (Inr [], s\<lparr>co_network :=
                 snd (network_update_section (kt_env K) (kt_pmap K) (co_network s) signed_auth None (sec_chain (co_section s)))\<rparr>))"

definition apply_elders_update :: "('c, 'a, 'd) kit \<Rightarrow> ('c, 'a, 'd) core \<Rightarrow> barrier_entry \<Rightarrow> ('c, 'a, 'd) core" where
  "apply_elders_update K s update =
     (let (section_auth, key_signed) = update
      in if pf_matches (kt_xor K) (sa_prefix (ss_value section_auth)) (core_name K s)
         then s\<lparr>co_section := snd (update_elders (kt_env K) (co_section s) section_auth key_signed)\<rparr>
         else s\<lparr>co_network := snd (network_update_section (kt_env K) (kt_pmap K) (co_network s) section_auth
                   (Some key_signed) (sec_chain (co_section s)))\<rparr>)"

definition handle_our_elders_agreement ::
  "('c, 'a, 'd) kit \<Rightarrow> section_auth section_signed \<Rightarrow> signed \<Rightarrow> (('c, 'a, 'd) core, error, 'c command list) comp" where
  "handle_our_elders_agreement K section_auth key_signed s =
     (let (updates, barrier) = split_barrier_process (kt_xor K) (co_split_barrier s) (sec_prefix (co_section s))
            section_auth key_signed;
          s1 = s\<lparr>co_split_barrier := barrier\<rparr>
      in if updates = [] then (Inr [], s1)
         else let snapshot = core_state_snapshot K s1
              in update_state K snapshot (foldl (apply_elders_update K) s1 updates))"

section \<open>Agreements\<close>

definition handle_accumulate_at_src_agreement ::
  "('c, 'a, 'd) kit \<Rightarrow> 'c plain_message \<Rightarrow> 'c \<Rightarrow> signed \<Rightarrow> dest_info \<Rightarrow> error + 'c command" where
  "handle_accumulate_at_src_agreement K message section_chain sg dest_info =
     and_then (section_src (kt_env K) message sg section_chain) (\<lambda>message. Inr (HandleMessage None message dest_info))"

definition handle_agreement ::
  "('c, 'a, 'd) kit \<Rightarrow> 'c proposal \<Rightarrow> signed \<Rightarrow> (('c, 'a, 'd) core, error, 'c command list) comp" where
  "handle_agreement K proposal sg s =
     (case proposal of
        Online node_state previous_name _ \<Rightarrow> handle_online_agreement K node_state previous_name sg s
      | Offline node_state \<Rightarrow> handle_offline_agreement K node_state sg s
      | SectionInfo section_auth \<Rightarrow> handle_section_info_agreement K section_auth sg s
      | OurElders section_auth \<Rightarrow> handle_our_elders_agreement K section_auth sg s
      | AccumulateAtSrc message _ \<Rightarrow>
          (case dst_name (kt_loc K) (pm_dst message) of
             None \<Rightarrow> (Inl InvalidDstLocation, s)
           | Some dest_name \<Rightarrow>
               (and_then (handle_accumulate_at_src_agreement K message (sec_chain (co_section s)) sg
                           \<lparr>di_dest = Dest dest_name, di_section_pk = pm_dst_key message\<rparr>) (\<lambda>c. Inr [c]), s))
      | JoinsAllowed _ joins_allowed \<Rightarrow> (Inr [], s\<lparr>co_joins_allowed := joins_allowed\<rparr>))"

definition handle_proposal ::
  "('c, 'a, 'd) kit \<Rightarrow> 'c proposal \<Rightarrow> signed_share \<Rightarrow> (('c, 'a, 'd) core, error, 'c command list) comp" where
  "handle_proposal K proposal sh s =
     (case proposal_aggregator_add (kt_crypto K) (kt_aggregator K) (co_proposal_aggregator s) proposal sh of
        (r, agg) \<Rightarrow>
          ((case r of
              Inr (proposal, sg) \<Rightarrow> Inr [HandleAgreement proposal sg]
            | Inl (Aggregation NotEnoughShares) \<Rightarrow> Inr []
            | Inl _ \<Rightarrow> Inl InvalidSignatureShare), s\<lparr>co_proposal_aggregator := agg\<rparr>))"

definition handle_dkg_outcome ::
  "('c, 'a, 'd) kit \<Rightarrow> section_auth \<Rightarrow> section_key_share \<Rightarrow> (('c, 'a, 'd) core, error, 'c command list) comp" where
  "handle_dkg_outcome K section_auth ks s =
     (let proposal = SectionInfo section_auth;
          recipients = sap_peers (authority_provider (co_section s));
          result = send_proposal_with K s recipients proposal ks;
          public_key = pks_public_key (kt_crypto K) (ks_public_key_set ks);
          s1 = s\<lparr>co_section_keys_provider := insert_dkg_outcome (kt_crypto K) (co_section_keys_provider s) ks\<rparr>;
          s2 = (if sll_has_key (kt_chain K) (sec_chain (co_section s)) public_key
                then s1\<lparr>co_section_keys_provider := finalise_dkg (co_section_keys_provider s1) public_key\<rparr>
                else s1)
      in (result, s2))"

definition handle_dkg_failure :: "('c, 'a, 'd) kit \<Rightarrow> ('c, 'a, 'd) core \<Rightarrow> dkg_failure_signed_set \<Rightarrow> error + 'c command" where
  "handle_dkg_failure K s signeds =
     and_then (single_src (kt_crypto K) (co_node s) DirectAndUnrouted (DkgFailureAgreement signeds) (core_section_key K s))
       (\<lambda>message. Inr (send_message_to_our_elders K s message))"

end
