(* ===== verification/Core_Handling.thy ===== *)
theory Core_Handling
  imports Core_Decisions Core_Agreement
begin

text \<open>
  The handlers of received messages: \<open>src/routing/core/messaging/handling/mod.rs\<close>,
  \<open>handling/relocation.rs\<close>, \<open>handling/resource_proof.rs\<close> and
  \<open>src/routing/core/connectivity.rs\<close>. The random nonce of a resource challenge and the
  fresh channel of a relocation are arguments.
\<close>

section \<open>Key generation and connectivity\<close>

definition handle_dkg_start ::
  "('c, 'a, 'd) kit \<Rightarrow> dkg_key \<Rightarrow> elder_candidates \<Rightarrow> (('c, 'a, 'd) core, error, 'c command list) comp" where
  "handle_dkg_start K dkg_key candidates s =
     (let (commands, d) = dg_start (kt_dkg K) (nd_keypair (co_node s)) dkg_key candidates (co_dkg_voter s)
      in (into_commands (kt_crypto K) (co_node s) (core_last_key K s) commands, s\<lparr>co_dkg_voter := d\<rparr>))"

definition handle_dkg_message ::
  "('c, 'a, 'd) kit \<Rightarrow> dkg_key \<Rightarrow> dkg_message \<Rightarrow> (('c, 'a, 'd) core, error, 'c command list) comp" where
  "handle_dkg_message K dkg_key message s =
     (let (commands, d) = dg_process_message (kt_dkg K) (nd_keypair (co_node s)) dkg_key message (co_dkg_voter s)
      in (into_commands (kt_crypto K) (co_node s) (core_last_key K s) commands, s\<lparr>co_dkg_voter := d\<rparr>))"

definition handle_dkg_failure_observation ::
  "('c, 'a, 'd) kit \<Rightarrow> dkg_key \<Rightarrow> xor_name btree_set \<Rightarrow> dkg_failure_signed \<Rightarrow> (('c, 'a, 'd) core, error, 'c command list) comp" where
  "handle_dkg_failure_observation K dkg_key non_participants sg s =
     (let (command, d) = dg_process_failure (kt_dkg K) dkg_key non_participants sg (co_dkg_voter s)
      in (option_into_commands (kt_crypto K) (co_node s) (core_last_key K s) command, s\<lparr>co_dkg_voter := d\<rparr>))"

definition core_handle_timeout :: "('c, 'a, 'd) kit \<Rightarrow> u64 \<Rightarrow> (('c, 'a, 'd) core, error, 'c command list) comp" where
  "core_handle_timeout K token s =
     (let (commands, d) = dg_handle_timeout (kt_dkg K) (nd_keypair (co_node s)) token (co_dkg_voter s)
      in (into_commands (kt_crypto K) (co_node s) (core_last_key K s) commands, s\<lparr>co_dkg_voter := d\<rparr>))"

text \<open>The elders without those that are proposed to leave vote on each of them; a vote that
  cannot be cast is skipped, a member that already relocates is an error.\<close>

fun cast_each ::
  "('c, 'a, 'd) kit \<Rightarrow> ('c, 'a, 'd) core \<Rightarrow> peer list \<Rightarrow> xor_name list \<Rightarrow> error + 'c command list" where
  "cast_each K s elders [] = Inr []"
| "cast_each K s elders (name # names) =
     (case peers_get (sec_members (co_section s)) name of
        None \<Rightarrow> cast_each K s elders names
      | Some info \<Rightarrow>
          and_then (leave info) (\<lambda>info.
          and_then (cast_each K s elders names) (\<lambda>rest.
          Inr ((case send_proposal K s elders (Offline info) of Inr commands \<Rightarrow> commands | Inl _ \<Rightarrow> []) @ rest))))"

definition cast_offline_proposals ::
  "('c, 'a, 'd) kit \<Rightarrow> ('c, 'a, 'd) core \<Rightarrow> xor_name btree_set \<Rightarrow> error + 'c command list" where
  "cast_offline_proposals K s names =
     (let elders = filter (\<lambda>peer. peer_name peer \<notin> set names) (sap_peers (authority_provider (co_section s)))
      in cast_each K s elders names)"

definition propose_offline :: "('c, 'a, 'd) kit \<Rightarrow> ('c, 'a, 'd) core \<Rightarrow> xor_name \<Rightarrow> error + 'c command list" where
  "propose_offline K s name = cast_offline_proposals K s [name]"

text \<open>A count of votes that cannot be compared, for no candidates at all, is not an agreement.\<close>

definition handle_dkg_failure_agreement ::
  "('c, 'a, 'd) kit \<Rightarrow> ('c, 'a, 'd) core \<Rightarrow> xor_name \<Rightarrow> dkg_failure_signed_set \<Rightarrow> error + 'c command list" where
  "handle_dkg_failure_agreement K s sender signeds =
     and_then (ok_or InvalidSrcLocation (peers_get (sec_members (co_section s)) sender)) (\<lambda>info.
     let generation = of_nat (sll_main_branch_len (kt_chain K) (sec_chain (co_section s)))
     in case find (\<lambda>candidates. failure_set_verify (kt_env K) signeds candidates generation = Some True)
               (promote_and_demote_elders (kt_env K) (co_section s) (core_name K s)) of
          None \<Rightarrow> Inr []
        | Some candidates \<Rightarrow>
            if dfs_non_participants signeds = [] then send_dkg_start_to K s candidates [ns_peer info]
            else cast_offline_proposals K s (dfs_non_participants signeds))"

definition handle_connection_lost :: "('c, 'a, 'd) core \<Rightarrow> socket_addr \<Rightarrow> error + 'c command list" where
  "handle_connection_lost s addr = Inr []"

definition handle_peer_lost :: "('c, 'a, 'd) kit \<Rightarrow> ('c, 'a, 'd) core \<Rightarrow> socket_addr \<Rightarrow> error + 'c command list" where
  "handle_peer_lost K s addr =
     (case find_joined_member_by_addr (co_section s) addr of
        None \<Rightarrow> Inr []
      | Some peer \<Rightarrow>
          if \<not> core_is_elder K s then Inr []
          else and_then (propose_offline K s (peer_name peer)) (\<lambda>commands.
               Inr (commands @ [StartConnectivityTestCommand (peer_name peer)])))"

section \<open>Joining\<close>

definition validate_resource_proof_response ::
  "('c, 'a, 'd) kit \<Rightarrow> ('c, 'a, 'd) core \<Rightarrow> xor_name \<Rightarrow> resource_proof_response \<Rightarrow> bool" where
  "validate_resource_proof_response K s name response =
     (case serialize (kt_crypto K) (PNonce name (rpr_nonce response)) of
        None \<Rightarrow> False
      | Some serialized \<Rightarrow>
          ed_verify (kt_crypto K) (kp_public (nd_keypair (co_node s))) serialized (rpr_nonce_signature response) \<and>
          kt_validate_all K RESOURCE_PROOF_DATA_SIZE RESOURCE_PROOF_DIFFICULTY (rpr_nonce response) (rpr_data response)
            (rpr_solution response))"

definition send_resource_proof_challenge ::
  "('c, 'a, 'd) kit \<Rightarrow> bytes \<Rightarrow> ('c, 'a, 'd) core \<Rightarrow> peer \<Rightarrow> error + 'c command" where
  "send_resource_proof_challenge K nonce s peer =
     and_then (ok_or InvalidMessage (serialize (kt_crypto K) (PNonce (peer_name peer) nonce))) (\<lambda>serialized.
     send_direct_message K s (peer_entry peer)
       (JoinResponse (ResourceChallenge RESOURCE_PROOF_DATA_SIZE RESOURCE_PROOF_DIFFICULTY nonce
          (ed_sign (kt_crypto K) (nd_keypair (co_node s)) serialized)))
       (core_last_key K s))"

definition reply :: "('c, 'a, 'd) kit \<Rightarrow> ('c, 'a, 'd) core \<Rightarrow> peer \<Rightarrow> 'c variant \<Rightarrow> error + 'c command list" where
  "reply K s peer variant =
     and_then (send_direct_message K s (peer_entry peer) variant (core_last_key K s)) (\<lambda>c. Inr [c])"

definition handle_join_request ::
  "('c, 'a, 'd) kit \<Rightarrow> bytes \<Rightarrow> ('c, 'a, 'd) core \<Rightarrow> peer \<Rightarrow> join_request \<Rightarrow> error + 'c command list" where
  "handle_join_request K nonce s peer req =
     (let p = sec_prefix (co_section s);
          retry = reply K s peer (JoinResponse (Retry (authority_provider (co_section s))))
      in if \<not> pf_matches (kt_xor K) p (peer_name peer) \<or> jr_section_key req \<noteq> core_last_key K s then retry
         else if is_joined (sec_members (co_section s)) (peer_name peer) then Inr []
         else if \<not> co_joins_allowed s then reply K s peer (JoinResponse (Rejected JoinsDisallowed))
         else if pf_is_empty (kt_xor K) p \<and>
                 (peer_age peer < FIRST_SECTION_MIN_AGE \<or> FIRST_SECTION_MAX_AGE < peer_age peer) then Inr []
         else if \<not> pf_is_empty (kt_xor K) p \<and> peer_age peer \<noteq> MIN_ADULT_AGE then retry
         else let age = (if pf_is_empty (kt_xor K) p then peer_age peer else MIN_ADULT_AGE)
              in if age \<noteq> peer_age peer then Inr []
                 else case jr_resource_proof_response req of
                        Some response \<Rightarrow>
                          if \<not> validate_resource_proof_response K s (peer_name peer) response then Inr []
                          else Inr [ProposeOnline peer None None]
                      | None \<Rightarrow> and_then (send_resource_proof_challenge K nonce s peer) (\<lambda>c. Inr [c]))"

definition handle_join_as_relocated_request ::
  "('c, 'a, 'd) kit \<Rightarrow> ('c, 'a, 'd) core \<Rightarrow> peer \<Rightarrow> bls_public_key \<Rightarrow> 'c relocate_payload option \<Rightarrow> error + 'c command list" where
  "handle_join_as_relocated_request K s peer req_section_key relocate_payload =
     (let p = sec_prefix (co_section s);
          retry = reply K s peer (JoinAsRelocatedResponse (RelocatedRetry (authority_provider (co_section s))))
      in case relocate_payload of
           None \<Rightarrow> retry
         | Some payload \<Rightarrow>
             if \<not> pf_matches (kt_xor K) p (peer_name peer) \<or> req_section_key \<noteq> core_last_key K s then retry
             else if is_joined (sec_members (co_section s)) (peer_name peer) then Inr []
             else if \<not> verify_identity (kt_crypto K) payload (peer_name peer) then Inr []
             else and_then (relocate_payload_details payload) (\<lambda>details.
                  if \<not> pf_matches (kt_xor K) p (rd_destination details) then Inr []
                  else if core_verify_message K s (pl_details payload) \<noteq> Inr True then Inr []
                  else if rd_age details \<noteq> peer_age peer then Inr []
                  else Inr [ProposeOnline peer (Some (rd_pub_id details)) (Some (rd_destination_key details))]))"

section \<open>Being relocated\<close>

definition handle_relocate ::
  "('c, 'a, 'd) kit \<Rightarrow> nat \<Rightarrow> 'c routing_msg \<Rightarrow> (('c, 'a, 'd) core, error, 'c command option) comp" where
  "handle_relocate K channel signed_msg s =
     (case signed_relocate_details signed_msg of
        Inl e \<Rightarrow> (Inl e, s)
      | Inr details \<Rightarrow>
          if rd_pub_id details \<noteq> core_name K s then (Inr None, s)
          else case co_relocate_state s of
                 Some (InProgress _) \<Rightarrow> (Inr None, s)
               | st \<Rightarrow>
                   let s1 = (if st = None then send_event (RelocationStarted (core_name K s)) s else s)
                   in (Inr (Some (RelocateCommand (sap_addresses (authority_provider (co_section s))) signed_msg channel)),
                       s1\<lparr>co_relocate_state := Some (InProgress channel)\<rparr>))"

definition handle_relocate_promise ::
  "('c, 'a, 'd) kit \<Rightarrow> relocate_promise \<Rightarrow> 'c routing_msg \<Rightarrow> (('c, 'a, 'd) core, error, 'c command list) comp" where
  "handle_relocate_promise K promise msg s =
     (if rp_name promise = core_name K s
      then let s1 = (case co_relocate_state s of
                       None \<Rightarrow> send_event (RelocationStarted (core_name K s))
                                (s\<lparr>co_relocate_state := Some (DelayedRelocation msg)\<rparr>)
                     | Some _ \<Rightarrow> s)
           in (Inr (if \<not> core_is_elder K s1 then [send_message_to_our_elders K s1 msg] else []), s1)
      else if sec_is_elder (co_section s) (rp_name promise) then (Inr [], s)
      else case peers_get (sec_members (co_section s)) (rp_name promise) of
             Some info \<Rightarrow>
               let details = relocate_details_new (kt_env K) (kt_pmap K) (co_section s) (co_network s) (ns_peer info)
                     (rp_destination promise)
               in (send_relocate K s (ns_peer info) details, s)
           | None \<Rightarrow> (Inr [], s))"

section \<open>Other messages\<close>

definition handle_section_info_msg ::
  "('c, 'a, 'd) kit \<Rightarrow> ('c, 'a, 'd) core \<Rightarrow> socket_addr \<Rightarrow> section_info_msg \<Rightarrow> dest_info \<Rightarrow> 'c command list" where
  "handle_section_info_msg K s sender message dest_info =
     (let dest_info = \<lparr>di_dest = di_dest dest_info, di_section_pk = core_last_key K s\<rparr>
      in case message of
           GetSectionQuery public_key \<Rightarrow>
             (let name = query_name (kt_loc K) public_key;
                  response = (case (pf_matches (kt_xor K) (sec_prefix (co_section s)) name, core_public_key_set s) of
                                (True, Inr pk_set) \<Rightarrow>
                                  Success \<lparr>sa_prefix = sa_prefix (authority_provider (co_section s)),
                                           sa_public_key_set = pk_set,
                                           sa_elders = bt_collect (map peer_entry
                                             (sap_peers (authority_provider (co_section s))))\<rparr>
                              | _ \<Rightarrow> RedirectTo (case network_closest (kt_xor K) (co_network s) name of
                                                  Some sap \<Rightarrow> sap
                                                | None \<Rightarrow> authority_provider (co_section s)))
              in [SendMessage [(name, sender)] 1 (SectionInfoType dest_info (GetSectionResponse response))])
         | GetSectionResponse _ \<Rightarrow> []
         | SectionInfoUpdate _ \<Rightarrow> [])"

definition handle_section_knowledge_query ::
  "('c, 'a, 'd) kit \<Rightarrow> ('c, 'a, 'd) core \<Rightarrow> bls_public_key option \<Rightarrow> 'c routing_msg \<Rightarrow> socket_addr \<Rightarrow> xor_name \<Rightarrow> dst_location
    \<Rightarrow> error + 'c command" where
  "handle_section_knowledge_query K s given_key msg sender src_name dst =
     (let chain = sec_chain (co_section s);
          key = (case given_key of Some k \<Rightarrow> k | None \<Rightarrow> sll_root_key (kt_chain K) chain)
      in and_then (map_err InvalidSectionChain (sll_proof_chain (kt_chain K) chain key)) (\<lambda>truncated_chain.
         and_then (single_src (kt_crypto K) (co_node s) dst
                    (SectionKnowledge (sec_auth (co_section s)) truncated_chain (Some msg)) (core_section_key K s)) (\<lambda>m.
         Inr (send_message_to_node (src_name, sender) m
                \<lparr>di_dest = Dest src_name, di_section_pk = section_key_by_name K s src_name\<rparr>))))"

definition handle_user_message ::
  "('c, 'a, 'd) kit \<Rightarrow> 'c routing_msg \<Rightarrow> bytes \<Rightarrow> (('c, 'a, 'd) core, error, 'c command list) comp" where
  "handle_user_message K msg content s =
     (case msg_dst msg of
        DstEndUser user \<Rightarrow>
          (case core_get_socket_addr s (eu_socket_id user) of
             Some socket_addr \<Rightarrow>
               (case kt_client_msg K content of
                  Inl e \<Rightarrow> (Inl (Messaging e), s)
                | Inr m \<Rightarrow>
                    (Inr [SendMessage [(eu_xorname user, socket_addr)] 1
                            (ClientType \<lparr>di_dest = Dest (eu_xorname user), di_section_pk = core_last_key K s\<rparr> m)], s))
           | None \<Rightarrow> (Inl EmptyRecipientList, s))
      | _ \<Rightarrow> (Inr [], send_event (MessageReceived content (src_location_of (kt_crypto K) (msg_src msg)) (msg_dst msg)
                (msg_signed msg) (msg_section_pk msg)) s))"

definition handle_sync ::
  "('c, 'a, 'd) kit \<Rightarrow> 'c section_state \<Rightarrow> network \<Rightarrow> (('c, 'a, 'd) core, error, 'c command list) comp" where
  "handle_sync K section0 network s =
     (if \<not> pf_matches (kt_xor K) (sec_prefix section0) (core_name K s) then (Inr [], s)
      else let old_adults = bts_collect (map peer_name (live_adults (co_section s)));
               snapshot = core_state_snapshot K s;
               (merged, section1) = section_merge (kt_env K) (co_section s) section0;
               s1 = s\<lparr>co_section := section1\<rparr>
           in case merged of
                Inl e \<Rightarrow> (Inl e, s1)
              | Inr _ \<Rightarrow>
                  let s2 = s1\<lparr>co_network := network_merge (kt_env K) (kt_pmap K) (co_network s1) network
                               (sec_chain (co_section s1))\<rparr>;
                      current_adults = bts_collect (map peer_name (live_adults (co_section s2)));
                      added = bts_diff current_adults old_adults;
                      removed = bts_diff old_adults current_adults;
                      s3 = (if \<not> core_is_elder K s2 \<and> (added \<noteq> [] \<or> removed \<noteq> [])
                            then send_event (AdultsChanged (bts_inter old_adults current_adults) added removed) s2
                            else s2)
                  in update_state K snapshot s3)"

definition aggregate_message ::
  "('c, 'a, 'd) kit \<Rightarrow> 'c routing_msg \<Rightarrow> (('c, 'a, 'd) core, error, 'c routing_msg option) comp" where
  "aggregate_message K msg s =
     (case msg_src msg of
        BlsShareAuth _ sh _ \<Rightarrow>
          (case serialize (kt_crypto K) (signable_view msg) of
             None \<Rightarrow> (Inl InvalidMessage, s)
           | Some signed_bytes \<Rightarrow>
               (case agg_add (kt_aggregator K) (co_message_aggregator s) signed_bytes sh of
                  (r, agg) \<Rightarrow>
                    ((case r of
                        Inr sg \<Rightarrow> and_then (into_dst_accumulated (kt_crypto K) msg sg) (\<lambda>m. Inr (Some m))
                      | Inl NotEnoughShares \<Rightarrow> Inr None
                      | Inl _ \<Rightarrow> Inl InvalidSignatureShare), s\<lparr>co_message_aggregator := agg\<rparr>)))
      | _ \<Rightarrow> (Inr (Some msg), s))"

section \<open>Messages that are for us\<close>

record arrivals =
  ar_nonce :: bytes
  ar_channel :: nat
  ar_clocks :: "nat \<Rightarrow> clock"

definition handle_useful_variant ::
  "('c, 'a, 'd) kit \<Rightarrow> arrivals \<Rightarrow> socket_addr option \<Rightarrow> 'c routing_msg \<Rightarrow> dest_info
    \<Rightarrow> (('c, 'a, 'd) core, error, 'c command list) comp" where
  "handle_useful_variant K ar sender msg dest_info s =
     (let cr = kt_crypto K;
          src_name = src_name_of cr (msg_src msg);
          sender_peer = and_then (ok_or InvalidSrcLocation sender) (src_peer cr (msg_src msg))
      in case msg_variant msg of
           SectionKnowledge section_auth chain inner \<Rightarrow>
             (Inr (case inner of Some message \<Rightarrow> [HandleMessage sender message dest_info] | None \<Rightarrow> []),
              update_section_knowledge K section_auth chain s)
         | Sync section0 network \<Rightarrow> handle_sync K section0 network s
         | Relocate _ \<Rightarrow>
             if src_is_section (msg_src msg)
             then bind (lift_result (\<lambda>_. signed_relocate_details_new msg)) (\<lambda>signed_relocate.
                  bind (handle_relocate K (ar_channel ar) signed_relocate) (\<lambda>c.
                  ret (case c of None \<Rightarrow> [] | Some c \<Rightarrow> [c]))) s
             else (Inl InvalidSrcLocation, s)
         | RelocatePromise promise \<Rightarrow> handle_relocate_promise K promise msg s
         | StartConnectivityTest name \<Rightarrow> (Inr [TestConnectivity name], s)
         | JoinRequest join_request \<Rightarrow>
             (and_then sender_peer (\<lambda>peer. handle_join_request K (ar_nonce ar) s peer join_request), s)
         | JoinAsRelocatedRequest req_section_key payload \<Rightarrow>
             (and_then sender_peer (\<lambda>peer. handle_join_as_relocated_request K s peer req_section_key payload), s)
         | UserMessage content \<Rightarrow> handle_user_message K msg content s
         | BouncedUntrustedMessage bounced_msg bounced_info \<Rightarrow>
             (and_then sender_peer (\<lambda>peer.
              and_then (handle_bounced_untrusted_message K s peer (di_section_pk bounced_info) bounced_msg) (\<lambda>c. Inr [c])), s)
         | SectionKnowledgeQuery last_known_key returned_msg \<Rightarrow>
             (and_then (ok_or InvalidSrcLocation sender) (\<lambda>addr.
              and_then (handle_section_knowledge_query K s last_known_key returned_msg addr src_name
                         (src_to_dst (kt_loc K) (src_location_of cr (msg_src msg)))) (\<lambda>c. Inr [c])), s)
         | DkgStart dkg_key candidates \<Rightarrow> handle_dkg_start K dkg_key candidates s
         | DkgMessage dkg_key message \<Rightarrow> handle_dkg_message K dkg_key message s
         | DkgFailureObservation dkg_key sg non_participants \<Rightarrow>
             handle_dkg_failure_observation K dkg_key non_participants sg s
         | DkgFailureAgreement signeds \<Rightarrow> (handle_dkg_failure_agreement K s src_name signeds, s)
         | Propose content sh \<Rightarrow>
             (let (result, s1) = handle_proposal K content sh s
              in (and_then (case sender of
                              Some addr \<Rightarrow> and_then (check_lagging K s1 (src_name, addr) sh)
                                            (\<lambda>c. Inr (case c of None \<Rightarrow> [] | Some c \<Rightarrow> [c]))
                            | None \<Rightarrow> Inr []) (\<lambda>commands.
                  and_then result (\<lambda>commands'. Inr (commands @ commands'))), s1))
         | JoinResponse _ \<Rightarrow> (Inr [], s)
         | JoinAsRelocatedResponse _ \<Rightarrow>
             (Inr [], case (co_relocate_state s, sender) of
                        (Some (InProgress channel), Some addr) \<Rightarrow>
                          s\<lparr>co_forwarded := co_forwarded s @ [(channel, msg, addr)]\<rparr>
                      | _ \<Rightarrow> s))"

definition handle_useful_message ::
  "('c, 'a, 'd) kit \<Rightarrow> arrivals \<Rightarrow> socket_addr option \<Rightarrow> 'c routing_msg \<Rightarrow> dest_info
    \<Rightarrow> (('c, 'a, 'd) core, error, 'c command list) comp" where
  "handle_useful_message K ar sender msg dest_info =
     bind (aggregate_message K msg) (\<lambda>aggregated.
     case aggregated of
       None \<Rightarrow> ret []
     | Some msg \<Rightarrow> handle_useful_variant K ar sender msg dest_info)"

definition redirect_join ::
  "('c, 'a, 'd) kit \<Rightarrow> ('c, 'a, 'd) core \<Rightarrow> socket_addr option \<Rightarrow> 'c routing_msg \<Rightarrow> error + 'c command list" where
  "redirect_join K s sender msg =
     (let sender_name = src_name_of (kt_crypto K) (msg_src msg)
      in case sender of
           None \<Rightarrow> Inr []
         | Some sender_addr \<Rightarrow>
             let section_auth = (case network_closest (kt_xor K) (co_network s) sender_name of
                                   Some sap \<Rightarrow> sap
                                 | None \<Rightarrow> authority_provider (co_section s))
             in and_then (send_direct_message K s (sender_name, sender_addr) (JoinResponse (Redirect section_auth))
                           (section_key (kt_crypto K) section_auth)) (\<lambda>c. Inr [c]))"

definition handle_decided ::
  "('c, 'a, 'd) kit \<Rightarrow> arrivals \<Rightarrow> socket_addr option \<Rightarrow> 'c routing_msg \<Rightarrow> dest_info \<Rightarrow> message_status
    \<Rightarrow> (('c, 'a, 'd) core, error, 'c command list) comp" where
  "handle_decided K ar sender msg dest_info status =
     (case status of
        Useful \<Rightarrow>
          bind (check_for_entropy K (ar_clocks ar) msg dest_info) (\<lambda>(entropy_commands, shall_be_handled).
          if shall_be_handled
          then bind (handle_useful_message K ar sender msg dest_info) (\<lambda>commands. ret (entropy_commands @ commands))
          else if entropy_commands = [] then lift_result (\<lambda>s. redirect_join K s sender msg)
          else ret entropy_commands)
      | Untrusted \<Rightarrow>
          lift_result (\<lambda>s. and_then (handle_untrusted_message K s sender msg dest_info) (\<lambda>c. Inr [c]))
      | Useless \<Rightarrow> ret [])"

definition handle_message ::
  "('c, 'a, 'd) kit \<Rightarrow> arrivals \<Rightarrow> socket_addr option \<Rightarrow> 'c routing_msg \<Rightarrow> dest_info
    \<Rightarrow> (('c, 'a, 'd) core, error, 'c command list) comp" where
  "handle_message K ar sender msg dest_info s =
     (if \<not> dst_contains (kt_loc K) (msg_dst msg) (core_name K s) (sec_prefix (co_section s))
      then bind (relay_message K (ar_clocks ar) msg) (\<lambda>c. ret (case c of None \<Rightarrow> [] | Some c \<Rightarrow> [c])) s
      else bind (lift_result (\<lambda>s. decide_message_status K s msg)) (handle_decided K ar sender msg dest_info) s)"

end
