(* ===== verification/Core_Evolution.thy ===== *)
theory Core_Evolution
  imports Core_Handling
begin

text \<open>
  How the handlers change the state of a node. \<open>evolves go K s s'\<close> says that the section went
  through steps of the section's own state machine, that the invariants of the other components
  are kept, that the key generation went through calls of its own interface, that events are only
  added, and that the relocation state only moves forward, with one announcement; a relocation
  is started only where \<open>go\<close> allows it. The relation is a preorder, so it is shown for each
  handler from its parts; the rules are collected in \<open>evolving\<close>.
\<close>

section \<open>The relation\<close>

named_theorems evolving \<open>handlers under which the state of a node evolves\<close>

definition reloc_rank :: "'c relocate_state option \<Rightarrow> nat" where
  "reloc_rank st = (case st of None \<Rightarrow> 0 | Some (DelayedRelocation _) \<Rightarrow> 1 | Some (InProgress _) \<Rightarrow> 2)"

definition in_progress :: "('c, 'a, 'd) core \<Rightarrow> bool" where
  "in_progress s \<longleftrightarrow> reloc_rank (co_relocate_state s) = 2"

fun is_started :: "event \<Rightarrow> bool" where
  "is_started (RelocationStarted _) = True"
| "is_started _ = False"

fun is_relocated :: "event \<Rightarrow> bool" where
  "is_relocated (RelocatedEvent _ _) = True"
| "is_relocated _ = False"

definition relocation_moves :: "bool \<Rightarrow> ('c, 'a, 'd) core \<Rightarrow> ('c, 'a, 'd) core \<Rightarrow> bool" where
  "relocation_moves go s s' \<longleftrightarrow>
     reloc_rank (co_relocate_state s) \<le> reloc_rank (co_relocate_state s') \<and>
     (in_progress s' \<and> \<not> go \<longrightarrow> in_progress s) \<and>
     (\<exists>new. co_events s' = co_events s @ new \<and>
        length (filter is_started new) =
          (if co_relocate_state s = None \<and> co_relocate_state s' \<noteq> None then 1 else 0) \<and>
        filter is_relocated new = [] \<and> RestartRequired \<notin> set new)"

text \<open>The calls of the key generation by a node with the given key pair.\<close>

inductive dkg_step :: "'d dkg_ops \<Rightarrow> keypair \<Rightarrow> 'd \<Rightarrow> 'd \<Rightarrow> bool" for D keypair where
  dkg_starts: "dkg_step D keypair d (snd (dg_start D keypair key candidates d))"
| dkg_processes: "dkg_step D keypair d (snd (dg_process_message D keypair key message d))"
| dkg_fails: "dkg_step D keypair d (snd (dg_process_failure D key non_participants sg d))"
| dkg_times_out: "dkg_step D keypair d (snd (dg_handle_timeout D keypair token d))"

definition evolves :: "bool \<Rightarrow> ('c, 'a, 'd) kit \<Rightarrow> ('c, 'a, 'd) core \<Rightarrow> ('c, 'a, 'd) core \<Rightarrow> bool" where
  "evolves go K s s' \<longleftrightarrow>
     (section_step (kt_env K))\<^sup>*\<^sup>* (co_section s) (co_section s') \<and>
     co_node s' = co_node s \<and>
     (keys_inv (kt_crypto K) (co_section_keys_provider s) \<longrightarrow> keys_inv (kt_crypto K) (co_section_keys_provider s')) \<and>
     (barrier_inv (kt_xor K) (co_split_barrier s) \<longrightarrow> barrier_inv (kt_xor K) (co_split_barrier s')) \<and>
     (registry_inv (kt_env K) (co_end_users s) \<longrightarrow> registry_inv (kt_env K) (co_end_users s')) \<and>
     (network_signed (kt_crypto K) (co_network s) \<longrightarrow> network_signed (kt_crypto K) (co_network s')) \<and>
     (dkg_step (kt_dkg K) (nd_keypair (co_node s)))\<^sup>*\<^sup>* (co_dkg_voter s) (co_dkg_voter s') \<and>
     relocation_moves go s s'"

definition evolving_comp :: "bool \<Rightarrow> ('c, 'a, 'd) kit \<Rightarrow> (('c, 'a, 'd) core, 'e, 'r) comp \<Rightarrow> bool" where
  "evolving_comp go K m \<longleftrightarrow> (\<forall>s. evolves go K s (snd (m s)))"

lemma relocation_moves_refl: "relocation_moves go s s"
  by (auto simp: relocation_moves_def)

lemma reloc_rank_None: "reloc_rank st = 0 \<longleftrightarrow> st = None"
  by (auto simp: reloc_rank_def split: option.splits relocate_state.splits)

lemma relocation_moves_trans:
  assumes "relocation_moves go s s'" "relocation_moves go s' s''"
  shows "relocation_moves go s s''"
proof -
  obtain new new' where
    new: "co_events s' = co_events s @ new" "filter is_relocated new = []" "RestartRequired \<notin> set new"
      "length (filter is_started new) = (if co_relocate_state s = None \<and> co_relocate_state s' \<noteq> None then 1 else 0)" and
    new': "co_events s'' = co_events s' @ new'" "filter is_relocated new' = []" "RestartRequired \<notin> set new'"
      "length (filter is_started new') = (if co_relocate_state s' = None \<and> co_relocate_state s'' \<noteq> None then 1 else 0)"
    using assms unfolding relocation_moves_def by blast
  have rank: "reloc_rank (co_relocate_state s) \<le> reloc_rank (co_relocate_state s')"
    "reloc_rank (co_relocate_state s') \<le> reloc_rank (co_relocate_state s'')"
    using assms unfolding relocation_moves_def by blast+
  then have "co_relocate_state s'' = None \<longrightarrow> co_relocate_state s' = None"
    "co_relocate_state s' = None \<longrightarrow> co_relocate_state s = None"
    using reloc_rank_None by (metis le_zero_eq)+
  then show ?thesis
    using new new' rank assms unfolding relocation_moves_def
    by (intro conjI exI [of _ "new @ new'"]) auto
qed

lemma evolves_refl [simp]: "evolves go K s s"
  by (simp add: evolves_def relocation_moves_refl)

lemma evolves_trans: "evolves go K s s' \<Longrightarrow> evolves go K s' s'' \<Longrightarrow> evolves go K s s''"
  unfolding evolves_def using relocation_moves_trans by (metis (no_types, lifting) rtranclp_trans)

text \<open>Changes of the fields that none of it depends on.\<close>

lemma evolves_other_fields [simp]:
  "evolves go K s (s\<lparr>co_message_aggregator := a\<rparr>)" "evolves go K s (s\<lparr>co_proposal_aggregator := a\<rparr>)"
  "evolves go K s (s\<lparr>co_msg_filter := f\<rparr>)" "evolves go K s (s\<lparr>co_joins_allowed := b\<rparr>)"
  "evolves go K s (s\<lparr>co_forwarded := fw\<rparr>)"
  by (auto simp: evolves_def relocation_moves_def in_progress_def)

lemma evolves_send_event [simp]:
  "\<not> is_started e \<Longrightarrow> \<not> is_relocated e \<Longrightarrow> e \<noteq> RestartRequired \<Longrightarrow> evolves go K s (send_event e s)"
  by (auto simp: evolves_def relocation_moves_def in_progress_def send_event_def)

lemma evolves_section:
  "section_step (kt_env K) (co_section s) sec \<Longrightarrow> evolves go K s (s\<lparr>co_section := sec\<rparr>)"
  by (auto simp: evolves_def relocation_moves_def in_progress_def)

lemma evolves_network:
  "(network_signed (kt_crypto K) (co_network s) \<Longrightarrow> network_signed (kt_crypto K) n) \<Longrightarrow> evolves go K s (s\<lparr>co_network := n\<rparr>)"
  by (auto simp: evolves_def relocation_moves_def in_progress_def)

lemma evolves_update_section:
  "evolves go K s (s\<lparr>co_network := snd (network_update_section (kt_env K) (kt_pmap K) (co_network s) sa ks chain)\<rparr>)"
  by (rule evolves_network) (rule network_update_section_signed)

lemma evolves_dkg:
  "dkg_step (kt_dkg K) (nd_keypair (co_node s)) (co_dkg_voter s) d \<Longrightarrow> evolves go K s (s\<lparr>co_dkg_voter := d\<rparr>)"
  by (auto simp: evolves_def relocation_moves_def in_progress_def)

section \<open>Rules\<close>

lemma evolving_ret [evolving]: "evolving_comp go K (ret x)"
  by (simp add: evolving_comp_def ret_def)

lemma evolving_lift_result [evolving]: "evolving_comp go K (lift_result f)"
  by (simp add: evolving_comp_def lift_result_def)

lemma evolving_gets [evolving]: "evolving_comp go K (gets f)"
  by (simp add: evolving_comp_def gets_def)

lemma evolving_modify: "(\<And>s. evolves go K s (f s)) \<Longrightarrow> evolving_comp go K (modify f)"
  by (simp add: evolving_comp_def modify_def)

lemma evolving_bind [evolving]:
  "evolving_comp go K m \<Longrightarrow> (\<And>x. evolving_comp go K (f x)) \<Longrightarrow> evolving_comp go K (bind m f)"
  unfolding evolving_comp_def bind_def
  by (auto split: prod.splits sum.splits intro: evolves_trans dest: spec)

lemma evolving_if [evolving]:
  "(b \<Longrightarrow> evolving_comp go K m) \<Longrightarrow> (\<not> b \<Longrightarrow> evolving_comp go K m') \<Longrightarrow> evolving_comp go K (if b then m else m')"
  by simp

lemma evolving_option [evolving]:
  "evolving_comp go K m \<Longrightarrow> (\<And>x. evolving_comp go K (f x)) \<Longrightarrow> evolving_comp go K (case z of None \<Rightarrow> m | Some x \<Rightarrow> f x)"
  by (cases z) simp_all

lemma evolvingI: "(\<And>s. evolves go K s (snd (m s))) \<Longrightarrow> evolving_comp go K m"
  by (simp add: evolving_comp_def)

lemma evolvingD: "evolving_comp go K m \<Longrightarrow> evolves go K s (snd (m s))"
  by (simp add: evolving_comp_def)

section \<open>Relaying and key generation\<close>

lemma relay_message_evolves [evolving]: "evolving_comp go K (relay_message K ts msg)"
  by (rule evolvingI)
    (simp add: relay_message_def Let_def split_beta split: sum.splits option.splits prod.splits)

lemma relay_messages_evolves [evolving]: "evolving_comp go K (relay_messages K ts msgs)"
  by (induction msgs) (auto intro!: evolving)

lemma check_for_entropy_evolves [evolving]: "evolving_comp go K (check_for_entropy K ts msg di)"
proof (rule evolvingI)
  fix s
  have "evolves go K s (snd (bind (relay_messages K ts send) (\<lambda>commands. ret (commands, b)) s))" for send b
    by (rule evolvingD) (intro evolving)
  then show "evolves go K s (snd (check_for_entropy K ts msg di s))"
    by (auto simp: check_for_entropy_def split: sum.splits prod.splits)
qed

lemma dkg_handlers_evolve [evolving]:
  "evolving_comp go K (handle_dkg_start K key ec)" "evolving_comp go K (handle_dkg_message K key m)"
  "evolving_comp go K (handle_dkg_failure_observation K key np sg)" "evolving_comp go K (core_handle_timeout K token)"
  by (auto intro!: evolvingI evolves_dkg simp: handle_dkg_start_def handle_dkg_message_def handle_dkg_failure_observation_def
      core_handle_timeout_def split_beta Let_def intro: dkg_step.intros)

lemma aggregation_evolves [evolving]:
  "evolving_comp go K (aggregate_message K msg)" "evolving_comp go K (handle_proposal K p sh)"
  by (auto intro!: evolvingI simp: aggregate_message_def handle_proposal_def
      split: src_authority.splits option.splits prod.splits)

section \<open>Changes of the section\<close>

text \<open>What the handlers rely on: the laws of names, and that a queue is allocated with at least
  the capacity asked for.\<close>

definition kit_laws :: "('c, 'a, 'd) kit \<Rightarrow> bool" where
  "kit_laws K \<longleftrightarrow> xor_space (kt_xor K) \<and> (\<forall>n. n \<le> kt_alloc K n)"

lemma evolves_keys:
  "(keys_inv (kt_crypto K) (co_section_keys_provider s) \<Longrightarrow> keys_inv (kt_crypto K) kp) \<Longrightarrow>
    evolves go K s (s\<lparr>co_section_keys_provider := kp\<rparr>)"
  by (auto simp: evolves_def relocation_moves_def in_progress_def)

lemma evolves_barrier:
  "(barrier_inv (kt_xor K) (co_split_barrier s) \<Longrightarrow> barrier_inv (kt_xor K) b) \<Longrightarrow>
    evolves go K s (s\<lparr>co_split_barrier := b\<rparr>)"
  by (auto simp: evolves_def relocation_moves_def in_progress_def)

lemma keys_new_inv: "kit_laws K \<Longrightarrow> keys_inv cr (section_keys_new (kt_alloc K) cr KEY_CACHE_SIZE current)"
  by (rule section_keys_new_inv) (auto simp: kit_laws_def KEY_CACHE_SIZE_def)

lemma update_for_new_key_evolves [evolving]:
  assumes "kit_laws K"
  shows "evolving_comp go K (update_for_new_key K old new)"
proof -
  have demoted: "evolves go K s (s\<lparr>co_network := network_new,
      co_section_keys_provider := section_keys_new (kt_alloc K) (kt_crypto K) KEY_CACHE_SIZE None\<rparr>)" for s
    by (rule evolves_trans [OF evolves_network [where n = network_new]])
      (auto intro!: evolves_keys keys_new_inv [OF assms] simp: evolves_network)
  show ?thesis
    unfolding update_for_new_key_def Let_def
    by (intro evolving evolving_modify) (auto simp: demoted split: option.splits)
qed

lemma update_state_evolves [evolving]: "kit_laws K \<Longrightarrow> evolving_comp go K (update_state K old)"
  unfolding update_state_def by (intro evolving evolving_modify evolves_keys) auto

lemma handle_sync_evolves [evolving]:
  fixes K :: "('c, 'a, 'd) kit"
  assumes "kit_laws K"
  shows "evolving_comp go K (handle_sync K sec nw)"
proof (rule evolvingI)
  fix s :: "('c, 'a, 'd) core"
  note update = evolvingD [OF update_state_evolves [OF assms]]
  define sec1 where "sec1 = snd (section_merge (kt_env K) (co_section s) sec)"
  have merged: "evolves go K s (s\<lparr>co_section := sec1\<rparr>)"
    unfolding sec1_def by (rule evolves_section) (rule step_merge)
  define nw1 where "nw1 = network_merge (kt_env K) (kt_pmap K) (co_network s) nw (sec_chain sec1)"
  have "evolves go K (s\<lparr>co_section := sec1\<rparr>) (s\<lparr>co_section := sec1, co_network := nw1\<rparr>)"
    using evolves_network [of K "s\<lparr>co_section := sec1\<rparr>" nw1] by (simp add: nw1_def network_merge_signed)
  then have known: "evolves go K s (s\<lparr>co_section := sec1, co_network := nw1\<rparr>)" by (rule evolves_trans [OF merged])
  have announced: "evolves go K s (send_event (AdultsChanged x y z) (s\<lparr>co_section := sec1, co_network := nw1\<rparr>))" for x y z
    by (rule evolves_trans [OF known]) simp
  show "evolves go K s (snd (handle_sync K sec nw s))"
    unfolding handle_sync_def Let_def split_beta sec1_def [symmetric]
    using merged evolves_trans [OF known update] evolves_trans [OF announced update]
    by (auto simp flip: nw1_def split: sum.splits)
qed

lemma accept_online_evolves [evolving]: "evolving_comp go K (accept_online K info prev)"
proof (rule evolvingI)
  fix s
  have "evolves go K s (s\<lparr>co_section := snd (update_member (kt_env K) (co_section s) info)\<rparr>)"
    by (rule evolves_section) (rule step_update_member)
  then show "evolves go K s (snd (accept_online K info prev s))"
    unfolding accept_online_def Let_def split_beta by (auto intro: evolves_trans)
qed

lemma handle_online_agreement_evolves [evolving]: "evolving_comp go K (handle_online_agreement K info prev sg)"
  by (rule evolvingI)
    (auto simp: handle_online_agreement_def Let_def evolvingD [OF accept_online_evolves] split: option.splits)

lemma handle_offline_agreement_evolves [evolving]: "evolving_comp go K (handle_offline_agreement K info sg)"
proof (rule evolvingI)
  fix s
  have "evolves go K s (s\<lparr>co_section := snd (update_member (kt_env K) (co_section s) \<lparr>ss_value = info, ss_signed = sg\<rparr>)\<rparr>)"
    by (rule evolves_section) (rule step_update_member)
  then show "evolves go K s (snd (handle_offline_agreement K info sg s))"
    unfolding handle_offline_agreement_def Let_def split_beta by (auto intro: evolves_trans split: sum.splits)
qed

lemma handle_section_info_agreement_evolves [evolving]: "evolving_comp go K (handle_section_info_agreement K sa sg)"
  by (rule evolvingI) (auto simp: handle_section_info_agreement_def Let_def evolves_update_section)

lemma apply_elders_update_evolves: "evolves go K s (apply_elders_update K s u)"
  by (auto simp: apply_elders_update_def split_beta Let_def evolves_update_section intro: evolves_section step_update_elders)

lemma apply_elders_updates_evolve: "evolves go K s (foldl (apply_elders_update K) s us)"
proof (induction us arbitrary: s)
  case (Cons u us)
  then show ?case using evolves_trans [OF apply_elders_update_evolves Cons.IH] by simp
qed simp

lemma handle_our_elders_agreement_evolves [evolving]:
  fixes K :: "('c, 'a, 'd) kit"
  assumes "kit_laws K"
  shows "evolving_comp go K (handle_our_elders_agreement K sa sg)"
proof (rule evolvingI)
  fix s :: "('c, 'a, 'd) core"
  let ?p = "split_barrier_process (kt_xor K) (co_split_barrier s) (sec_prefix (co_section s)) sa sg"
  have "xor_space (kt_xor K)" using assms by (simp add: kit_laws_def)
  then have b: "evolves go K s (s\<lparr>co_split_barrier := snd ?p\<rparr>)"
    by (intro evolves_barrier xor_space.process_barrier_inv)
  note more = evolves_trans [OF evolves_trans [OF b apply_elders_updates_evolve] evolvingD [OF update_state_evolves [OF assms]]]
  show "evolves go K s (snd (handle_our_elders_agreement K sa sg s))"
    unfolding handle_our_elders_agreement_def Let_def split_beta using b more by simp
qed

lemma handle_agreement_evolves [evolving]:
  assumes "kit_laws K"
  shows "evolving_comp go K (handle_agreement K p sg)"
proof (rule evolvingI)
  fix s
  show "evolves go K s (snd (handle_agreement K p sg s))"
    by (cases p)
      (auto simp: handle_agreement_def evolvingD [OF handle_online_agreement_evolves]
        evolvingD [OF handle_offline_agreement_evolves] evolvingD [OF handle_section_info_agreement_evolves]
        evolvingD [OF handle_our_elders_agreement_evolves [OF assms]] split: option.splits)
qed

lemma handle_dkg_outcome_evolves [evolving]: "evolving_comp go K (handle_dkg_outcome K sa ks)"
proof (rule evolvingI)
  fix s
  have "evolves go K s (s\<lparr>co_section_keys_provider := insert_dkg_outcome (kt_crypto K) (co_section_keys_provider s) ks\<rparr>)"
    by (rule evolves_keys) simp
  moreover have "evolves go K s (s\<lparr>co_section_keys_provider :=
      finalise_dkg (insert_dkg_outcome (kt_crypto K) (co_section_keys_provider s) ks) k\<rparr>)" for k
    by (rule evolves_keys) simp
  ultimately show "evolves go K s (snd (handle_dkg_outcome K sa ks s))"
    by (simp add: handle_dkg_outcome_def Let_def)
qed

section \<open>Being relocated, and all messages\<close>

lemma handle_relocate_evolves [evolving]: "evolving_comp True K (handle_relocate K channel msg)"
  by (rule evolvingI)
    (auto simp: handle_relocate_def Let_def evolves_def relocation_moves_def in_progress_def send_event_def reloc_rank_def
      split: sum.splits option.splits relocate_state.splits)

lemma handle_relocate_promise_evolves [evolving]: "evolving_comp go K (handle_relocate_promise K promise msg)"
  by (rule evolvingI)
    (auto simp: handle_relocate_promise_def Let_def evolves_def relocation_moves_def in_progress_def send_event_def reloc_rank_def
      split: option.splits)

lemma handle_user_message_evolves [evolving]: "evolving_comp go K (handle_user_message K msg content)"
  by (rule evolvingI) (simp add: handle_user_message_def split: dst_location.splits option.splits sum.splits)

lemma update_section_knowledge_evolves [simp]: "evolves go K s (update_section_knowledge K sa chain s)"
  by (simp add: update_section_knowledge_def evolves_update_section)

lemma handle_useful_variant_evolves [evolving]:
  fixes K :: "('c, 'a, 'd) kit"
  assumes "kit_laws K"
  shows "evolving_comp True K (handle_useful_variant K ar sender msg di)"
proof (rule evolvingI)
  fix s :: "('c, 'a, 'd) core"
  have relocate: "evolves True K s (snd (bind (lift_result (\<lambda>_. signed_relocate_details_new msg)) (\<lambda>r.
      bind (handle_relocate K ch r) (\<lambda>c. ret (case c of None \<Rightarrow> [] | Some c \<Rightarrow> [c]))) s))" for ch
    by (rule evolvingD) (intro evolving)
  note more = evolvingD [OF handle_sync_evolves [OF assms]] evolvingD [OF handle_relocate_promise_evolves]
    evolvingD [OF handle_user_message_evolves] evolvingD [OF dkg_handlers_evolve(1)]
    evolvingD [OF dkg_handlers_evolve(2)] evolvingD [OF dkg_handlers_evolve(3)] evolvingD [OF aggregation_evolves(2)]
  show "evolves True K s (snd (handle_useful_variant K ar sender msg di s))"
    unfolding handle_useful_variant_def Let_def
    by (cases "msg_variant msg") (auto simp: relocate more split_beta split: option.splits relocate_state.splits)
qed

lemma handle_useful_message_evolves [evolving]:
  "kit_laws K \<Longrightarrow> evolving_comp True K (handle_useful_message K ar sender msg di)"
  unfolding handle_useful_message_def by (intro evolving)

lemma handle_decided_evolves [evolving]:
  "kit_laws K \<Longrightarrow> evolving_comp True K (handle_decided K ar sender msg di status)"
  unfolding handle_decided_def by (cases status) (auto simp: split_beta intro!: evolving)

lemma handle_message_evolves [evolving]:
  fixes K :: "('c, 'a, 'd) kit"
  assumes "kit_laws K"
  shows "evolving_comp True K (handle_message K ar sender msg di)"
proof (rule evolvingI)
  fix s :: "('c, 'a, 'd) core"
  have "evolving_comp True K (bind (relay_message K (ar_clocks ar) msg) (\<lambda>c. ret (case c of None \<Rightarrow> [] | Some c \<Rightarrow> [c])))"
    and "evolving_comp True K (bind (lift_result (\<lambda>s. decide_message_status K s msg)) (handle_decided K ar sender msg di))"
    by (intro evolving assms)+
  then show "evolves True K s (snd (handle_message K ar sender msg di s))"
    unfolding handle_message_def by (simp add: evolvingD)
qed

section \<open>The key generation of the sources\<close>

text \<open>In every state that the calls of a node lead to, the voter is well-formed. A call that does not return leaves it as
  it was.\<close>

lemma returned_inv:
  assumes "\<And>r v t. result = Some (r, v, t) \<Longrightarrow> voter_inv cr kp v" "voter_inv cr kp (ds_voter d)"
  shows "voter_inv cr kp (ds_voter (snd (returned result stuck d)))"
  using assms by (auto simp: returned_def split: option.split)

lemma source_dkg_step:
  assumes "dkg_step (source_dkg G cr alloc draws) kp d d'" "voter_inv cr kp (ds_voter d)"
  shows "voter_inv cr kp (ds_voter d')"
  using assms(1)
proof cases
  case (dkg_starts key ec)
  then show ?thesis
    using assms(2) voter_start_keeps [OF assms(2), of G "ds_draws d 0" key ec "ds_counter d"]
    by (auto simp: source_dkg_def intro!: returned_inv)
next
  case (dkg_processes key m)
  then show ?thesis
    using assms(2) voter_process_message_keeps [OF assms(2), of G key m "ds_counter d"] by (auto simp: source_dkg_def intro!: returned_inv)
next
  case (dkg_times_out token)
  then show ?thesis
    using assms(2) voter_handle_timeout_keeps [OF assms(2), of G token "ds_counter d"] by (auto simp: source_dkg_def intro!: returned_inv)
next
  case (dkg_fails key np sg)
  moreover obtain c v where "voter_process_failure cr key np sg (ds_voter d) = Some (c, v)" "voter_inv cr kp v"
    using voter_process_failure_keeps [OF assms(2)] by blast
  ultimately show ?thesis by (simp add: source_dkg_def returned_def)
qed

lemma source_dkg_steps:
  assumes "100 \<le> alloc 100"
    and "(dkg_step (source_dkg G cr alloc draws) kp)\<^sup>*\<^sup>* (dg_default (source_dkg G cr alloc draws)) d"
  shows "voter_inv cr kp (ds_voter d)"
  using assms(2)
proof (induction rule: rtranclp_induct)
  case base
  show ?case using voter_inv_default [of alloc] assms(1) by (simp add: source_dkg_def)
qed (rule source_dkg_step)

end
