(* ===== verification/Command_Flow.thy ===== *)
theory Command_Flow
  imports Core_Evolution
begin

text \<open>
  Which commands the handlers return. Only \<open>handle_relocate\<close> starts a relocation; the
  commands of everything else are \<open>quiet\<close>. The rules are collected in \<open>quietly\<close>.
\<close>

section \<open>Quiet results\<close>

named_theorems quietly \<open>functions that return no command to relocate\<close>

fun is_relocate :: "'c command \<Rightarrow> bool" where
  "is_relocate (RelocateCommand _ _ _) = True"
| "is_relocate _ = False"

definition no_relocate :: "'c command list \<Rightarrow> bool" where
  "no_relocate cs \<longleftrightarrow> list_all (\<lambda>c. \<not> is_relocate c) cs"

definition quiet :: "error + 'c command list \<Rightarrow> bool" where
  "quiet r \<longleftrightarrow> (\<forall>cs. r = Inr cs \<longrightarrow> no_relocate cs)"

definition quiet_one :: "error + 'c command \<Rightarrow> bool" where
  "quiet_one r \<longleftrightarrow> (\<forall>c. r = Inr c \<longrightarrow> \<not> is_relocate c)"

lemma no_relocate_simps [simp]:
  "no_relocate []" "no_relocate (c # cs) \<longleftrightarrow> \<not> is_relocate c \<and> no_relocate cs"
  "no_relocate (cs @ ds) \<longleftrightarrow> no_relocate cs \<and> no_relocate ds"
  by (auto simp: no_relocate_def)

lemma quiet_simps [simp]:
  "quiet (Inl e)" "quiet (Inr cs) \<longleftrightarrow> no_relocate cs" "quiet_one (Inl e)" "quiet_one (Inr c) \<longleftrightarrow> \<not> is_relocate c"
  by (auto simp: quiet_def quiet_one_def)

lemma quiet_and_then: "(\<And>x. m = Inr x \<Longrightarrow> quiet (f x)) \<Longrightarrow> quiet (and_then m f)"
  by (cases m) (simp_all add: and_then_def)

lemma quiet_one_and_then: "(\<And>x. m = Inr x \<Longrightarrow> quiet_one (f x)) \<Longrightarrow> quiet_one (and_then m f)"
  by (cases m) (simp_all add: and_then_def)

lemma quiet_InrD: "quiet r \<Longrightarrow> r = Inr cs \<Longrightarrow> no_relocate cs"
  by (simp add: quiet_def)

lemma quiet_one_InrD: "quiet_one r \<Longrightarrow> r = Inr c \<Longrightarrow> \<not> is_relocate c"
  by (simp add: quiet_one_def)

lemma quiet_singleton: "quiet_one m \<Longrightarrow> quiet (and_then m (\<lambda>c. Inr [c]))"
  by (cases m) (simp_all add: and_then_def)

lemmas quiet_rules = quiet_and_then quiet_one_and_then

section \<open>Messages\<close>

lemma send_message_quiet [simp]:
  "\<not> is_relocate (send_message_to_node r m di)" "\<not> is_relocate (send_message_to_nodes rs n m di)"
  "\<not> is_relocate (send_message_to_our_elders K s m)"
  by (simp_all add: send_message_to_node_def send_message_to_nodes_def send_message_to_our_elders_def Let_def)

lemma send_or_handle_quiet [simp]: "no_relocate (send_or_handle K s m rs)"
  by (simp add: send_or_handle_def Let_def)

lemma send_direct_message_quiet [quietly]: "quiet_one (send_direct_message K s r v k)"
  unfolding send_direct_message_def by (intro quiet_rules) simp

lemma proposals_quiet [quietly]:
  "quiet (send_proposal_with K s rs p ks)" "quiet (send_proposal K s rs p)" "quiet (propose K s p)"
proof -
  show w: "quiet (send_proposal_with K s rs p ks)" for rs p ks
    unfolding send_proposal_with_def by (intro quiet_rules) simp
  show proposal: "quiet (send_proposal K s rs p)" for rs p
    unfolding send_proposal_def by (intro quiet_rules w)
  show "quiet (propose K s p)" unfolding propose_def by (rule proposal)
qed

lemma accumulation_quiet [quietly]: "quiet (send_message_for_dst_accumulation K s src dst v rs)"
  unfolding send_message_for_dst_accumulation_def by (intro quiet_rules) simp

lemma relocation_messages_quiet [quietly]:
  "quiet (send_relocate K s p d)" "quiet (send_relocate_promise K s p pr)" "quiet (send_dkg_start_to K s ec rs)"
  by (simp_all add: send_relocate_def send_relocate_promise_def send_dkg_start_to_def Let_def accumulation_quiet)

lemma sync_quiet [quietly]:
  "quiet_one (send_sync_part K s v rs)" "quiet (send_sync K s sec nw)" "quiet (send_sync_to_adults K s)"
  "quiet_one (send_node_approval K s info)"
proof -
  show part: "quiet_one (send_sync_part K s v rs)" for v rs
    unfolding send_sync_part_def by (intro quiet_rules) simp
  show "quiet (send_sync K s sec nw)"
    unfolding send_sync_def Let_def split_beta by (intro quiet_rules) (simp add: quiet_one_InrD [OF part])
  show "quiet (send_sync_to_adults K s)"
    unfolding send_sync_to_adults_def Let_def by (intro quiet_rules) (simp add: quiet_one_InrD [OF part])
  show "quiet_one (send_node_approval K s info)"
    unfolding send_node_approval_def Let_def by (intro quiet_rules) simp
qed

lemma send_dkg_starts_quiet: "quiet (send_dkg_starts K s infos)"
proof (induction infos)
  case (Cons i infos)
  show ?case
    unfolding send_dkg_starts.simps
    by (intro quiet_rules)
      (simp add: quiet_InrD [OF Cons.IH] quiet_InrD [OF relocation_messages_quiet(3)] send_dkg_start_def)
qed simp

lemma promote_quiet [quietly]: "quiet (core_promote_and_demote_elders K s)"
  by (simp add: core_promote_and_demote_elders_def send_dkg_starts_quiet)

lemma joins_allowed_quiet [quietly]:
  "quiet (joins_allowed_proposal K s b)" "quiet (set_joins_allowed K s b)" "quiet (make_online_proposal K s p pn dk)"
proof -
  show j: "quiet (joins_allowed_proposal K s b)" for b
    unfolding joins_allowed_proposal_def Let_def by (intro quiet_rules proposals_quiet)
  show "quiet (set_joins_allowed K s b)" by (simp add: set_joins_allowed_def j)
  show "quiet (make_online_proposal K s p pn dk)" by (simp add: make_online_proposal_def proposals_quiet)
qed

lemma return_relocate_promise_quiet: "return_relocate_promise K s = Some c \<Longrightarrow> \<not> is_relocate c"
  by (auto simp: return_relocate_promise_def split: option.splits relocate_state.splits)

lemma check_lagging_quiet: "check_lagging K s p sh = Inr (Some c) \<Longrightarrow> \<not> is_relocate c"
  by (auto simp: check_lagging_def Let_def and_then_def split: if_splits sum.splits
      dest: quiet_one_InrD [OF send_direct_message_quiet])

lemma into_command_quiet: "into_command cr node key c = Inr c' \<Longrightarrow> \<not> is_relocate c'"
  by (auto simp: into_command_def Let_def and_then_def split: dkg_command.splits sum.splits)

lemma collect_quiet: "(\<And>x. quiet_one (f x)) \<Longrightarrow> quiet (collect_results (map f xs))"
proof (induction xs)
  case (Cons x xs)
  then show ?case by (fastforce simp: quiet_def quiet_one_def and_then_def split: sum.splits)
qed simp

lemma into_commands_quiet [quietly]:
  "quiet (into_commands cr node key cs)" "quiet (option_into_commands cr node key c)"
  unfolding into_commands_def option_into_commands_def
  by (intro collect_quiet; simp add: quiet_one_def into_command_quiet)+

section \<open>Handlers\<close>

text \<open>A computation that returns no command to relocate, whatever the state.\<close>

definition quiet_comp :: "(('c, 'a, 'd) core, error, 'c command list) comp \<Rightarrow> bool" where
  "quiet_comp m \<longleftrightarrow> (\<forall>s. quiet (fst (m s)))"

lemma quiet_comp_ret [quietly]: "no_relocate cs \<Longrightarrow> quiet_comp (ret cs)"
  by (simp add: quiet_comp_def ret_def)

lemma quiet_comp_lift [quietly]: "(\<And>s. quiet (f s)) \<Longrightarrow> quiet_comp (lift_result f)"
  by (simp add: quiet_comp_def lift_result_def)

lemma quiet_bind: "(\<And>s x s'. m s = (Inr x, s') \<Longrightarrow> quiet (fst (f x s'))) \<Longrightarrow> quiet_comp (bind m f)"
  unfolding quiet_comp_def bind_def by (auto split: prod.splits sum.splits)

lemma quiet_bind_any: "(\<And>x. quiet_comp (f x)) \<Longrightarrow> quiet_comp (bind m f)"
  by (rule quiet_bind) (simp add: quiet_comp_def)

lemma quiet_bind_list:
  assumes "quiet_comp m" "\<And>cs. no_relocate cs \<Longrightarrow> quiet_comp (f cs)"
  shows "quiet_comp (bind m f)"
proof (rule quiet_bind)
  fix s x s' assume "m s = (Inr x, s')"
  then have "no_relocate x" using assms(1) by (metis fst_conv quiet_InrD quiet_comp_def)
  then show "quiet (fst (f x s'))" using assms(2) by (simp add: quiet_comp_def)
qed

lemma quiet_compD: "quiet_comp m \<Longrightarrow> quiet (fst (m s))"
  by (simp add: quiet_comp_def)

lemma quiet_comp_Inr: "quiet_comp m \<Longrightarrow> m s = (Inr cs, s') \<Longrightarrow> no_relocate cs"
  by (metis fst_conv quiet_InrD quiet_comp_def)

lemma quiet_compI: "(\<And>s. quiet (fst (m s))) \<Longrightarrow> quiet_comp m"
  by (simp add: quiet_comp_def)

lemma relay_message_quiet: "relay_message K ts msg s = (Inr (Some c), s') \<Longrightarrow> \<not> is_relocate c"
  by (auto simp: relay_message_def Let_def split: sum.splits prod.splits option.splits if_splits)

lemma relay_messages_quiet: "quiet_comp (relay_messages K ts msgs)"
proof (induction msgs)
  case (Cons m msgs)
  show ?case
    unfolding relay_messages.simps
  proof (rule quiet_bind)
    fix s c s' assume c: "relay_message K ts m s = (Inr c, s')"
    have "quiet_comp (bind (relay_messages K ts msgs) (\<lambda>cs. ret ((case c of None \<Rightarrow> [] | Some c \<Rightarrow> [c]) @ cs)))"
      using relay_message_quiet [of K ts m s _ s'] c
      by (intro quiet_bind_list [OF Cons.IH] quiet_comp_ret) (auto split: option.splits)
    then show "quiet (fst (bind (relay_messages K ts msgs) (\<lambda>cs. ret ((case c of None \<Rightarrow> [] | Some c \<Rightarrow> [c]) @ cs)) s'))"
      by (rule quiet_compD)
  qed
qed (simp add: quiet_comp_ret)

lemma check_for_entropy_quiet: "check_for_entropy K ts msg di s = (Inr (cs, b), s') \<Longrightarrow> no_relocate cs"
  by (auto simp: check_for_entropy_def bind_def ret_def split: if_splits sum.splits prod.splits
      dest: quiet_comp_Inr [OF relay_messages_quiet])

lemma dkg_handlers_quiet [quietly]:
  "quiet_comp (handle_dkg_start K key ec)" "quiet_comp (handle_dkg_message K key m)"
  "quiet_comp (handle_dkg_failure_observation K key np sg)" "quiet_comp (core_handle_timeout K token)"
  by (auto intro!: quiet_compI into_commands_quiet simp: handle_dkg_start_def handle_dkg_message_def
      handle_dkg_failure_observation_def core_handle_timeout_def split_beta Let_def)

lemma section_knowledge_messages_quiet: "quiet (section_knowledge_messages K s)"
  unfolding section_knowledge_messages_def Let_def
  by (intro collect_quiet quiet_rules) simp

lemma update_for_new_key_quiet: "quiet_comp (update_for_new_key K old new)"
proof -
  have a: "quiet (elder_announcements K s)" for s
    unfolding elder_announcements_def
    by (intro quiet_rules)
      (auto simp: and_then_def quiet_InrD [OF section_knowledge_messages_quiet] split: if_splits sum.splits
        dest: quiet_InrD [OF promote_quiet] quiet_InrD [OF joins_allowed_quiet(1)])
  show ?thesis
    unfolding update_for_new_key_def Let_def
    by (intro quiet_bind_any quiet_bind_list) (auto intro!: quietly simp: a)
qed

lemma update_state_quiet [quietly]: "quiet_comp (update_state K old)"
proof -
  have "quiet_comp (bind (if \<not> e then gets (return_relocate_promise K) else ret None) (\<lambda>promise.
      ret (cs @ (case promise of None \<Rightarrow> [] | Some c \<Rightarrow> [c]))))" if "no_relocate cs" for cs e
    using that return_relocate_promise_quiet [of K]
    by (intro quiet_bind) (auto simp: gets_def ret_def split: if_splits option.splits)
  moreover have "quiet_comp (if b then update_for_new_key K old new else ret [])" for b new
    by (simp add: update_for_new_key_quiet quiet_comp_ret)
  ultimately show ?thesis
    unfolding update_state_def by (intro quiet_bind_any [where f = "\<lambda>new. bind _ (_ new)"] quiet_bind_any [where m = "modify _"] quiet_bind_list)
qed

lemma handle_sync_quiet [quietly]: "quiet_comp (handle_sync K sec nw)"
  by (rule quiet_compI)
    (auto simp: handle_sync_def Let_def split_beta quiet_compD [OF update_state_quiet] split: sum.splits)

lemma relocate_each_quiet: "quiet (relocate_each K s name rs)"
proof (induction rs)
  case (Cons r rs)
  obtain info action where r: "r = (info, action)" by (cases r)
  have "quiet (case action of Instant d \<Rightarrow> send_relocate K s (ns_peer info) d
      | Delayed p \<Rightarrow> send_relocate_promise K s (ns_peer info) p)"
    by (cases action) (auto intro: quietly)
  then show ?case
    unfolding r relocate_each.simps using Cons.IH
    by (auto intro!: quiet_rules dest: quiet_InrD [OF proposals_quiet(3)] quiet_InrD)
qed simp

lemma relocate_quiet [quietly]:
  "quiet (relocate_peers K s name sg)" "quiet (relocate_rejoining_peer K s p age)"
  by (simp_all add: relocate_peers_def relocate_rejoining_peer_def Let_def relocate_each_quiet relocation_messages_quiet)

lemma churn_reactions_quiet [quietly]: "quiet (churn_reactions K s name sg)"
  unfolding churn_reactions_def
  by (intro quiet_rules)
    (auto dest: quiet_InrD [OF relocate_quiet(1)] quiet_InrD [OF promote_quiet] quiet_InrD [OF sync_quiet(3)]
      split: if_splits)

lemma accept_online_quiet: "quiet_comp (accept_online K info prev)"
proof (rule quiet_compI)
  fix s
  have "quiet (and_then (churn_reactions K t n g) (\<lambda>c1. and_then (send_node_approval K t info) (\<lambda>c2. Inr (c1 @ [c2]))))"
    for t n g
    by (intro quiet_rules) (simp add: quiet_InrD [OF churn_reactions_quiet] quiet_one_InrD [OF sync_quiet(4)])
  then show "quiet (fst (accept_online K info prev s))"
    by (simp add: accept_online_def Let_def split_beta)
qed

lemma handle_online_agreement_quiet: "quiet_comp (handle_online_agreement K info prev sg)"
proof (rule quiet_compI)
  fix s
  have "quiet (and_then (send_node_approval K s old) (\<lambda>c1.
      and_then (relocate_rejoining_peer K s p age) (\<lambda>c2. Inr (c1 # c2))))" for old p age
    by (intro quiet_rules) (simp add: quiet_InrD [OF relocate_quiet(2)] quiet_one_InrD [OF sync_quiet(4)])
  then show "quiet (fst (handle_online_agreement K info prev sg s))"
    by (simp add: handle_online_agreement_def Let_def quiet_compD [OF accept_online_quiet] split: option.splits)
qed

lemma handle_offline_agreement_quiet: "quiet_comp (handle_offline_agreement K info sg)"
  by (rule quiet_compI)
    (auto simp: handle_offline_agreement_def Let_def split_beta quiet_InrD [OF churn_reactions_quiet] split: sum.splits)

lemma handle_section_info_agreement_quiet: "quiet_comp (handle_section_info_agreement K sa sg)"
  by (rule quiet_compI)
    (auto simp: handle_section_info_agreement_def Let_def and_then_def split: sum.splits
      dest: quiet_InrD [OF proposals_quiet(2)])

lemma handle_our_elders_agreement_quiet: "quiet_comp (handle_our_elders_agreement K sa sg)"
  by (rule quiet_compI)
    (auto simp: handle_our_elders_agreement_def Let_def split_beta quiet_compD [OF update_state_quiet])

lemma handle_agreement_quiet [quietly]: "quiet_comp (handle_agreement K p sg)"
proof (rule quiet_compI)
  fix s
  show "quiet (fst (handle_agreement K p sg s))"
    by (cases p)
      (auto simp: handle_agreement_def quiet_compD [OF handle_online_agreement_quiet]
        quiet_compD [OF handle_offline_agreement_quiet] quiet_compD [OF handle_section_info_agreement_quiet]
        quiet_compD [OF handle_our_elders_agreement_quiet] handle_accumulate_at_src_agreement_def and_then_def
        split: option.splits sum.splits)
qed

lemma handle_proposal_quiet [quietly]: "quiet_comp (handle_proposal K p sh)"
  by (rule quiet_compI)
    (auto simp: handle_proposal_def split: prod.splits sum.splits proposal_error.splits aggregator_error.splits)

lemma handle_dkg_results_quiet [quietly]:
  "quiet_comp (handle_dkg_outcome K sa ks)" "quiet_one (handle_dkg_failure K s signeds)"
  by (auto intro!: quiet_compI quiet_rules simp: handle_dkg_outcome_def Let_def proposals_quiet handle_dkg_failure_def)

lemma bad_messages_quiet [quietly]:
  "quiet_one (handle_untrusted_message K s sender msg di)"
  "quiet_one (handle_bounced_untrusted_message K s p key msg)"
  "quiet_one (handle_section_knowledge_query K s gk msg addr name dst)"
  by (auto intro!: quiet_rules simp: handle_untrusted_message_def handle_bounced_untrusted_message_def
      handle_section_knowledge_query_def Let_def split: option.splits)

lemma cast_each_quiet: "quiet (cast_each K s elders names)"
proof (induction names)
  case (Cons n ns)
  then show ?case
    by (auto intro!: quiet_rules split: option.splits sum.splits dest: quiet_InrD quiet_InrD [OF proposals_quiet(2)])
qed simp

lemma connectivity_quiet [quietly]:
  "quiet (cast_offline_proposals K s names)" "quiet (propose_offline K s name)" "quiet (handle_peer_lost K s addr)"
  "quiet (handle_connection_lost s addr)" "quiet (handle_dkg_failure_agreement K s sender signeds)"
proof -
  show c: "quiet (cast_offline_proposals K s names)" for names
    by (simp add: cast_offline_proposals_def Let_def cast_each_quiet)
  then show p: "quiet (propose_offline K s name)" for name by (simp add: propose_offline_def)
  show "quiet (handle_peer_lost K s addr)"
    by (auto simp: handle_peer_lost_def intro!: quiet_rules split: option.splits dest: quiet_InrD [OF p])
  show "quiet (handle_connection_lost s addr)" by (simp add: handle_connection_lost_def)
  show "quiet (handle_dkg_failure_agreement K s sender signeds)"
    unfolding handle_dkg_failure_agreement_def Let_def
    by (intro quiet_rules) (auto simp: c relocation_messages_quiet split: option.splits)
qed

lemma reply_quiet [quietly]: "quiet (reply K s peer v)"
  unfolding reply_def by (rule quiet_singleton) (rule send_direct_message_quiet)

lemma join_requests_quiet [quietly]:
  "quiet (handle_join_request K nonce s peer req)" "quiet (handle_join_as_relocated_request K s peer key payload)"
proof -
  have c: "quiet_one (send_resource_proof_challenge K nonce s peer)"
    unfolding send_resource_proof_challenge_def by (intro quiet_rules send_direct_message_quiet)
  show "quiet (handle_join_request K nonce s peer req)"
    by (simp add: handle_join_request_def Let_def reply_quiet quiet_singleton [OF c] split: option.splits)
  show "quiet (handle_join_as_relocated_request K s peer key payload)"
    by (auto simp: handle_join_as_relocated_request_def Let_def reply_quiet intro!: quiet_rules split: option.splits)
qed

lemma redirect_join_quiet: "quiet (redirect_join K s sender msg)"
  by (auto simp: redirect_join_def Let_def intro!: quiet_singleton send_direct_message_quiet split: option.splits)

lemma handle_user_message_quiet [quietly]: "quiet_comp (handle_user_message K msg content)"
  by (rule quiet_compI) (simp add: handle_user_message_def split: dst_location.splits option.splits sum.splits)

lemma handle_relocate_promise_quiet [quietly]: "quiet_comp (handle_relocate_promise K promise msg)"
  by (rule quiet_compI)
    (simp add: handle_relocate_promise_def Let_def relocation_messages_quiet split: option.splits)

lemma section_info_quiet: "no_relocate (handle_section_info_msg K s sender m di)"
  by (simp add: handle_section_info_msg_def Let_def split: section_info_msg.splits)

lemma send_user_message_quiet [quietly]: "quiet_comp (send_user_message K ts it content)"
proof (rule quiet_compI)
  fix s
  have "quiet (and_then (create_aggregate_at_src_proposal K s dst v None) (\<lambda>p. propose K s p))" for dst v
    by (intro quiet_rules proposals_quiet)
  moreover have "quiet (fst (bind (relay_message K ts msg) (\<lambda>c. ret (case c of None \<Rightarrow> [] | Some c \<Rightarrow> [c])) s))" for msg
    using relay_message_quiet [of K ts msg s]
    by (auto simp: bind_def ret_def split: prod.splits sum.splits option.splits)
  moreover have "quiet (fst (bind (relay_message K ts msg) (\<lambda>c. ret (d # (case c of None \<Rightarrow> [] | Some c \<Rightarrow> [c]))) s))"
    if "\<not> is_relocate d" for msg d
    using that relay_message_quiet [of K ts msg s]
    by (auto simp: bind_def ret_def split: prod.splits sum.splits option.splits)
  ultimately show "quiet (fst (send_user_message K ts it content s))"
    by (simp add: send_user_message_def Let_def split: src_location.splits option.splits sum.splits)
qed

section \<open>Who starts a relocation\<close>

text \<open>The number of relocations that a result starts is what the state says.\<close>

definition commands_of :: "error + 'c command list \<Rightarrow> 'c command list" where
  "commands_of r = (case r of Inl _ \<Rightarrow> [] | Inr cs \<Rightarrow> cs)"

definition relocations :: "'c command list \<Rightarrow> nat" where
  "relocations cs = length (filter is_relocate cs)"

definition accounted :: "('c, 'a, 'd) core \<Rightarrow> (error + 'c command list) \<times> ('c, 'a, 'd) core \<Rightarrow> bool" where
  "accounted s result \<longleftrightarrow>
     relocations (commands_of (fst result)) = (if in_progress (snd result) \<and> \<not> in_progress s then 1 else 0)"

lemma relocations_simps [simp]:
  "relocations [] = 0" "relocations (c # cs) = (if is_relocate c then 1 else 0) + relocations cs"
  "relocations (cs @ ds) = relocations cs + relocations ds"
  by (simp_all add: relocations_def)

lemma no_relocate_relocations: "no_relocate cs \<longleftrightarrow> relocations cs = 0"
  by (induction cs) auto

lemma quiet_relocations: "quiet r \<Longrightarrow> relocations (commands_of r) = 0"
  by (cases r) (simp_all add: commands_of_def no_relocate_relocations)

lemma accounted_quiet:
  assumes "quiet (fst result)" "evolves False K s (snd result)"
  shows "accounted s result"
  using assms quiet_relocations
  by (fastforce simp: accounted_def evolves_def relocation_moves_def)

lemma accounted_pure: "quiet r \<Longrightarrow> accounted s (r, s)"
  by (simp add: accounted_def quiet_relocations)

lemma handle_relocate_accounted:
  "handle_relocate K channel msg s = (r, s') \<Longrightarrow>
    accounted s (case r of Inl e \<Rightarrow> Inl e | Inr c \<Rightarrow> Inr (case c of None \<Rightarrow> [] | Some c \<Rightarrow> [c]), s')"
  by (auto simp: handle_relocate_def accounted_def commands_of_def in_progress_def reloc_rank_def Let_def send_event_def
      split: sum.splits if_splits option.splits relocate_state.splits)

lemma reloc_rank_le: "reloc_rank st \<le> 2"
  by (simp add: reloc_rank_def split: option.splits relocate_state.splits)

lemma evolves_in_progress: "evolves False K s s' \<Longrightarrow> in_progress s' = in_progress s"
  using reloc_rank_le [of "co_relocate_state s'"] by (auto simp: evolves_def relocation_moves_def in_progress_def)

lemma accounted_before: "evolves False K s s1 \<Longrightarrow> accounted s1 result \<Longrightarrow> accounted s result"
  by (simp add: accounted_def evolves_in_progress)

lemma accounted_comp: "quiet_comp m \<Longrightarrow> evolving_comp False K m \<Longrightarrow> accounted s (m s)"
  by (rule accounted_quiet [where K = K]) (simp_all add: quiet_compD evolvingD)

lemma accounted_bind:
  assumes "evolving_comp False K m" "\<And>x s1. m s = (Inr x, s1) \<Longrightarrow> accounted s1 (f x s1)"
  shows "accounted s (bind m f s)"
proof -
  obtain r s1 where m: "m s = (r, s1)" by (cases "m s")
  then have e: "evolves False K s s1" using evolvingD [OF assms(1), of s] by simp
  show ?thesis
  proof (cases r)
    case (Inl x)
    then show ?thesis using m by (simp add: bind_def accounted_def evolves_in_progress [OF e] commands_of_def)
  next
    case (Inr x)
    then show ?thesis using m assms(2) accounted_before [OF e] by (simp add: bind_def)
  qed
qed

lemma handle_proposal_and_check_accounted:
  "accounted s (let (result, s1) = handle_proposal K content sh s
     in (and_then (case sender of
             Some addr \<Rightarrow> and_then (check_lagging K s1 (name, addr) sh) (\<lambda>c. Inr (case c of None \<Rightarrow> [] | Some c \<Rightarrow> [c]))
           | None \<Rightarrow> Inr []) (\<lambda>commands. and_then result (\<lambda>commands'. Inr (commands @ commands'))), s1))"
proof (rule accounted_quiet [where K = K])
  have "quiet (fst (handle_proposal K content sh s))" by (rule quiet_compD) (rule handle_proposal_quiet)
  then show "quiet (fst (let (result, s1) = handle_proposal K content sh s
     in (and_then (case sender of
             Some addr \<Rightarrow> and_then (check_lagging K s1 (name, addr) sh) (\<lambda>c. Inr (case c of None \<Rightarrow> [] | Some c \<Rightarrow> [c]))
           | None \<Rightarrow> Inr []) (\<lambda>commands. and_then result (\<lambda>commands'. Inr (commands @ commands'))), s1)))"
    by (auto simp: Let_def split_beta intro!: quiet_rules split: option.splits
        dest: quiet_InrD check_lagging_quiet simp: and_then_def split: sum.splits)
  show "evolves False K s (snd (let (result, s1) = handle_proposal K content sh s
     in (and_then (case sender of
             Some addr \<Rightarrow> and_then (check_lagging K s1 (name, addr) sh) (\<lambda>c. Inr (case c of None \<Rightarrow> [] | Some c \<Rightarrow> [c]))
           | None \<Rightarrow> Inr []) (\<lambda>commands. and_then result (\<lambda>commands'. Inr (commands @ commands'))), s1)))"
    using evolvingD [OF aggregation_evolves(2)] by (simp add: Let_def split_beta)
qed

lemma handle_useful_variant_accounted:
  assumes "kit_laws K"
  shows "accounted s (handle_useful_variant K ar sender msg di s)"
proof -
  have relocate: "accounted s (bind (lift_result (\<lambda>_. signed_relocate_details_new msg)) (\<lambda>r.
      bind (handle_relocate K ch r) (\<lambda>c. ret (case c of None \<Rightarrow> [] | Some c \<Rightarrow> [c]))) s)" for ch
  proof (rule accounted_bind [where K = K])
    fix r s1
    show "accounted s1 (bind (handle_relocate K ch r) (\<lambda>c. ret (case c of None \<Rightarrow> [] | Some c \<Rightarrow> [c])) s1)"
      using handle_relocate_accounted [of K ch r s1]
      by (cases "handle_relocate K ch r s1") (auto simp: bind_def ret_def split: sum.splits)
  qed (intro evolving)
  have forward: "accounted s (Inr [], s\<lparr>co_forwarded := fw\<rparr>)" for fw
    by (rule accounted_quiet [where K = K]) simp_all
  have knowledge: "accounted s (Inr (case m of None \<Rightarrow> [] | Some m \<Rightarrow> [HandleMessage sender m di]),
      update_section_knowledge K sa chain s)" for m sa chain
    by (rule accounted_quiet [where K = K]) (simp_all split: option.splits)
  note comps = accounted_comp [OF handle_sync_quiet handle_sync_evolves [OF assms]]
    accounted_comp [OF handle_relocate_promise_quiet handle_relocate_promise_evolves]
    accounted_comp [OF handle_user_message_quiet handle_user_message_evolves]
    accounted_comp [OF dkg_handlers_quiet(1) dkg_handlers_evolve(1)]
    accounted_comp [OF dkg_handlers_quiet(2) dkg_handlers_evolve(2)]
    accounted_comp [OF dkg_handlers_quiet(3) dkg_handlers_evolve(3)]
  show ?thesis
    unfolding handle_useful_variant_def Let_def
    by (cases "msg_variant msg")
      (auto simp: relocate forward knowledge comps handle_proposal_and_check_accounted [unfolded Let_def]
        intro!: accounted_pure quiet_rules quiet_singleton quietly split: option.splits relocate_state.splits)
qed

lemma handle_useful_message_accounted:
  assumes "kit_laws K"
  shows "accounted s (handle_useful_message K ar sender msg di s)"
  unfolding handle_useful_message_def
proof (rule accounted_bind [where K = K])
  fix m s1
  show "accounted s1 ((case m of None \<Rightarrow> ret [] | Some msg \<Rightarrow> handle_useful_variant K ar sender msg di) s1)"
    using handle_useful_variant_accounted [OF assms]
    by (cases m) (simp_all add: ret_def accounted_def commands_of_def)
qed (rule aggregation_evolves)

lemma accounted_prepend:
  assumes "accounted s (m s)" "no_relocate cs"
  shows "accounted s (bind m (\<lambda>ds. ret (cs @ ds)) s)"
  using assms
  by (cases "m s") (auto simp: bind_def ret_def accounted_def commands_of_def no_relocate_relocations
      split: sum.splits if_splits)

lemma handle_decided_accounted:
  assumes "kit_laws K"
  shows "accounted s (handle_decided K ar sender msg di status s)"
proof (cases status)
  case Useful
  show ?thesis
    unfolding Useful handle_decided_def message_status.case
  proof (rule accounted_bind [where K = K])
    fix x s1 assume x: "check_for_entropy K (ar_clocks ar) msg di s = (Inr x, s1)"
    obtain cs b where cs: "x = (cs, b)" by (cases x)
    have "no_relocate cs" using check_for_entropy_quiet x cs by blast
    then show "accounted s1 ((case x of (entropy_commands, shall_be_handled) \<Rightarrow>
        if shall_be_handled
        then bind (handle_useful_message K ar sender msg di) (\<lambda>commands. ret (entropy_commands @ commands))
        else if entropy_commands = [] then lift_result (\<lambda>s. redirect_join K s sender msg) else ret entropy_commands) s1)"
      using accounted_prepend [where m = "handle_useful_message K ar sender msg di" and s = s1 and cs = cs,
          OF handle_useful_message_accounted [OF assms]]
      by (simp add: cs lift_result_def ret_def accounted_pure redirect_join_quiet)
  qed (rule check_for_entropy_evolves)
next
  case Untrusted
  show ?thesis
    unfolding Untrusted handle_decided_def message_status.case lift_result_def
    by (intro accounted_pure quiet_singleton bad_messages_quiet)
next
  case Useless
  show ?thesis by (simp add: Useless handle_decided_def ret_def accounted_def commands_of_def)
qed

lemma handle_message_accounted:
  assumes "kit_laws K"
  shows "accounted s (handle_message K ar sender msg di s)"
proof -
  have "quiet_comp (bind (relay_message K (ar_clocks ar) msg) (\<lambda>c. ret (case c of None \<Rightarrow> [] | Some c \<Rightarrow> [c])))"
    using relay_message_quiet [of K "ar_clocks ar" msg] by (intro quiet_bind) (auto simp: ret_def split: option.splits)
  then have relay: "accounted s (bind (relay_message K (ar_clocks ar) msg) (\<lambda>c. ret (case c of None \<Rightarrow> [] | Some c \<Rightarrow> [c])) s)"
    by (rule accounted_comp [where K = K]) (intro evolving)
  moreover have "accounted s (bind (lift_result (\<lambda>s. decide_message_status K s msg)) (handle_decided K ar sender msg di) s)"
    by (rule accounted_bind [where K = K]) (intro evolving handle_decided_accounted assms)+
  ultimately show ?thesis by (simp add: handle_message_def)
qed

end
