(* ===== verification/Comm_Send.thy ===== *)
theory Comm_Send
  imports Commands
begin

text \<open>
  Sending to several recipients: \<open>src/routing/comm.rs\<close>. The transport \<open>qp2p\<close> and the
  wire format of \<open>sn_messaging\<close> are parameters. The concurrent sends of \<open>Comm::send\<close>
  complete in any order: the argument \<open>completions\<close> tells for each completion which of
  the running sends it is and how it ended.
\<close>

section \<open>Definitions\<close>

text \<open>\<open>wo_header\<close> gives the identifier of a \<open>WireMsg\<close> and whether it is a join
  request.\<close>

record 'c wire_ops =
  wo_update_dest :: "'c message_type \<Rightarrow> xor_name \<Rightarrow> 'c message_type"
  wo_serialize :: "'c message_type \<Rightarrow> nat + bytes"
  wo_header :: "bytes \<Rightarrow> nat + message_id \<times> bool"
  wo_to_message :: "bytes \<Rightarrow> nat + 'c message_type"

datatype transport_error = LocallyClosed | OtherTransportError nat

type_synonym completion = "nat \<times> (transport_error + unit)"

datatype connection_event =
    Received socket_addr bytes
  | Disconnected socket_addr

datatype send_status =
    AllRecipients
  | MinDeliveryGroupSizeReached "socket_addr list"
  | MinDeliveryGroupSizeFailed "socket_addr list"

text \<open>The closure \<open>send\<close>.\<close>

definition send_result :: "transport_error + unit \<Rightarrow> error + unit" where
  "send_result r = map_err (\<lambda>err. case err of LocallyClosed \<Rightarrow> ConnectionClosed | _ \<Rightarrow> AddressNotReachable) r"

record send_state =
  st_tasks :: "(xor_name \<times> socket_addr) list"
  st_next :: nat
  st_successes :: nat
  st_failed :: "socket_addr list"

definition remove_nth :: "nat \<Rightarrow> 'a list \<Rightarrow> 'a list" where
  "remove_nth i xs = take i xs @ drop (Suc i) xs"

lemma length_remove_nth: "i < length xs \<Longrightarrow> length (remove_nth i xs) = length xs - 1"
  by (simp add: remove_nth_def)

function send_loop ::
  "(xor_name \<times> socket_addr) list \<Rightarrow> (nat \<Rightarrow> completion) \<Rightarrow> send_state \<Rightarrow> error + send_state" where
  "send_loop recipients completions st =
     (if st_tasks st = [] then Inr st
      else let (k, r) = completions 0;
               i = k mod length (st_tasks st);
               addr = snd (st_tasks st ! i);
               tasks = remove_nth i (st_tasks st)
           in case send_result r of
                Inr _ \<Rightarrow>
                  send_loop recipients (\<lambda>n. completions (Suc n))
                    (st\<lparr>st_tasks := tasks, st_successes := st_successes st + 1\<rparr>)
              | Inl ConnectionClosed \<Rightarrow> Inl ConnectionClosed
              | Inl _ \<Rightarrow>
                  if st_next st < length recipients
                  then send_loop recipients (\<lambda>n. completions (Suc n))
                         (st\<lparr>st_tasks := tasks @ [recipients ! st_next st], st_next := st_next st + 1,
                             st_failed := st_failed st @ [addr]\<rparr>)
                  else send_loop recipients (\<lambda>n. completions (Suc n))
                         (st\<lparr>st_tasks := tasks, st_failed := st_failed st @ [addr]\<rparr>))"
  by pat_completeness auto
termination
  by (relation "measure (\<lambda>(recipients, _, st). 2 * (length recipients - st_next st) + length (st_tasks st))")
    (auto simp: length_remove_nth)

declare send_loop.simps [simp del]

definition send_status_of :: "nat \<Rightarrow> send_state \<Rightarrow> send_status" where
  "send_status_of delivery_group_size st =
     (if st_successes st = delivery_group_size
      then (if st_failed st = [] then AllRecipients else MinDeliveryGroupSizeReached (st_failed st))
      else MinDeliveryGroupSizeFailed (st_failed st))"

definition comm_send ::
  "'c wire_ops \<Rightarrow> (nat \<Rightarrow> completion) \<Rightarrow> (xor_name \<times> socket_addr) list \<Rightarrow> nat \<Rightarrow> 'c message_type \<Rightarrow> error + send_status" where
  "comm_send W completions recipients delivery_group_size msg =
     (let delivery_group_size = min delivery_group_size (length recipients)
      in if recipients = [] then Inl EmptyRecipientList
         else let msg = wo_update_dest W msg (fst (recipients ! 0))
              in and_then (map_err Messaging (wo_serialize W msg)) (\<lambda>_.
                 and_then (send_loop recipients completions
                             \<lparr>st_tasks = take delivery_group_size recipients, st_next = delivery_group_size,
                              st_successes = 0, st_failed = []\<rparr>) (\<lambda>st.
                 Inr (send_status_of delivery_group_size st))))"

definition send_on_existing_connection ::
  "'c wire_ops \<Rightarrow> transport_error + unit \<Rightarrow> xor_name \<times> socket_addr \<Rightarrow> 'c message_type \<Rightarrow> error + unit" where
  "send_on_existing_connection W outcome recipient msg =
     (let msg = wo_update_dest W msg (fst recipient)
      in and_then (map_err Messaging (wo_serialize W msg)) (\<lambda>_.
         map_err (\<lambda>_. FailedSend (snd recipient) (fst recipient)) outcome))"

section \<open>The loop\<close>

text \<open>With \<open>g\<close> sends to complete: the recipients tried so far are the first \<open>st_next\<close>
  ones, each of which is running, done or failed, and a further one was started for each
  failure while there were any.\<close>

definition send_inv :: "(xor_name \<times> socket_addr) list \<Rightarrow> nat \<Rightarrow> send_state \<Rightarrow> bool" where
  "send_inv recipients g st \<longleftrightarrow>
     st_next st = min (length recipients) (g + length (st_failed st)) \<and>
     st_next st = st_successes st + length (st_failed st) + length (st_tasks st) \<and>
     mset (st_failed st) + mset (map snd (st_tasks st)) \<subseteq># mset (map snd (take (st_next st) recipients))"

text \<open>How many of the first completions are failures.\<close>

definition failures :: "(nat \<Rightarrow> completion) \<Rightarrow> nat \<Rightarrow> nat" where
  "failures completions n = length (filter (\<lambda>i. snd (completions i) \<noteq> Inr ()) [0..<n])"

lemma failures_Suc: "failures c (Suc n) = (if snd (c 0) \<noteq> Inr () then 1 else 0) + failures (\<lambda>n. c (Suc n)) n"
proof -
  have "[0..<Suc n] = 0 # map Suc [0..<n]" by (simp add: map_Suc_upt upt_conv_Cons del: upt_Suc)
  then show ?thesis by (simp add: failures_def filter_map o_def)
qed

lemma mset_map_remove_nth:
  assumes "i < length xs"
  shows "mset (map f xs) = add_mset (f (xs ! i)) (mset (map f (remove_nth i xs)))"
  by (subst id_take_nth_drop [OF assms]) (simp add: remove_nth_def)

lemma send_result_cases:
  "send_result r = Inr () \<longleftrightarrow> r = Inr ()"
  "send_result r = Inl e \<longleftrightarrow> (\<exists>t. r = Inl t \<and> e = (if t = LocallyClosed then ConnectionClosed else AddressNotReachable))"
  by (auto simp: send_result_def map_err_def split: sum.splits transport_error.splits)

text \<open>One completion: the send at index \<open>i\<close> is done or has failed.\<close>

definition succeeded :: "nat \<Rightarrow> send_state \<Rightarrow> send_state" where
  "succeeded i st = st\<lparr>st_tasks := remove_nth i (st_tasks st), st_successes := st_successes st + 1\<rparr>"

definition failed_over :: "(xor_name \<times> socket_addr) list \<Rightarrow> nat \<Rightarrow> send_state \<Rightarrow> send_state" where
  "failed_over rs i st =
     (if st_next st < length rs
      then st\<lparr>st_tasks := remove_nth i (st_tasks st) @ [rs ! st_next st], st_next := st_next st + 1,
              st_failed := st_failed st @ [snd (st_tasks st ! i)]\<rparr>
      else st\<lparr>st_tasks := remove_nth i (st_tasks st), st_failed := st_failed st @ [snd (st_tasks st ! i)]\<rparr>)"

lemma send_loop_unfold:
  "send_loop rs c st =
     (if st_tasks st = [] then Inr st
      else case snd (c 0) of
             Inr _ \<Rightarrow> send_loop rs (\<lambda>n. c (Suc n)) (succeeded (fst (c 0) mod length (st_tasks st)) st)
           | Inl LocallyClosed \<Rightarrow> Inl ConnectionClosed
           | Inl _ \<Rightarrow> send_loop rs (\<lambda>n. c (Suc n)) (failed_over rs (fst (c 0) mod length (st_tasks st)) st))"
  by (subst send_loop.simps)
    (auto simp: Let_def split_beta succeeded_def failed_over_def send_result_def map_err_def
      split: sum.splits transport_error.splits)

lemma send_inv_succeeded:
  assumes "send_inv rs g st" "i < length (st_tasks st)"
  shows "send_inv rs g (succeeded i st)"
proof -
  have "mset (map snd (remove_nth i (st_tasks st))) \<subseteq># mset (map snd (st_tasks st))"
    using mset_map_remove_nth [OF assms(2), of snd] by simp
  then have "mset (st_failed st) + mset (map snd (remove_nth i (st_tasks st))) \<subseteq>#
      mset (map snd (take (st_next st) rs))"
    using assms(1) by (meson send_inv_def subset_mset.add_left_mono subset_mset.order_trans)
  then show ?thesis using assms by (auto simp: send_inv_def succeeded_def length_remove_nth)
qed

lemma send_inv_failed_over:
  assumes "send_inv rs g st" "i < length (st_tasks st)"
  shows "send_inv rs g (failed_over rs i st)"
proof -
  have sub0: "mset (st_failed st) + mset (map snd (st_tasks st)) \<subseteq># mset (map snd (take (st_next st) rs))"
    using assms(1) unfolding send_inv_def by blast
  have same: "mset (st_failed st @ [snd (st_tasks st ! i)]) + mset (map snd (remove_nth i (st_tasks st))) =
      mset (st_failed st) + mset (map snd (st_tasks st))"
    using mset_map_remove_nth [OF assms(2), of snd] by simp
  show ?thesis
  proof (cases "st_next st < length rs")
    case True
    let ?tasks = "remove_nth i (st_tasks st) @ [rs ! st_next st]"
    have "mset (st_failed st @ [snd (st_tasks st ! i)]) + mset (map snd ?tasks) =
        add_mset (snd (rs ! st_next st)) (mset (st_failed st) + mset (map snd (st_tasks st)))"
      using same by simp
    moreover have "mset (map snd (take (Suc (st_next st)) rs)) =
        add_mset (snd (rs ! st_next st)) (mset (map snd (take (st_next st) rs)))"
      using True by (simp add: take_Suc_conv_app_nth)
    ultimately have sub: "mset (st_failed st @ [snd (st_tasks st ! i)]) + mset (map snd ?tasks) \<subseteq>#
        mset (map snd (take (Suc (st_next st)) rs))"
      using sub0 by (simp only: mset_subset_eq_add_mset_cancel)
    have "length ?tasks = length (st_tasks st)" using assms(2) by (simp add: length_remove_nth)
    then show ?thesis
      using assms sub True unfolding send_inv_def failed_over_def by (simp del: mset_append map_append mset_map)
  next
    case False
    have "mset (st_failed st @ [snd (st_tasks st ! i)]) + mset (map snd (remove_nth i (st_tasks st))) \<subseteq>#
        mset (map snd (take (st_next st) rs))"
      using sub0 by (simp only: same)
    then show ?thesis
      using assms False length_remove_nth [OF assms(2)] unfolding send_inv_def failed_over_def
      by (auto simp del: mset_append map_append mset_map)
  qed
qed

text \<open>The number of sends that are over.\<close>

definition st_done :: "send_state \<Rightarrow> nat" where
  "st_done st = st_successes st + length (st_failed st)"

lemma st_done_step:
  "st_done (succeeded i st) = Suc (st_done st)" "st_done (failed_over rs i st) = Suc (st_done st)"
  "length (st_failed (succeeded i st)) = length (st_failed st)"
  "length (st_failed (failed_over rs i st)) = Suc (length (st_failed st))"
  by (simp_all add: st_done_def succeeded_def failed_over_def)

definition loop_spec ::
  "(xor_name \<times> socket_addr) list \<Rightarrow> nat \<Rightarrow> (nat \<Rightarrow> completion) \<Rightarrow> send_state \<Rightarrow> error + send_state \<Rightarrow> bool" where
  "loop_spec rs g c st result \<longleftrightarrow>
     (case result of
        Inr st' \<Rightarrow> send_inv rs g st' \<and> st_tasks st' = [] \<and> st_done st \<le> st_done st' \<and>
          length (st_failed st') = length (st_failed st) + failures c (st_done st' - st_done st) \<and>
          (\<forall>i < st_done st' - st_done st. snd (c i) \<noteq> Inl LocallyClosed)
      | Inl e \<Rightarrow> e = ConnectionClosed \<and> (\<exists>i < length rs - st_done st. snd (c i) = Inl LocallyClosed))"

lemma loop_spec_step:
  assumes "loop_spec rs g (\<lambda>n. c (Suc n)) st1 result" "st_done st1 = Suc (st_done st)"
    and "length (st_failed st1) = length (st_failed st) + (if snd (c 0) \<noteq> Inr () then 1 else 0)"
    and "snd (c 0) \<noteq> Inl LocallyClosed"
  shows "loop_spec rs g c st result"
proof (cases result)
  case (Inl e)
  then obtain i where "e = ConnectionClosed" "i < length rs - Suc (st_done st)" "snd (c (Suc i)) = Inl LocallyClosed"
    using assms(1,2) by (auto simp: loop_spec_def)
  then have "e = ConnectionClosed \<and> Suc i < length rs - st_done st \<and> snd (c (Suc i)) = Inl LocallyClosed" by simp
  then show ?thesis unfolding loop_spec_def Inl by auto
next
  case (Inr st')
  then have d: "st_done st' - st_done st = Suc (st_done st' - st_done st1)" "st_done st \<le> st_done st'"
    using assms(1,2) by (auto simp: loop_spec_def)
  have "snd (c i) \<noteq> Inl LocallyClosed" if "i < Suc (st_done st' - st_done st1)" for i
    using that assms(1,4) Inr by (cases i) (auto simp: loop_spec_def)
  then show ?thesis using assms(1,3) Inr d by (auto simp: loop_spec_def failures_Suc)
qed

lemma send_loop_spec: "send_inv rs g st \<Longrightarrow> loop_spec rs g c st (send_loop rs c st)"
proof (induction "2 * (length rs - st_next st) + length (st_tasks st)" arbitrary: c st rule: less_induct)
  case less
  show ?case
  proof (cases "st_tasks st = []")
    case True
    then show ?thesis using less.prems by (simp add: send_loop_unfold [of rs c st] loop_spec_def failures_def)
  next
    case False
    define i where "i = fst (c 0) mod length (st_tasks st)"
    have i: "i < length (st_tasks st)" using False by (simp add: i_def)
    note step = loop_spec_step [where st = st and c = c]
    consider u where "snd (c 0) = Inr u" | "snd (c 0) = Inl LocallyClosed" | n where "snd (c 0) = Inl (OtherTransportError n)"
      by (metis sum.exhaust transport_error.exhaust)
    then show ?thesis
    proof cases
      case 1
      have "loop_spec rs g (\<lambda>n. c (Suc n)) (succeeded i st) (send_loop rs (\<lambda>n. c (Suc n)) (succeeded i st))"
        using i False by (intro less.hyps send_inv_succeeded less.prems) (auto simp: succeeded_def length_remove_nth)
      then show ?thesis
        using 1 False step by (simp add: send_loop_unfold [of rs c st] i_def [symmetric] st_done_step)
    next
      case 2
      have "st_done st < length rs"
        using less.prems False by (cases "st_tasks st") (auto simp: send_inv_def st_done_def)
      then have "\<exists>i < length rs - st_done st. snd (c i) = Inl LocallyClosed" using 2 by (intro exI [of _ 0]) simp
      then show ?thesis using 2 False by (simp add: send_loop_unfold [of rs c st] loop_spec_def)
    next
      case 3
      have "loop_spec rs g (\<lambda>n. c (Suc n)) (failed_over rs i st) (send_loop rs (\<lambda>n. c (Suc n)) (failed_over rs i st))"
        using i False by (intro less.hyps send_inv_failed_over less.prems) (auto simp: failed_over_def length_remove_nth)
      then show ?thesis
        using 3 False step by (simp add: send_loop_unfold [of rs c st] i_def [symmetric] st_done_step)
    qed
  qed
qed

section \<open>The log of the sends\<close>

text \<open>The recipients in the order in which the sends to them end, each with its outcome: those in \<open>running\<close> are being
  sent to, and one of \<open>spare\<close> takes the place of each that fails. A connection that was closed by us ends it.\<close>

function send_log ::
  "(xor_name \<times> socket_addr) list \<Rightarrow> (xor_name \<times> socket_addr) list \<Rightarrow> (nat \<Rightarrow> completion)
    \<Rightarrow> ((xor_name \<times> socket_addr) \<times> (transport_error + unit)) list" where
  "send_log spare running c =
     (if running = [] then []
      else let i = fst (c 0) mod length running; rest = remove_nth i running
           in (running ! i, snd (c 0)) #
              (case snd (c 0) of
                 Inr _ \<Rightarrow> send_log spare rest (\<lambda>n. c (Suc n))
               | Inl LocallyClosed \<Rightarrow> []
               | Inl _ \<Rightarrow> send_log (tl spare) (rest @ take 1 spare) (\<lambda>n. c (Suc n))))"
  by pat_completeness auto
termination
proof (relation "measure (\<lambda>(spare, running, _). 2 * length spare + length running)")
  show "((tl spare, rest @ take 1 spare, \<lambda>n. c (Suc n)), spare, running, c) \<in> measure (\<lambda>(spare, running, _). 2 * length spare + length running)"
    if "running \<noteq> []" "i = fst (c 0) mod length running" "rest = remove_nth i running"
    for spare running :: "(xor_name \<times> socket_addr) list" and c :: "nat \<Rightarrow> completion" and i rest
    using that length_remove_nth [of i running] by (cases spare) auto
qed (auto simp: length_remove_nth)

declare send_log.simps [simp del]

definition log_failed :: "((xor_name \<times> socket_addr) \<times> (transport_error + unit)) list \<Rightarrow> socket_addr list" where
  "log_failed entries = map (\<lambda>e. snd (fst e)) (filter (\<lambda>e. snd e \<noteq> Inr ()) entries)"

lemma log_failed_simps [simp]:
  "log_failed [] = []" "log_failed ((r, Inr u) # entries) = log_failed entries" "log_failed ((r, Inl e) # entries) = snd r # log_failed entries"
  by (simp_all add: log_failed_def)

text \<open>The loop collects what the log says.\<close>

lemma send_loop_log:
  assumes "st_next st \<le> length rs"
  shows "case send_loop rs c st of
      Inl _ \<Rightarrow> send_log (drop (st_next st) rs) (st_tasks st) c \<noteq> [] \<and> snd (last (send_log (drop (st_next st) rs) (st_tasks st) c)) = Inl LocallyClosed
    | Inr st' \<Rightarrow> st_failed st' = st_failed st @ log_failed (send_log (drop (st_next st) rs) (st_tasks st) c) \<and>
        st_done st' = st_done st + length (send_log (drop (st_next st) rs) (st_tasks st) c)"
  using assms
proof (induction "2 * (length rs - st_next st) + length (st_tasks st)" arbitrary: c st rule: less_induct)
  case less
  show ?case
  proof (cases "st_tasks st = []")
    case True
    then show ?thesis by (simp add: send_loop_unfold [of rs c st] send_log.simps [of _ "[]"])
  next
    case False
    define i where "i = fst (c 0) mod length (st_tasks st)"
    have i: "i < length (st_tasks st)" using False by (simp add: i_def)
    note unfold = send_loop_unfold [of rs c st] send_log.simps [of "drop (st_next st) rs" "st_tasks st" c] i_def [symmetric]
    consider u where "snd (c 0) = Inr u" | "snd (c 0) = Inl LocallyClosed" | n where "snd (c 0) = Inl (OtherTransportError n)"
      by (metis sum.exhaust transport_error.exhaust)
    then show ?thesis
    proof cases
      case 1
      then show ?thesis
        using False i less.prems less.hyps [of "succeeded i st" "\<lambda>n. c (Suc n)"]
        by (auto simp: unfold Let_def st_done_def succeeded_def length_remove_nth split: sum.splits)
    next
      case 2
      then show ?thesis using False by (simp add: unfold Let_def)
    next
      case 3
      have spare: "drop (st_next (failed_over rs i st)) rs = tl (drop (st_next st) rs)"
        "st_tasks (failed_over rs i st) = remove_nth i (st_tasks st) @ take 1 (drop (st_next st) rs)"
        "st_next (failed_over rs i st) \<le> length rs"
        using less.prems by (auto simp: failed_over_def drop_Suc tl_drop Cons_nth_drop_Suc [symmetric])
      have "2 * (length rs - st_next (failed_over rs i st)) + length (st_tasks (failed_over rs i st)) <
          2 * (length rs - st_next st) + length (st_tasks st)"
        using i False by (auto simp: failed_over_def length_remove_nth)
      moreover have "st_failed (failed_over rs i st) = st_failed st @ [snd (st_tasks st ! i)]" by (simp add: failed_over_def)
      ultimately show ?thesis
        using 3 False less.hyps [of "failed_over rs i st" "\<lambda>n. c (Suc n)"] spare
        by (auto simp: unfold Let_def st_done_step split: sum.splits)
    qed
  qed
qed

lemma mset_remove_nth: "i < length xs \<Longrightarrow> mset xs = add_mset (xs ! i) (mset (remove_nth i xs))"
  using mset_map_remove_nth [of i xs "\<lambda>x. x"] by simp

text \<open>The steps of the log.\<close>

lemma send_log_induct [case_names Nil Success Closed Failure]:
  assumes nil: "\<And>spare c. P spare [] c"
    and success: "\<And>spare running c i. i < length running \<Longrightarrow>
      send_log spare running c = (running ! i, Inr ()) # send_log spare (remove_nth i running) (\<lambda>n. c (Suc n)) \<Longrightarrow>
      snd (c 0) = Inr () \<Longrightarrow> P spare (remove_nth i running) (\<lambda>n. c (Suc n)) \<Longrightarrow> P spare running c"
    and closed: "\<And>spare running c i. i < length running \<Longrightarrow> send_log spare running c = [(running ! i, Inl LocallyClosed)] \<Longrightarrow>
      snd (c 0) = Inl LocallyClosed \<Longrightarrow> P spare running c"
    and failure: "\<And>spare running c i m. i < length running \<Longrightarrow>
      send_log spare running c = (running ! i, Inl (OtherTransportError m)) #
        send_log (tl spare) (remove_nth i running @ take 1 spare) (\<lambda>n. c (Suc n)) \<Longrightarrow>
      snd (c 0) = Inl (OtherTransportError m) \<Longrightarrow> P (tl spare) (remove_nth i running @ take 1 spare) (\<lambda>n. c (Suc n)) \<Longrightarrow> P spare running c"
  shows "P spare running c"
proof (induction spare running c rule: send_log.induct)
  case (1 spare running c)
  note IH = "1.IH"
  show ?case
  proof (cases "running = []")
    case False
    let ?i = "fst (c 0) mod length running"
    have i: "?i < length running" using False by simp
    consider u where "snd (c 0) = Inr u" | "snd (c 0) = Inl LocallyClosed" | m where "snd (c 0) = Inl (OtherTransportError m)"
      by (metis sum.exhaust transport_error.exhaust)
    then show ?thesis
    proof cases
      case (1 u)
      then show ?thesis using IH(2) [OF False refl refl 1] False by (intro success [OF i]) (simp_all add: send_log.simps [of spare running c] Let_def)
    next
      case 2
      then show ?thesis using False by (intro closed [OF i]) (simp_all add: send_log.simps [of spare running c] Let_def)
    next
      case (3 m)
      then show ?thesis using IH(1) [OF False refl refl 3 refl] False by (intro failure [OF i]) (simp_all add: send_log.simps [of spare running c] Let_def)
    qed
  qed (simp add: nil)
qed

lemma send_log_Nil [simp]: "send_log spare [] c = []"
  by (simp add: send_log.simps)

text \<open>Each recipient occurs at most once in the log, the outcomes are those of the completions, and without
  a closed connection the recipients are the running ones and the first of the spare ones.\<close>

lemma send_log_recipients: "mset (map fst (send_log spare running c)) \<subseteq># mset running + mset spare"
proof (induction spare running c rule: send_log_induct)
  case (Success spare running c i)
  then show ?case using mset_remove_nth [OF Success(1)] by simp
next
  case (Closed spare running c i)
  then show ?case using mset_remove_nth [OF Closed(1)] by simp
next
  case (Failure spare running c i m)
  have "mset (remove_nth i running @ take 1 spare) + mset (tl spare) = mset (remove_nth i running) + mset spare" by (cases spare) simp_all
  then show ?case using Failure mset_remove_nth [OF Failure(1)] by (simp add: add.assoc)
qed simp

lemma send_log_outcomes: "map snd (send_log spare running c) = map (\<lambda>i. snd (c i)) [0..<length (send_log spare running c)]"
proof (induction spare running c rule: send_log_induct)
  case (Success spare running c i)
  then show ?case by (simp add: upt_conv_Cons map_Suc_upt [symmetric] del: upt_Suc)
next
  case (Failure spare running c i m)
  then show ?case by (simp add: upt_conv_Cons map_Suc_upt [symmetric] del: upt_Suc)
qed simp_all

lemma send_log_complete:
  "Inl LocallyClosed \<notin> snd ` set (send_log spare running c) \<Longrightarrow>
    length running \<le> length (send_log spare running c) \<and>
    mset (map fst (send_log spare running c)) = mset (running @ take (length (send_log spare running c) - length running) spare)"
proof (induction spare running c rule: send_log_induct)
  case (Success spare running c i)
  then show ?case using mset_remove_nth [OF Success(1)] length_remove_nth [OF Success(1)] by auto
next
  case (Failure spare running c i m)
  then show ?case using mset_remove_nth [OF Failure(1)] length_remove_nth [OF Failure(1)] by (cases spare) (auto simp: Suc_diff_le)
qed simp_all

section \<open>The outcome of a send\<close>

lemma failures_mono: "n \<le> m \<Longrightarrow> failures c n \<le> failures c m"
proof (induction m)
  case (Suc m)
  then show ?case by (cases "n = Suc m") (auto simp: failures_def le_Suc_eq)
qed (simp add: failures_def)

text \<open>The state with which the loop starts.\<close>

definition send_start :: "(xor_name \<times> socket_addr) list \<Rightarrow> nat \<Rightarrow> send_state" where
  "send_start rs g = \<lparr>st_tasks = take g rs, st_next = g, st_successes = 0, st_failed = []\<rparr>"

lemma send_start_fields:
  "st_tasks (send_start rs g) = take g rs" "st_next (send_start rs g) = g" "st_failed (send_start rs g) = []"
  "st_done (send_start rs g) = 0"
  by (simp_all add: send_start_def st_done_def)

lemma send_start_loop:
  assumes "g \<le> length rs"
  shows "loop_spec rs g c (send_start rs g) (send_loop rs c (send_start rs g))"
    "case send_loop rs c (send_start rs g) of
      Inl _ \<Rightarrow> send_log (drop g rs) (take g rs) c \<noteq> [] \<and> snd (last (send_log (drop g rs) (take g rs) c)) = Inl LocallyClosed
    | Inr st \<Rightarrow> st_failed st = log_failed (send_log (drop g rs) (take g rs) c) \<and> st_done st = length (send_log (drop g rs) (take g rs) c)"
proof -
  have "send_inv rs g (send_start rs g)" using assms by (simp add: send_start_def send_inv_def)
  then show "loop_spec rs g c (send_start rs g) (send_loop rs c (send_start rs g))" by (rule send_loop_spec)
  show "case send_loop rs c (send_start rs g) of
      Inl _ \<Rightarrow> send_log (drop g rs) (take g rs) c \<noteq> [] \<and> snd (last (send_log (drop g rs) (take g rs) c)) = Inl LocallyClosed
    | Inr st \<Rightarrow> st_failed st = log_failed (send_log (drop g rs) (take g rs) c) \<and> st_done st = length (send_log (drop g rs) (take g rs) c)"
    using send_loop_log [of "send_start rs g" rs c] assms unfolding send_start_fields by (simp split: sum.splits)
qed

lemma comm_send_loop:
  assumes "rs \<noteq> []" "wo_serialize W (wo_update_dest W msg (fst (rs ! 0))) = Inr bytes" "g = min d (length rs)"
  shows "comm_send W c rs d msg = map_sum (\<lambda>e. e) (send_status_of g) (send_loop rs c (send_start rs g))"
  using assms by (cases "send_loop rs c (send_start rs g)") (simp_all add: comm_send_def Let_def and_then_def map_err_def send_start_def)

lemma comm_send_status:
  assumes "rs \<noteq> []" "wo_serialize W (wo_update_dest W msg (fst (rs ! 0))) = Inr bytes" "g = min d (length rs)"
    and "comm_send W c rs d msg = Inr status"
  defines "entries \<equiv> send_log (drop g rs) (take g rs) c"
  shows "Inl LocallyClosed \<notin> snd ` set entries \<and> length entries = min (length rs) (g + length (log_failed entries)) \<and>
    length (log_failed entries) = failures c (length entries) \<and> mset (map fst entries) = mset (take (length entries) rs) \<and>
    status = (if length (log_failed entries) \<le> length rs - g
              then (if log_failed entries = [] then AllRecipients else MinDeliveryGroupSizeReached (log_failed entries))
              else MinDeliveryGroupSizeFailed (log_failed entries))"
proof -
  have g: "g \<le> length rs" using assms(3) by simp
  obtain st where st: "send_loop rs c (send_start rs g) = Inr st" "status = send_status_of g st"
    using assms(4) comm_send_loop [OF assms(1-3)] by (cases "send_loop rs c (send_start rs g)") auto
  have inv: "send_inv rs g st" "st_tasks st = []" "length (st_failed st) = failures c (st_done st)"
    "\<forall>i < st_done st. snd (c i) \<noteq> Inl LocallyClosed"
    using send_start_loop(1) [OF g, of c] st(1) by (simp_all add: loop_spec_def send_start_fields)
  have log: "st_failed st = log_failed entries" "st_done st = length entries"
    using send_start_loop(2) [OF g, of c] st(1) by (simp_all add: entries_def)
  have "snd ` set entries = set (map (\<lambda>i. snd (c i)) [0..<length entries])"
    using send_log_outcomes [of "drop g rs" "take g rs" c] unfolding entries_def [symmetric] by (metis list.set_map)
  then have open0: "Inl LocallyClosed \<notin> snd ` set entries" using inv(4) log(2) by auto
  have "mset (map fst entries) = mset (take (length entries) rs)"
    using send_log_complete [of "drop g rs" "take g rs" c] open0 g unfolding entries_def [symmetric]
    by (metis append_take_drop_id length_take min.absorb2 take_add le_add_diff_inverse)
  moreover have "st_successes st = g \<longleftrightarrow> length (st_failed st) \<le> length rs - g"
    using inv(1,2) g by (auto simp: send_inv_def)
  moreover have "st_done st = min (length rs) (g + length (st_failed st))"
    using inv(1,2) by (simp add: send_inv_def st_done_def)
  ultimately show ?thesis using inv(3) log st(2) open0 by (simp add: send_status_of_def)
qed

text \<open>C31. Whatever the order in which the concurrent sends complete, \<open>Comm::send\<close> tries the
  recipients in their order, each at most once, and one further recipient for each failure as
  long as there are any. When it ends with a status, each recipient it tried has ended; the failures it reports are
  exactly the recipients whose sends failed, in the order in which they did, and it reports success exactly when as many
  sends as asked for went through. It ends with \<open>ConnectionClosed\<close> when a send finds the connection
  closed by us, and only then; and it reaches the wanted number whenever no send does so and no more recipients fail than there are to spare.\<close>

theorem comm_send_outcome:
  assumes "rs \<noteq> []" and "wo_serialize W (wo_update_dest W msg (fst (rs ! 0))) = Inr bytes" and "g = min d (length rs)"
  shows "comm_send W c [] d msg = Inl EmptyRecipientList \<and>
    (let entries = send_log (drop g rs) (take g rs) c; failed = log_failed entries
     in mset (map fst entries) \<subseteq># mset rs \<and> map snd entries = map (\<lambda>i. snd (c i)) [0..<length entries] \<and>
        (case comm_send W c rs d msg of
           Inl e \<Rightarrow> e = ConnectionClosed \<and> entries \<noteq> [] \<and> snd (last entries) = Inl LocallyClosed
         | Inr status \<Rightarrow> Inl LocallyClosed \<notin> snd ` set entries \<and> length entries = min (length rs) (g + length failed) \<and>
             mset (map fst entries) = mset (take (length entries) rs) \<and>
             status = (if length failed \<le> length rs - g
                       then (if failed = [] then AllRecipients else MinDeliveryGroupSizeReached failed)
                       else MinDeliveryGroupSizeFailed failed))) \<and>
    ((\<forall>i < length rs. snd (c i) \<noteq> Inl LocallyClosed) \<and> failures c (length rs) \<le> length rs - g \<longrightarrow>
       (\<exists>failed. comm_send W c rs d msg = Inr AllRecipients \<or>
          comm_send W c rs d msg = Inr (MinDeliveryGroupSizeReached failed)))"
proof -
  define entries where "entries = send_log (drop g rs) (take g rs) c"
  have g: "g \<le> length rs" using assms(3) by simp
  have "mset (take g rs) + mset (drop g rs) = mset rs" by (metis append_take_drop_id mset_append)
  then have log: "mset (map fst entries) \<subseteq># mset rs" "map snd entries = map (\<lambda>i. snd (c i)) [0..<length entries]"
    using send_log_recipients [of "drop g rs" "take g rs" c] send_log_outcomes [of "drop g rs" "take g rs" c]
    unfolding entries_def [symmetric] by simp_all
  have empty: "comm_send W c [] d msg = Inl EmptyRecipientList" by (simp add: comm_send_def)
  show ?thesis
  proof (cases "comm_send W c rs d msg")
    case (Inl e)
    then have "send_loop rs c (send_start rs g) = Inl e"
      using comm_send_loop [OF assms] by (cases "send_loop rs c (send_start rs g)") auto
    then have "e = ConnectionClosed" "\<exists>i < length rs. snd (c i) = Inl LocallyClosed" "entries \<noteq> []" "snd (last entries) = Inl LocallyClosed"
      using send_start_loop [OF g, of c] by (simp_all add: loop_spec_def entries_def send_start_fields)
    then show ?thesis using empty log unfolding Inl entries_def [symmetric] Let_def sum.case by blast
  next
    case (Inr status)
    note status = comm_send_status [OF assms Inr, folded entries_def]
    then have "length entries \<le> length rs" "length (log_failed entries) = failures c (length entries)" by linarith+
    then have "length (log_failed entries) \<le> failures c (length rs)" using failures_mono by metis
    moreover have "status = (if length (log_failed entries) \<le> length rs - g
        then (if log_failed entries = [] then AllRecipients else MinDeliveryGroupSizeReached (log_failed entries))
        else MinDeliveryGroupSizeFailed (log_failed entries))" using status by blast
    ultimately have "failures c (length rs) \<le> length rs - g \<longrightarrow> (\<exists>failed. status = AllRecipients \<or> status = MinDeliveryGroupSizeReached failed)"
      by (simp split: if_split)
    then show ?thesis using empty log status unfolding Inr entries_def [symmetric] Let_def sum.case by blast
  qed
qed

text \<open>Three recipients, two of which are to be reached; the first send fails.\<close>

theorem comm_send_outcome_witness:
  "comm_send \<lparr>wo_update_dest = (\<lambda>m _. m), wo_serialize = (\<lambda>_. Inr []), wo_header = (\<lambda>_. Inl 0),
       wo_to_message = (\<lambda>_. Inl 0)\<rparr>
     (\<lambda>i. if i = 0 then (1, Inl (OtherTransportError 7)) else (0, Inr ()))
     [(1, 10), (2, 20), (3, 30)] 2 (NodeType 0 :: unit message_type) = Inr (MinDeliveryGroupSizeReached [20])"
proof -
  let ?W = "\<lparr>wo_update_dest = (\<lambda>m _. m), wo_serialize = (\<lambda>_. Inr []), wo_header = (\<lambda>_. Inl 0),
       wo_to_message = (\<lambda>_. Inl 0)\<rparr> :: unit wire_ops"
  let ?c = "\<lambda>i::nat. if i = 0 then (1::nat, Inl (OtherTransportError 7)) else (0, Inr ())"
  let ?rs = "[(1, 10), (2, 20), (3, 30)] :: (xor_name \<times> socket_addr) list"
  have "failures ?c 3 = 1" by (simp add: failures_def upt_rec numeral_3_eq_3)
  then have "\<exists>failed. comm_send ?W ?c ?rs 2 (NodeType 0) = Inr AllRecipients \<or>
      comm_send ?W ?c ?rs 2 (NodeType 0) = Inr (MinDeliveryGroupSizeReached failed)"
    using comm_send_outcome [of ?rs ?W "NodeType 0" "[]" 2 2 ?c] by (auto simp: numeral_3_eq_3)
  moreover have "comm_send ?W ?c ?rs 2 (NodeType 0) = Inr (MinDeliveryGroupSizeReached [20])"
    by (simp add: comm_send_def send_loop.simps send_result_def map_err_def and_then_def remove_nth_def send_status_of_def
        numeral_2_eq_2)
  ultimately show ?thesis by simp
qed

end
