(* ===== verification/Bootstrap_Join.thy ===== *)
theory Bootstrap_Join
  imports Comm_Send Section_State
begin

text \<open>
  Joining the network: \<open>src/routing/bootstrap/mod.rs\<close> and
  \<open>src/routing/bootstrap/join.rs\<close>. The events a joining node receives until its channel
  is closed are a list, its requests to the sending task are recorded in its state, and the
  random choices are arguments. \<open>Searching\<close> is the result when the key pairs drawn so far
  have no name in the wanted range; \<open>Panicked\<close> is an index out of bounds.
\<close>

section \<open>Parameters\<close>

text \<open>Functions of \<open>sn_messaging\<close>, \<open>xor_name\<close> and \<open>resource_proof\<close>.\<close>

record 'c join_ops =
  jo_env :: "'c env"
  jo_deserialize :: "bytes \<Rightarrow> nat + 'c message_type"
  jo_range_inclusive :: "pfx \<Rightarrow> xor_name \<times> xor_name"
  jo_prefix_new :: "nat \<Rightarrow> xor_name \<Rightarrow> pfx"
  jo_create_proof_data :: "nat \<Rightarrow> u8 \<Rightarrow> bytes \<Rightarrow> bytes"
  jo_solve :: "nat \<Rightarrow> u8 \<Rightarrow> bytes \<Rightarrow> u64"

abbreviation jo_crypto :: "'c join_ops \<Rightarrow> 'c crypto_ops" where
  "jo_crypto J \<equiv> ev_crypto (jo_env J)"

abbreviation jo_xor :: "'c join_ops \<Rightarrow> xor_ops" where
  "jo_xor J \<equiv> ev_xor (jo_env J)"

text \<open>The random choices in the handling of one response.\<close>

record join_draws =
  jd_age :: nat
  jd_first_keypairs :: "keypair list"
  jd_keypairs :: "keypair list"
  jd_name :: xor_name

datatype ('s, 'r) progress =
    Continue 's
  | Return "error + 'r"
  | Searching
  | Panicked

section \<open>Definitions\<close>

definition bootstrap_verify_message :: "'c env \<Rightarrow> 'c routing_msg \<Rightarrow> bls_public_key option \<Rightarrow> bool" where
  "bootstrap_verify_message E msg trusted_key =
     (case message_verify E msg (case trusted_key of None \<Rightarrow> [] | Some k \<Rightarrow> [k]) of
        Inr Full \<Rightarrow> True
      | Inr Unknown \<Rightarrow> trusted_key = None
      | Inl _ \<Rightarrow> False)"

definition JOIN_BACKLOG_CAPACITY :: nat where
  "JOIN_BACKLOG_CAPACITY = 100"

type_synonym 'c backlog_entry = "'c routing_msg \<times> socket_addr \<times> dest_info"

record 'c join_state =
  jn_node :: node
  jn_section_key :: bls_public_key
  jn_recipients :: "(xor_name \<times> socket_addr) list"
  jn_used_recipient :: "socket_addr list"
  jn_backlog :: "'c backlog_entry list"
  jn_sent :: "('c message_type \<times> (xor_name \<times> socket_addr) list) list"

fun pop_full :: "'a list \<Rightarrow> 'a list" where
  "pop_full [] = []"
| "pop_full (x # xs) = (if JOIN_BACKLOG_CAPACITY \<le> length (x # xs) then pop_full xs else x # xs)"

definition join_backlog_message :: "'c backlog_entry \<Rightarrow> 'c backlog_entry list \<Rightarrow> 'c backlog_entry list" where
  "join_backlog_message entry backlog = pop_full backlog @ [entry]"

definition send_join_requests ::
  "'c join_ops \<Rightarrow> join_request \<Rightarrow> (xor_name \<times> socket_addr) list \<Rightarrow> bls_public_key \<Rightarrow> 'c join_state \<Rightarrow> ('c join_state, 'r) progress" where
  "send_join_requests J req recipients key st =
     (case single_src (jo_crypto J) (jn_node st) DirectAndUnrouted (JoinRequest req) key of
        Inl e \<Rightarrow> Return (Inl e)
      | Inr message \<Rightarrow>
          (case recipients of
             [] \<Rightarrow> Panicked
           | (name, _) # _ \<Rightarrow>
               Continue (st\<lparr>jn_sent := jn_sent st @
                 [(RoutingType \<lparr>di_dest = Dest name, di_section_pk = key\<rparr> message, recipients)]\<rparr>)))"

text \<open>Which responses are taken up.\<close>

definition join_response_ok :: "'c join_ops \<Rightarrow> xor_name \<Rightarrow> 'c routing_msg \<Rightarrow> 'c join_response \<Rightarrow> bool" where
  "join_response_ok J destination msg response =
     (case response of
        Rejected _ \<Rightarrow> True
      | Retry section_auth \<Rightarrow>
          pf_matches (jo_xor J) (sa_prefix section_auth) destination \<and> sa_elders section_auth \<noteq> [] \<and>
          bootstrap_verify_message (jo_env J) msg None
      | Redirect section_auth \<Rightarrow> sa_elders section_auth \<noteq> [] \<and> bootstrap_verify_message (jo_env J) msg None
      | ResourceChallenge _ _ _ _ \<Rightarrow> bootstrap_verify_message (jo_env J) msg None
      | Approval _ _ node_state _ \<Rightarrow>
          peer_name (ns_peer (ss_value node_state)) = destination \<and> bootstrap_verify_message (jo_env J) msg None)"

fun receive_join_response ::
  "'c join_ops \<Rightarrow> xor_name \<Rightarrow> connection_event list \<Rightarrow> 'c backlog_entry list
    \<Rightarrow> (error + 'c join_response \<times> socket_addr \<times> dest_info) \<times> 'c backlog_entry list \<times> connection_event list" where
  "receive_join_response J destination [] backlog = (Inl InvalidState, backlog, [])"
| "receive_join_response J destination (ev # evs) backlog =
     (case ev of
        Disconnected _ \<Rightarrow> receive_join_response J destination evs backlog
      | Received sender bytes \<Rightarrow>
          (case jo_deserialize J bytes of
             Inr (RoutingType dest_info msg) \<Rightarrow>
               (case msg_variant msg of
                  JoinResponse response \<Rightarrow>
                    if join_response_ok J destination msg response
                    then (Inr (response, sender, dest_info), backlog, evs)
                    else receive_join_response J destination evs backlog
                | _ \<Rightarrow> receive_join_response J destination evs (join_backlog_message (msg, sender, dest_info) backlog))
           | _ \<Rightarrow> receive_join_response J destination evs backlog))"

text \<open>Ages for the first section, and a new name.\<close>

definition first_section_ages :: "u8 list" where
  "first_section_ages = map of_nat [unat FIRST_SECTION_MIN_AGE..<unat FIRST_SECTION_MAX_AGE]"

definition choose_age :: "nat \<Rightarrow> u8" where
  "choose_age i =
     (if first_section_ages = [] then FIRST_SECTION_MAX_AGE else first_section_ages ! (i mod length first_section_ages))"

definition renew_node :: "'c join_ops \<Rightarrow> pfx \<Rightarrow> u8 \<Rightarrow> keypair list \<Rightarrow> node \<Rightarrow> node option" where
  "renew_node J p age draws node =
     map_option (\<lambda>keypair. node_new keypair (nd_addr node)) (gen_keypair (jo_crypto J) (jo_range_inclusive J p) age draws)"

definition first_section_node :: "'c join_ops \<Rightarrow> join_draws \<Rightarrow> pfx \<Rightarrow> node \<Rightarrow> node option" where
  "first_section_node J d p node =
     (if pf_is_empty (jo_xor J) p \<and> node_age (jo_crypto J) node < FIRST_SECTION_MIN_AGE
      then renew_node J [] (choose_age (jd_age d)) (jd_first_keypairs d) node
      else Some node)"

definition adult_node :: "'c join_ops \<Rightarrow> join_draws \<Rightarrow> pfx \<Rightarrow> node \<Rightarrow> node option" where
  "adult_node J d p node =
     (if \<not> pf_is_empty (jo_xor J) p \<and> node_age (jo_crypto J) node \<noteq> MIN_ADULT_AGE
      then renew_node J p MIN_ADULT_AGE (jd_keypairs d) node
      else Some node)"

definition request_with_key ::
  "'c join_ops \<Rightarrow> bls_public_key \<Rightarrow> (xor_name \<times> socket_addr) list \<Rightarrow> 'c join_state \<Rightarrow> ('c join_state, 'r) progress" where
  "request_with_key J key recipients st =
     send_join_requests J \<lparr>jr_section_key = key, jr_resource_proof_response = None\<rparr> recipients key
       (st\<lparr>jn_section_key := key, jn_recipients := recipients\<rparr>)"

definition on_retry :: "'c join_ops \<Rightarrow> join_draws \<Rightarrow> section_auth \<Rightarrow> 'c join_state \<Rightarrow> ('c join_state, 'r) progress" where
  "on_retry J d section_auth st =
     (if section_key (jo_crypto J) section_auth = jn_section_key st then Continue st
      else let p = sa_prefix section_auth
           in case first_section_node J d p (jn_node st) of
                None \<Rightarrow> Searching
              | Some node1 \<Rightarrow>
                  if pf_matches (jo_xor J) p (node_name (jo_crypto J) node1)
                  then (case adult_node J d p node1 of
                          None \<Rightarrow> Searching
                        | Some node2 \<Rightarrow>
                            request_with_key J (section_key (jo_crypto J) section_auth) (sa_elders section_auth)
                              (st\<lparr>jn_node := node2\<rparr>))
                  else Continue (st\<lparr>jn_node := node1\<rparr>))"

definition on_redirect :: "'c join_ops \<Rightarrow> section_auth \<Rightarrow> 'c join_state \<Rightarrow> ('c join_state, 'r) progress" where
  "on_redirect J section_auth st =
     (if section_key (jo_crypto J) section_auth = jn_section_key st then Continue st
      else let new_recipients = filter (\<lambda>(_, addr). addr \<notin> set (jn_used_recipient st)) (sa_elders section_auth)
           in if new_recipients = [] then Continue st
              else if pf_matches (jo_xor J) (sa_prefix section_auth) (node_name (jo_crypto J) (jn_node st))
              then request_with_key J (section_key (jo_crypto J) section_auth) new_recipients st
              else Continue st)"

definition on_challenge ::
  "'c join_ops \<Rightarrow> join_draws \<Rightarrow> nat \<Rightarrow> u8 \<Rightarrow> bytes \<Rightarrow> ed_signature \<Rightarrow> socket_addr \<Rightarrow> dest_info \<Rightarrow> 'c join_state
    \<Rightarrow> ('c join_state, 'r) progress" where
  "on_challenge J d data_size difficulty nonce nonce_signature sender dest_info st =
     (let data = jo_create_proof_data J data_size difficulty nonce;
          solution = jo_solve J data_size difficulty data;
          name = (case di_dest dest_info of Dest n \<Rightarrow> n | RandomDest \<Rightarrow> jd_name d)
      in send_join_requests J
           \<lparr>jr_section_key = jn_section_key st,
            jr_resource_proof_response =
              Some \<lparr>rpr_solution = solution, rpr_data = data, rpr_nonce = nonce, rpr_nonce_signature = nonce_signature\<rparr>\<rparr>
           [(name, sender)] (jn_section_key st) st)"

type_synonym 'c join_result = "node \<times> 'c section_state \<times> 'c backlog_entry list"

definition on_join_response ::
  "'c join_ops \<Rightarrow> join_draws \<Rightarrow> 'c join_response \<Rightarrow> socket_addr \<Rightarrow> dest_info \<Rightarrow> 'c join_state
    \<Rightarrow> ('c join_state, 'c join_result) progress" where
  "on_join_response J d response sender dest_info st =
     (case response of
        Rejected (NodeNotReachableReason addr) \<Rightarrow> Return (Inl (NodeNotReachable addr))
      | Rejected JoinsDisallowed \<Rightarrow> Return (Inl TryJoinLater)
      | Approval genesis_key section_auth _ section_chain \<Rightarrow>
          Return (and_then (section_new (jo_env J) genesis_key section_chain section_auth) (\<lambda>section0.
                  Inr (jn_node st, section0, jn_backlog st)))
      | Retry section_auth \<Rightarrow> on_retry J d section_auth st
      | Redirect section_auth \<Rightarrow> on_redirect J section_auth st
      | ResourceChallenge data_size difficulty nonce nonce_signature \<Rightarrow>
          on_challenge J d data_size difficulty nonce nonce_signature sender dest_info st)"

lemma receive_shorter:
  "receive_join_response J n evs bl = (Inr r, bl', rest) \<Longrightarrow> length rest < length evs"
  by (induction evs arbitrary: bl)
    (auto split: connection_event.splits sum.splits message_type.splits variant.splits if_splits
      dest!: less_SucI)

function join_loop ::
  "'c join_ops \<Rightarrow> (nat \<Rightarrow> join_draws) \<Rightarrow> connection_event list \<Rightarrow> 'c join_state \<Rightarrow> ('c join_state, 'c join_result) progress" where
  "join_loop J draws evs st =
     (let st = st\<lparr>jn_used_recipient := jn_used_recipient st @ map snd (jn_recipients st)\<rparr>
      in case receive_join_response J (node_name (jo_crypto J) (jn_node st)) evs (jn_backlog st) of
           (Inl e, backlog, rest) \<Rightarrow> Return (Inl e)
         | (Inr (response, sender, dest_info), backlog, rest) \<Rightarrow>
             (case on_join_response J (draws 0) response sender dest_info (st\<lparr>jn_backlog := backlog\<rparr>) of
                Continue st' \<Rightarrow> join_loop J (\<lambda>n. draws (Suc n)) rest st'
              | result \<Rightarrow> result))"
  by pat_completeness auto
termination
  by (relation "measure (\<lambda>(_, _, evs, _). length evs)") (auto dest!: receive_shorter [OF sym])

declare join_loop.simps [simp del]

definition join_with ::
  "'c join_ops \<Rightarrow> (nat \<Rightarrow> join_draws) \<Rightarrow> connection_event list \<Rightarrow> bls_public_key \<Rightarrow> (xor_name \<times> socket_addr) list \<Rightarrow> node
    \<Rightarrow> ('c join_state, 'c join_result) progress" where
  "join_with J draws evs key recipients node =
     (case request_with_key J key recipients
             \<lparr>jn_node = node, jn_section_key = key, jn_recipients = recipients, jn_used_recipient = [],
              jn_backlog = [], jn_sent = []\<rparr> of
        Continue st \<Rightarrow> join_loop J draws evs st
      | result \<Rightarrow> result)"

definition join_run ::
  "'c join_ops \<Rightarrow> bls_public_key \<Rightarrow> (nat \<Rightarrow> join_draws) \<Rightarrow> connection_event list \<Rightarrow> node \<Rightarrow> socket_addr
    \<Rightarrow> ('c join_state, 'c join_result) progress" where
  "join_run J random_key draws evs node bootstrap_addr =
     join_with J draws evs random_key [(node_name (jo_crypto J) node, bootstrap_addr)] node"

section \<open>What a joining node ends up with\<close>

text \<open>The routing messages among the events, and those that are not join responses.\<close>

fun routing_of :: "'c join_ops \<Rightarrow> connection_event \<Rightarrow> 'c backlog_entry list" where
  "routing_of J (Disconnected _) = []"
| "routing_of J (Received sender bytes) =
     (case jo_deserialize J bytes of Inr (RoutingType dest_info msg) \<Rightarrow> [(msg, sender, dest_info)] | _ \<Rightarrow> [])"

definition received :: "'c join_ops \<Rightarrow> connection_event list \<Rightarrow> 'c backlog_entry list" where
  "received J evs = concat (map (routing_of J) evs)"

definition is_join_response :: "'c routing_msg \<Rightarrow> bool" where
  "is_join_response msg = (case msg_variant msg of JoinResponse _ \<Rightarrow> True | _ \<Rightarrow> False)"

definition others :: "'c join_ops \<Rightarrow> connection_event list \<Rightarrow> 'c backlog_entry set" where
  "others J evs = {e \<in> set (received J evs). \<not> is_join_response (fst e)}"

lemma received_Cons: "received J (ev # evs) = routing_of J ev @ received J evs"
  by (simp add: received_def)

lemma others_Cons_mono: "others J evs \<subseteq> others J (ev # evs)"
  by (auto simp: others_def received_Cons)

lemma pop_full_bound: "length (pop_full xs) < JOIN_BACKLOG_CAPACITY"
  by (induction xs) (auto simp: JOIN_BACKLOG_CAPACITY_def)

lemma set_pop_full: "set (pop_full xs) \<subseteq> set xs"
  by (induction xs) auto

lemma join_backlog_message_bound: "length (join_backlog_message e bl) \<le> JOIN_BACKLOG_CAPACITY"
  using pop_full_bound [of bl] by (simp add: join_backlog_message_def)

lemma set_join_backlog_message: "set (join_backlog_message e bl) \<subseteq> insert e (set bl)"
  using set_pop_full [of bl] by (auto simp: join_backlog_message_def)

text \<open>One event: it is the response, goes to the backlog, or is dropped.\<close>

lemma receive_join_response_Cons:
  "receive_join_response J n (ev # evs) bl =
     (case routing_of J ev of
        (msg, sender, di) # _ \<Rightarrow>
          if is_join_response msg
          then (case msg_variant msg of
                  JoinResponse response \<Rightarrow>
                    if join_response_ok J n msg response then (Inr (response, sender, di), bl, evs)
                    else receive_join_response J n evs bl
                | _ \<Rightarrow> receive_join_response J n evs bl)
          else receive_join_response J n evs (join_backlog_message (msg, sender, di) bl)
      | [] \<Rightarrow> receive_join_response J n evs bl)"
  by (auto simp: is_join_response_def split: connection_event.splits sum.splits message_type.splits variant.splits)

declare receive_join_response.simps(2) [simp del]

lemma receive_backlog:
  assumes "receive_join_response J n evs bl = (r, bl', rest)" "length bl \<le> JOIN_BACKLOG_CAPACITY"
  shows "length bl' \<le> JOIN_BACKLOG_CAPACITY \<and> set bl' \<subseteq> set bl \<union> others J evs \<and> set rest \<subseteq> set evs"
  using assms
proof (induction evs arbitrary: bl)
  case (Cons ev evs)
  note mono = others_Cons_mono [of J evs ev]
  show ?case
  proof (cases "routing_of J ev")
    case Nil
    then show ?thesis using Cons mono by (fastforce simp: receive_join_response_Cons)
  next
    case (Cons e es)
    obtain msg sender di where e: "e = (msg, sender, di)" by (cases e)
    show ?thesis
    proof (cases "is_join_response msg")
      case True
      then show ?thesis
        using Cons.prems Cons.IH [of bl] Cons e mono
        by (fastforce simp: receive_join_response_Cons is_join_response_def split: variant.splits if_splits)
    next
      case False
      have "e \<in> others J (ev # evs)" using False e Cons by (simp add: others_def received_Cons)
      moreover have "receive_join_response J n evs (join_backlog_message e bl) = (r, bl', rest)"
        using Cons.prems(1) Cons e False by (simp add: receive_join_response_Cons)
      moreover have "length (join_backlog_message e bl) \<le> JOIN_BACKLOG_CAPACITY" by (rule join_backlog_message_bound)
      ultimately show ?thesis
        using Cons.IH [of "join_backlog_message e bl"] set_join_backlog_message [of e bl] mono by fastforce
    qed
  qed
qed simp

lemma receive_response:
  assumes "receive_join_response J n evs bl = (Inr (response, sender, di), bl', rest)"
  shows "\<exists>msg. (msg, sender, di) \<in> set (received J evs) \<and> msg_variant msg = JoinResponse response \<and>
    join_response_ok J n msg response"
  using assms
proof (induction evs arbitrary: bl)
  case (Cons ev evs)
  show ?case
  proof (cases "routing_of J ev")
    case Nil
    then show ?thesis using Cons by (auto simp: receive_join_response_Cons received_Cons)
  next
    case (Cons e es)
    then show ?thesis
      using Cons.prems Cons.IH by (cases e) (fastforce simp: receive_join_response_Cons received_Cons split: if_splits variant.splits)
  qed
qed simp

text \<open>What an approval has to look like for the node to take it.\<close>

definition approved :: "'c join_ops \<Rightarrow> connection_event list \<Rightarrow> node \<Rightarrow> 'c section_state \<Rightarrow> bool" where
  "approved J evs node s \<longleftrightarrow>
     (\<exists>msg sender di genesis_key section_auth node_state chain.
        (msg, sender, di) \<in> set (received J evs) \<and>
        msg_variant msg = JoinResponse (Approval genesis_key section_auth node_state chain) \<and>
        bootstrap_verify_message (jo_env J) msg None \<and>
        peer_name (ns_peer (ss_value node_state)) = node_name (jo_crypto J) node \<and>
        section_new (jo_env J) genesis_key chain section_auth = Inr s)"

lemma approved_inv: "approved J evs node s \<Longrightarrow> section_inv (jo_env J) s"
  by (auto simp: approved_def dest: section_new_inv)

lemma approved_mono: "approved J evs node s \<Longrightarrow> set evs \<subseteq> set evs' \<Longrightarrow> approved J evs' node s"
  unfolding approved_def received_def by fastforce

lemma send_join_requests_nonempty:
  "recipients \<noteq> [] \<Longrightarrow> send_join_requests J req recipients key st \<noteq> Panicked"
  by (cases recipients) (auto simp: send_join_requests_def split: sum.splits)

lemma send_join_requests_Continue:
  "send_join_requests J req recipients key st = Continue st' \<Longrightarrow>
    \<exists>sent. st' = st\<lparr>jn_sent := sent\<rparr>"
  by (auto simp: send_join_requests_def split: sum.splits list.splits)

lemma send_join_requests_Return:
  "send_join_requests J req recipients key st \<noteq> Return (Inr r)"
  by (auto simp: send_join_requests_def split: sum.splits list.splits)

lemmas requests = send_join_requests_nonempty send_join_requests_Return

lemma renew_node_addr: "renew_node J p age draws node = Some node' \<Longrightarrow> nd_addr node' = nd_addr node"
  by (auto simp: renew_node_def node_new_def)

text \<open>A response that is taken up never panics, keeps our address and our backlog, and only an
  approval ends the join with success.\<close>

definition keeps :: "'c join_state \<Rightarrow> ('c join_state, 'r) progress \<Rightarrow> bool" where
  "keeps st p \<longleftrightarrow> p \<noteq> Panicked \<and> (\<forall>r. p \<noteq> Return (Inr r)) \<and>
     (\<forall>st'. p = Continue st' \<longrightarrow> jn_backlog st' = jn_backlog st \<and> nd_addr (jn_node st') = nd_addr (jn_node st))"

lemma on_retry_keeps: "sa_elders sa \<noteq> [] \<Longrightarrow> keeps st (on_retry J d sa st)"
  unfolding keeps_def
  by (auto simp: on_retry_def request_with_key_def requests Let_def first_section_node_def adult_node_def
      split: option.splits if_splits dest!: send_join_requests_Continue renew_node_addr)

lemma on_redirect_keeps: "keeps st (on_redirect J sa st)"
  unfolding keeps_def
  by (auto simp: on_redirect_def request_with_key_def requests Let_def split: if_splits
      dest!: send_join_requests_Continue)

lemma on_challenge_keeps: "keeps st (on_challenge J d n u b g sender di st)"
  unfolding keeps_def by (auto simp: on_challenge_def requests Let_def dest!: send_join_requests_Continue)

lemma on_join_response_keeps:
  assumes "join_response_ok J n msg response"
  shows "keeps st (on_join_response J d response sender di st) \<or>
    (\<exists>g sa ns ch s. response = Approval g sa ns ch \<and> section_new (jo_env J) g ch sa = Inr s \<and>
      on_join_response J d response sender di st = Return (Inr (jn_node st, s, jn_backlog st)))"
proof (cases response)
  case (Approval g sa ns ch)
  then show ?thesis
    by (cases "section_new (jo_env J) g ch sa") (auto simp: on_join_response_def keeps_def and_then_def)
next
  case (Retry sa)
  then show ?thesis using assms on_retry_keeps [of sa st] by (simp add: on_join_response_def join_response_ok_def)
next
  case (Redirect sa)
  then show ?thesis by (simp add: on_join_response_def on_redirect_keeps)
next
  case (Rejected reason)
  then show ?thesis by (cases reason) (simp_all add: on_join_response_def keeps_def)
next
  case (ResourceChallenge n u b g)
  then show ?thesis by (simp add: on_join_response_def on_challenge_keeps)
qed

lemma progress_cases:
  assumes "keeps st p \<or> (\<exists>g sa ns ch s. P g sa ns ch s \<and> Q g sa ch s \<and> p = Return (Inr (f s)))"
  obtains (more) st' where "p = Continue st'" "jn_backlog st' = jn_backlog st" "nd_addr (jn_node st') = nd_addr (jn_node st)"
    | (over) "p = Searching \<or> (\<exists>e. p = Return (Inl e))"
    | (finished) g sa ns ch s where "P g sa ns ch s" "Q g sa ch s" "p = Return (Inr (f s))"
proof (cases p)
  case (Continue st')
  then show thesis using assms more unfolding keeps_def by blast
next
  case (Return r)
  then show thesis using assms over finished by (cases r) (auto simp: keeps_def)
next
  case Searching
  then show thesis using over by blast
next
  case Panicked
  then show thesis using assms unfolding keeps_def by blast
qed

lemma join_loop_result:
  assumes "length (jn_backlog st) \<le> JOIN_BACKLOG_CAPACITY"
  shows "case join_loop J draws evs st of
      Continue _ \<Rightarrow> False | Panicked \<Rightarrow> False | Searching \<Rightarrow> True | Return (Inl _) \<Rightarrow> True
    | Return (Inr (node, s, bl)) \<Rightarrow>
        approved J evs node s \<and> nd_addr node = nd_addr (jn_node st) \<and> length bl \<le> JOIN_BACKLOG_CAPACITY \<and>
        set bl \<subseteq> set (jn_backlog st) \<union> others J evs"
  using assms
proof (induction "length evs" arbitrary: draws evs st rule: less_induct)
  case less
  let ?st = "st\<lparr>jn_used_recipient := jn_used_recipient st @ map snd (jn_recipients st)\<rparr>"
  obtain r bl rest where r: "receive_join_response J (node_name (jo_crypto J) (jn_node st)) evs (jn_backlog st) = (r, bl, rest)"
    by (metis prod_cases3)
  note bl = receive_backlog [OF r less.prems]
  show ?case
  proof (cases r)
    case (Inl e)
    then show ?thesis using r by (simp add: join_loop.simps [of J draws evs st])
  next
    case (Inr x)
    obtain response sender di where x: "x = (response, sender, di)" by (cases x)
    let ?st1 = "?st\<lparr>jn_backlog := bl\<rparr>"
    let ?p = "on_join_response J (draws 0) response sender di ?st1"
    have loop: "join_loop J draws evs st =
        (case ?p of Continue st' \<Rightarrow> join_loop J (\<lambda>n. draws (Suc n)) rest st' | result \<Rightarrow> result)"
      using r Inr x by (simp add: join_loop.simps [of J draws evs st])
    obtain msg where msg: "(msg, sender, di) \<in> set (received J evs)" "msg_variant msg = JoinResponse response"
        "join_response_ok J (node_name (jo_crypto J) (jn_node st)) msg response"
      using receive_response r Inr x by blast
    have shorter: "length rest < length evs" using receive_shorter r Inr by blast
    have rest: "others J rest \<subseteq> others J evs" using bl by (fastforce simp: others_def received_def)
    show ?thesis
    proof (rule progress_cases [OF on_join_response_keeps [OF msg(3), of ?st1 "draws 0" sender di]])
      fix st' assume more: "?p = Continue st'" "jn_backlog st' = jn_backlog ?st1" "nd_addr (jn_node st') = nd_addr (jn_node ?st1)"
      have "set evs \<supseteq> set rest" using bl by simp
      then show ?thesis
        using less.hyps [OF shorter, of st' "\<lambda>n. draws (Suc n)"] bl more rest loop approved_mono [of J rest _ _ evs]
        by (auto split: progress.splits sum.splits)
    next
      assume "?p = Searching \<or> (\<exists>e. ?p = Return (Inl e))"
      then show ?thesis using loop by auto
    next
      fix g sa ns ch s
      assume finished: "response = Approval g sa ns ch" "section_new (jo_env J) g ch sa = Inr s"
        "?p = Return (Inr (jn_node ?st1, s, jn_backlog ?st1))"
      then have "approved J evs (jn_node st) s"
        using msg unfolding approved_def join_response_ok_def by fastforce
      then show ?thesis using loop finished bl by simp
    qed
  qed
qed

lemma join_run_result:
  "case join_run J key draws evs node addr of
     Continue _ \<Rightarrow> False | Panicked \<Rightarrow> False | Searching \<Rightarrow> True | Return (Inl _) \<Rightarrow> True
   | Return (Inr (node', s, bl)) \<Rightarrow>
       approved J evs node' s \<and> nd_addr node' = nd_addr node \<and> length bl \<le> JOIN_BACKLOG_CAPACITY \<and> set bl \<subseteq> others J evs"
proof -
  let ?st = "\<lparr>jn_node = node, jn_section_key = key, jn_recipients = [(node_name (jo_crypto J) node, addr)],
    jn_used_recipient = [], jn_backlog = [], jn_sent = []\<rparr> :: 'a join_state"
  let ?r = "[(node_name (jo_crypto J) node, addr)]"
  show ?thesis
  proof (cases "request_with_key J key ?r ?st :: ('a join_state, 'a join_result) progress")
    case (Continue st)
    then obtain sent where "st = ?st\<lparr>jn_sent := sent\<rparr>"
      unfolding request_with_key_def by (auto dest!: send_join_requests_Continue)
    then have st: "jn_backlog st = []" "jn_node st = node" by simp_all
    then show ?thesis
      using join_loop_result [of st J evs draws] Continue unfolding join_run_def join_with_def
      by (auto split: progress.splits sum.splits)
  next
    case (Return r)
    then show ?thesis
      by (cases r) (simp_all add: join_run_def join_with_def request_with_key_def send_join_requests_Return)
  next
    case Searching
    then show ?thesis by (simp add: join_run_def join_with_def)
  next
    case Panicked
    then show ?thesis by (simp add: request_with_key_def send_join_requests_nonempty)
  qed
qed

text \<open>C32. Joining never panics and, when the channel closes, has ended. If it ends with success,
  the events contained an approval with a valid signature for the name the node has then (at
  its own address), from which the section was built: its authority is signed with the last
  key of its chain. The backlog returned has at most 100 messages, all of them received and none
  of them a join response.\<close>

theorem join_ends_approved:
  "case join_run J key draws evs node addr of
     Continue _ \<Rightarrow> False
   | Panicked \<Rightarrow> False
   | Searching \<Rightarrow> True
   | Return (Inl _) \<Rightarrow> True
   | Return (Inr (node', s, bl)) \<Rightarrow>
       section_inv (jo_env J) s \<and> approved J evs node' s \<and> nd_addr node' = nd_addr node \<and> length bl \<le> 100 \<and>
       set bl \<subseteq> others J evs"
  using join_run_result [where J = J and key = key and draws = draws and evs = evs and node = node and addr = addr]
  by (auto simp: JOIN_BACKLOG_CAPACITY_def split: progress.splits sum.splits dest: approved_inv)

end
