(* ===== verification/Bootstrap_Relocate.thy ===== *)
theory Bootstrap_Relocate
  imports Bootstrap_Join Relocation
begin

text \<open>
  Joining another section as a relocated node: \<open>src/routing/bootstrap/relocate.rs\<close>. The
  messages that the node forwards to the relocation until it drops the channel are a list.
\<close>

section \<open>Definitions\<close>

record 'c rejoin_state =
  rj_node :: node
  rj_section_key :: bls_public_key
  rj_recipients :: "(xor_name \<times> socket_addr) list"
  rj_used_recipient :: "socket_addr list"
  rj_payload :: "'c relocate_payload option"
  rj_sent :: "('c message_type \<times> (xor_name \<times> socket_addr) list) list"

type_synonym 'c rejoin_result = "node \<times> 'c section_state"

definition rejoin_send_requests ::
  "'c join_ops \<Rightarrow> 'c relocate_payload option \<Rightarrow> (xor_name \<times> socket_addr) list \<Rightarrow> bls_public_key \<Rightarrow> 'c rejoin_state
    \<Rightarrow> ('c rejoin_state, 'r) progress" where
  "rejoin_send_requests J payload recipients key st =
     (case single_src (jo_crypto J) (rj_node st) DirectAndUnrouted (JoinAsRelocatedRequest key payload) key of
        Inl e \<Rightarrow> Return (Inl e)
      | Inr message \<Rightarrow>
          (case recipients of
             [] \<Rightarrow> Panicked
           | (name, _) # _ \<Rightarrow>
               Continue (st\<lparr>rj_sent := rj_sent st @
                 [(RoutingType \<lparr>di_dest = Dest name, di_section_pk = key\<rparr> message, recipients)]\<rparr>)))"

definition EXTRA_SPLIT_COUNT :: nat where
  "EXTRA_SPLIT_COUNT = 3"

text \<open>\<open>None\<close> while no key pair with a fitting name has been drawn.\<close>

definition build_relocation_payload ::
  "'c join_ops \<Rightarrow> keypair list \<Rightarrow> pfx \<Rightarrow> 'c routing_msg \<Rightarrow> node \<Rightarrow> (error + 'c relocate_payload \<times> node) option" where
  "build_relocation_payload J draws p relocate_details node =
     (case signed_relocate_destination relocate_details of
        Inl e \<Rightarrow> Some (Inl e)
      | Inr destination \<Rightarrow>
          let name_prefix = jo_prefix_new J (pf_bit_count (jo_xor J) p + EXTRA_SPLIT_COUNT) destination
          in case signed_relocate_details relocate_details of
               Inl e \<Rightarrow> Some (Inl e)
             | Inr details \<Rightarrow>
                 map_option (\<lambda>new_keypair.
                   let new_name = name_from_public_key (jo_crypto J) (kp_public new_keypair);
                       payload = relocate_payload_new (jo_crypto J) relocate_details new_name (nd_keypair node)
                   in Inr (payload, node_new new_keypair (nd_addr node)))
                 (gen_keypair (jo_crypto J) (jo_range_inclusive J name_prefix) (rd_age details) draws))"

definition rejoin_response_ok ::
  "'c join_ops \<Rightarrow> bls_public_key \<Rightarrow> 'c relocate_payload option \<Rightarrow> xor_name \<Rightarrow> xor_name \<Rightarrow> 'c routing_msg
    \<Rightarrow> 'c join_as_relocated_response \<Rightarrow> error + bool" where
  "rejoin_response_ok J expected_genesis_key payload destination our_name msg response =
     (case response of
        RelocatedNodeNotReachable _ \<Rightarrow> Inr True
      | RelocatedRetry section_auth \<Rightarrow>
          Inr (pf_matches (jo_xor J) (sa_prefix section_auth) destination \<and> sa_elders section_auth \<noteq> [] \<and>
               bootstrap_verify_message (jo_env J) msg None)
      | RelocatedRedirect section_auth \<Rightarrow>
          Inr (pf_matches (jo_xor J) (sa_prefix section_auth) destination \<and> sa_elders section_auth \<noteq> [] \<and>
               bootstrap_verify_message (jo_env J) msg None)
      | RelocatedApproval _ member_info section_chain \<Rightarrow>
          if peer_name (ns_peer (ss_value member_info)) \<noteq> our_name then Inr False
          else if expected_genesis_key \<noteq> sll_root_key (ev_chain (jo_env J)) section_chain then Inr False
          else and_then (case payload of
                           Some payload \<Rightarrow> and_then (relocate_payload_details payload) (\<lambda>d. Inr (Some (rd_destination_key d)))
                         | None \<Rightarrow> Inr None) (\<lambda>trusted_key.
               Inr (bootstrap_verify_message (jo_env J) msg trusted_key)))"

fun rejoin_receive_loop ::
  "'c join_ops \<Rightarrow> bls_public_key \<Rightarrow> 'c relocate_payload option \<Rightarrow> xor_name \<Rightarrow> xor_name \<Rightarrow> ('c routing_msg \<times> socket_addr) list
    \<Rightarrow> (error + 'c join_as_relocated_response \<times> socket_addr) \<times> ('c routing_msg \<times> socket_addr) list" where
  "rejoin_receive_loop J genesis payload destination our_name [] = (Inl InvalidState, [])"
| "rejoin_receive_loop J genesis payload destination our_name ((msg, sender) # msgs) =
     (case msg_variant msg of
        JoinAsRelocatedResponse response \<Rightarrow>
          (case rejoin_response_ok J genesis payload destination our_name msg response of
             Inl e \<Rightarrow> (Inl e, msgs)
           | Inr True \<Rightarrow> (Inr (response, sender), msgs)
           | Inr False \<Rightarrow> rejoin_receive_loop J genesis payload destination our_name msgs)
      | _ \<Rightarrow> rejoin_receive_loop J genesis payload destination our_name msgs)"

definition rejoin_receive_response ::
  "'c join_ops \<Rightarrow> bls_public_key \<Rightarrow> 'c relocate_payload option \<Rightarrow> node \<Rightarrow> ('c routing_msg \<times> socket_addr) list
    \<Rightarrow> (error + 'c join_as_relocated_response \<times> socket_addr) \<times> ('c routing_msg \<times> socket_addr) list" where
  "rejoin_receive_response J genesis payload node msgs =
     (let our_name = node_name (jo_crypto J) node
      in case (case payload of
                 Some payload \<Rightarrow> signed_relocate_destination (pl_details payload)
               | None \<Rightarrow> Inr our_name) of
           Inl e \<Rightarrow> (Inl e, msgs)
         | Inr destination \<Rightarrow> rejoin_receive_loop J genesis payload destination our_name msgs)"

text \<open>The part that \<open>Retry\<close> and \<open>Redirect\<close> have in common.\<close>

definition rejoin_with ::
  "'c join_ops \<Rightarrow> join_draws \<Rightarrow> 'c routing_msg \<Rightarrow> section_auth \<Rightarrow> (xor_name \<times> socket_addr) list \<Rightarrow> 'c rejoin_state
    \<Rightarrow> ('c rejoin_state, 'r) progress" where
  "rejoin_with J d relocate_details section_auth new_recipients st =
     (case (case rj_payload st of
              Some payload \<Rightarrow> Some (Inr (payload, rj_node st))
            | None \<Rightarrow> build_relocation_payload J (jd_keypairs d) (sa_prefix section_auth) relocate_details (rj_node st)) of
        None \<Rightarrow> Searching
      | Some (Inl e) \<Rightarrow> Return (Inl e)
      | Some (Inr (payload, node)) \<Rightarrow>
          let key = section_key (jo_crypto J) section_auth
          in rejoin_send_requests J (Some payload) new_recipients key
               (st\<lparr>rj_node := node, rj_payload := Some payload, rj_section_key := key, rj_recipients := new_recipients\<rparr>))"

definition on_rejoin_response ::
  "'c join_ops \<Rightarrow> join_draws \<Rightarrow> bls_public_key \<Rightarrow> 'c routing_msg \<Rightarrow> 'c join_as_relocated_response \<Rightarrow> 'c rejoin_state
    \<Rightarrow> ('c rejoin_state, 'c rejoin_result) progress" where
  "on_rejoin_response J d genesis_key relocate_details response st =
     (case response of
        RelocatedApproval section_auth _ section_chain \<Rightarrow>
          Return (and_then (section_new (jo_env J) genesis_key section_chain section_auth) (\<lambda>section0.
                  Inr (rj_node st, section0)))
      | RelocatedRetry section_auth \<Rightarrow>
          if section_key (jo_crypto J) section_auth = rj_section_key st then Continue st
          else rejoin_with J d relocate_details section_auth (sa_elders section_auth) st
      | RelocatedRedirect section_auth \<Rightarrow>
          if section_key (jo_crypto J) section_auth = rj_section_key st then Continue st
          else let new_recipients = filter (\<lambda>(_, addr). addr \<notin> set (rj_used_recipient st)) (sa_elders section_auth)
               in if new_recipients = [] then Continue st
                  else rejoin_with J d relocate_details section_auth new_recipients st
      | RelocatedNodeNotReachable addr \<Rightarrow> Return (Inl (NodeNotReachable addr)))"

lemma rejoin_loop_shorter:
  "rejoin_receive_loop J g p dst our msgs = (Inr r, rest) \<Longrightarrow> length rest < length msgs"
  by (induction msgs)
    (auto split: variant.splits sum.splits bool.splits dest!: less_SucI)

lemma rejoin_receive_shorter:
  "rejoin_receive_response J g p node msgs = (Inr r, rest) \<Longrightarrow> length rest < length msgs"
  by (auto simp: rejoin_receive_response_def Let_def split: sum.splits dest!: rejoin_loop_shorter)

function rejoin_loop ::
  "'c join_ops \<Rightarrow> (nat \<Rightarrow> join_draws) \<Rightarrow> bls_public_key \<Rightarrow> 'c routing_msg \<Rightarrow> ('c routing_msg \<times> socket_addr) list \<Rightarrow> 'c rejoin_state
    \<Rightarrow> ('c rejoin_state, 'c rejoin_result) progress" where
  "rejoin_loop J draws genesis_key relocate_details msgs st =
     (let st = st\<lparr>rj_used_recipient := rj_used_recipient st @ map snd (rj_recipients st)\<rparr>
      in case rejoin_receive_response J genesis_key (rj_payload st) (rj_node st) msgs of
           (Inl e, rest) \<Rightarrow> Return (Inl e)
         | (Inr (response, sender), rest) \<Rightarrow>
             (case on_rejoin_response J (draws 0) genesis_key relocate_details response st of
                Continue st' \<Rightarrow> rejoin_loop J (\<lambda>n. draws (Suc n)) genesis_key relocate_details rest st'
              | result \<Rightarrow> result))"
  by pat_completeness auto
termination
  by (relation "measure (\<lambda>(_, _, _, _, msgs, _). length msgs)") (auto dest!: rejoin_receive_shorter [OF sym])

declare rejoin_loop.simps [simp del]

definition rejoin_run ::
  "'c join_ops \<Rightarrow> (nat \<Rightarrow> join_draws) \<Rightarrow> ('c routing_msg \<times> socket_addr) list \<Rightarrow> node \<Rightarrow> socket_addr list \<Rightarrow> bls_public_key
    \<Rightarrow> 'c routing_msg \<Rightarrow> ('c rejoin_state, 'c rejoin_result) progress" where
  "rejoin_run J draws msgs node bootstrap_addrs genesis_key relocate_details =
     (case signed_relocate_destination_key relocate_details of
        Inl e \<Rightarrow> Return (Inl e)
      | Inr key \<Rightarrow>
          (case signed_relocate_destination relocate_details of
             Inl e \<Rightarrow> Return (Inl e)
           | Inr dest_xorname \<Rightarrow>
               let recipients = map (\<lambda>addr. (dest_xorname, addr)) bootstrap_addrs
               in case rejoin_send_requests J None recipients key
                         \<lparr>rj_node = node, rj_section_key = key, rj_recipients = recipients, rj_used_recipient = [],
                          rj_payload = None, rj_sent = []\<rparr> of
                    Continue st \<Rightarrow> rejoin_loop J draws genesis_key relocate_details msgs st
                  | result \<Rightarrow> result))"

section \<open>A finished relocation\<close>

lemma rejoin_with_not_done: "rejoin_with J d details sa rs st \<noteq> Return (Inr result)"
  by (auto simp: rejoin_with_def rejoin_send_requests_def Let_def split: option.splits sum.splits list.splits)

lemma rejoin_loop_done:
  assumes "rejoin_loop J draws genesis_key details msgs st = Return (Inr (node, s))"
  shows "\<exists>chain sa. section_new (jo_env J) genesis_key chain sa = Inr s"
  using assms
proof (induction J draws genesis_key details msgs st rule: rejoin_loop.induct)
  case (1 J draws genesis_key details msgs st)
  let ?st = "st\<lparr>rj_used_recipient := rj_used_recipient st @ map snd (rj_recipients st)\<rparr>"
  obtain r rest where r: "rejoin_receive_response J genesis_key (rj_payload ?st) (rj_node ?st) msgs = (r, rest)"
    by fastforce
  then obtain response sender where resp: "r = Inr (response, sender)"
    using 1(2) by (cases r) (auto simp: rejoin_loop.simps [of J draws])
  show ?case
  proof (cases "on_rejoin_response J (draws 0) genesis_key details response ?st")
    case (Continue st')
    then show ?thesis using 1 r resp by (simp add: rejoin_loop.simps [of J draws])
  next
    case (Return x)
    then have "x = Inr (node, s)" using 1(2) r resp by (simp add: rejoin_loop.simps [of J draws])
    then show ?thesis
      using Return
      by (auto simp: on_rejoin_response_def Let_def and_then_def rejoin_with_not_done
          split: join_as_relocated_response.splits sum.splits if_splits)
  qed (use 1(2) r resp in \<open>simp_all add: rejoin_loop.simps [of J draws]\<close>)
qed

lemma rejoin_run_done:
  "rejoin_run J draws msgs node0 addrs genesis_key details = Return (Inr (node, s)) \<Longrightarrow>
    \<exists>chain sa. section_new (jo_env J) genesis_key chain sa = Inr s"
  by (auto simp: rejoin_run_def rejoin_send_requests_def Let_def
      split: sum.splits progress.splits list.splits dest!: rejoin_loop_done)

text \<open>Only an approval ends it.\<close>

definition is_relocated_approval :: "'c routing_msg \<Rightarrow> bool" where
  "is_relocated_approval msg =
     (case msg_variant msg of JoinAsRelocatedResponse (RelocatedApproval _ _ _) \<Rightarrow> True | _ \<Rightarrow> False)"

lemma rejoin_receive_loop_from:
  "rejoin_receive_loop J g p dst our msgs = (Inr (response, sender), rest) \<Longrightarrow>
    \<exists>msg. (msg, sender) \<in> set msgs \<and> msg_variant msg = JoinAsRelocatedResponse response \<and> set rest \<subseteq> set msgs"
  by (induction msgs) (fastforce split: variant.splits sum.splits bool.splits)+

lemma rejoin_receive_response_from:
  "rejoin_receive_response J g p node msgs = (Inr (response, sender), rest) \<Longrightarrow>
    \<exists>msg. (msg, sender) \<in> set msgs \<and> msg_variant msg = JoinAsRelocatedResponse response \<and> set rest \<subseteq> set msgs"
  by (auto simp: rejoin_receive_response_def Let_def split: sum.splits dest!: rejoin_receive_loop_from)

lemma rejoin_loop_approval:
  assumes "list_all (\<lambda>(m, _). \<not> is_relocated_approval m) msgs"
  shows "rejoin_loop J draws genesis_key details msgs st \<noteq> Return (Inr result)"
  using assms
proof (induction J draws genesis_key details msgs st rule: rejoin_loop.induct)
  case (1 J draws genesis_key details msgs st)
  let ?st = "st\<lparr>rj_used_recipient := rj_used_recipient st @ map snd (rj_recipients st)\<rparr>"
  obtain r rest where r: "rejoin_receive_response J genesis_key (rj_payload ?st) (rj_node ?st) msgs = (r, rest)"
    by fastforce
  show ?case
  proof (cases r)
    case (Inr x)
    obtain response sender where x: "x = (response, sender)" by (cases x)
    note from_msg = rejoin_receive_response_from [OF r [unfolded Inr x]]
    have rest: "list_all (\<lambda>(m, _). \<not> is_relocated_approval m) rest" using from_msg 1(2) by (auto simp: list_all_iff)
    have no: "response \<noteq> RelocatedApproval sa ns ch" for sa ns ch
      using from_msg 1(2) by (fastforce simp: list_all_iff is_relocated_approval_def)
    have "on_rejoin_response J (draws 0) genesis_key details response ?st \<noteq> Return (Inr result)"
      using no by (auto simp: on_rejoin_response_def Let_def rejoin_with_not_done split: join_as_relocated_response.splits)
    then show ?thesis
      using 1(1) [OF refl r [symmetric] Inr x [symmetric]] rest r Inr x
      by (auto simp: rejoin_loop.simps [of J draws] split: progress.splits)
  qed (use r in \<open>simp add: rejoin_loop.simps [of J draws]\<close>)
qed

lemma rejoin_run_approval:
  "list_all (\<lambda>(m, _). \<not> is_relocated_approval m) msgs \<Longrightarrow>
    rejoin_run J draws msgs node addrs genesis_key details \<noteq> Return (Inr result)"
  using rejoin_loop_approval [where result = result]
  by (auto simp: rejoin_run_def rejoin_send_requests_def Let_def split: sum.splits progress.splits list.splits)

end
