(* ===== verification/Dispatcher.thy ===== *)
theory Dispatcher
  imports Core_Handling Bootstrap_Relocate
begin

text \<open>
  The execution of commands (\<open>src/routing/dispatcher.rs\<close>) and the interface of the node
  (\<open>src/routing/mod.rs\<close>). The handlers run under the lock of the core, so each is one step;
  the commands they return are spawned and run in any order. What the network answers while a
  command runs is the argument \<open>world\<close>. A relocation runs beside the other commands: it
  reads the node when it starts and replaces the core when it ends.
\<close>

section \<open>Parameters\<close>

record ('c, 'a, 'd) node_ops =
  no_kit :: "('c, 'a, 'd) kit"
  no_wire :: "'c wire_ops"
  no_join :: "'c join_ops"

record 'c world =
  wd_arrivals :: arrivals
  wd_reachable :: "socket_addr \<Rightarrow> bool"
  wd_completions :: "nat \<Rightarrow> completion"
  wd_existing :: "nat \<Rightarrow> transport_error + unit"
  wd_cancelled :: bool
  wd_draws :: "nat \<Rightarrow> join_draws"
  wd_forwarded :: "('c routing_msg \<times> socket_addr) list"

section \<open>Commands\<close>

text \<open>The answer to a first join request from an address that cannot be reached.\<close>

definition unreachable_variant :: "'c world \<Rightarrow> socket_addr option \<Rightarrow> 'c routing_msg \<Rightarrow> (socket_addr \<times> 'c variant) option" where
  "unreachable_variant w sender message =
     (case sender of
        None \<Rightarrow> None
      | Some addr \<Rightarrow>
          (case msg_variant message of
             JoinRequest req \<Rightarrow>
               if jr_resource_proof_response req = None \<and> \<not> wd_reachable w addr
               then Some (addr, JoinResponse (Rejected (NodeNotReachableReason addr))) else None
           | JoinAsRelocatedRequest _ payload \<Rightarrow>
               if payload = None \<and> \<not> wd_reachable w addr
               then Some (addr, JoinAsRelocatedResponse (RelocatedNodeNotReachable addr)) else None
           | _ \<Rightarrow> None))"

definition dispatch_message ::
  "('c, 'a, 'd) kit \<Rightarrow> 'c world \<Rightarrow> socket_addr option \<Rightarrow> 'c routing_msg \<Rightarrow> dest_info \<Rightarrow> (('c, 'a, 'd) core, error, 'c command list) comp" where
  "dispatch_message K w sender message dest_info s =
     (case (unreachable_variant w sender message, msg_src message) of
        (Some (addr, variant), NodeAuth public_key _) \<Rightarrow>
          (and_then (send_direct_message K s (name_from_public_key (kt_crypto K) public_key, addr) variant (core_last_key K s))
             (\<lambda>c. Inr [c]), s)
      | _ \<Rightarrow> handle_message K (wd_arrivals w) sender message dest_info s)"

fun send_to_clients ::
  "'c wire_ops \<Rightarrow> (nat \<Rightarrow> transport_error + unit) \<Rightarrow> 'c message_type \<Rightarrow> (xor_name \<times> socket_addr) list
    \<Rightarrow> ('c, 'a, 'd) core \<Rightarrow> ('c, 'a, 'd) core" where
  "send_to_clients W outcomes message [] s = s"
| "send_to_clients W outcomes message (recipient # recipients) s =
     send_to_clients W (\<lambda>n. outcomes (Suc n)) message recipients
       (if is_ok (send_on_existing_connection W (outcomes 0) recipient message) then s
        else send_event (ClientLost (snd recipient)) s)"

definition dispatcher_send_message ::
  "'c wire_ops \<Rightarrow> 'c world \<Rightarrow> (xor_name \<times> socket_addr) list \<Rightarrow> nat \<Rightarrow> 'c message_type
    \<Rightarrow> (('c, 'a, 'd) core, error, 'c command list) comp" where
  "dispatcher_send_message W w recipients delivery_group_size message s =
     (case message of
        ClientType _ _ \<Rightarrow> (Inr [], send_to_clients W (wd_existing w) message recipients s)
      | SectionInfoType _ _ \<Rightarrow> (Inr [], s)
      | _ \<Rightarrow>
          (and_then (comm_send W (wd_completions w) recipients delivery_group_size message) (\<lambda>status.
             Inr (case status of
                    MinDeliveryGroupSizeReached failed \<Rightarrow> map HandlePeerLost failed
                  | MinDeliveryGroupSizeFailed failed \<Rightarrow> map HandlePeerLost failed
                  | AllRecipients \<Rightarrow> [])), s))"

definition handle_schedule_timeout :: "'c world \<Rightarrow> nat \<Rightarrow> u64 \<Rightarrow> 'c command option" where
  "handle_schedule_timeout w duration token = (if wd_cancelled w then None else Some (HandleTimeout token))"

definition start_connectivity_test ::
  "('c, 'a, 'd) kit \<Rightarrow> ('c, 'a, 'd) core \<Rightarrow> xor_name \<Rightarrow> error + 'c command list" where
  "start_connectivity_test K s name =
     and_then (single_src (kt_crypto K) (co_node s) (DstSection (core_name K s)) (StartConnectivityTest name) (core_last_key K s))
       (\<lambda>msg. Inr (send_or_handle K s msg
          (filter (\<lambda>peer. peer_name peer \<noteq> name \<and> peer_name peer \<noteq> core_name K s) (active_members (co_section s)))))"

definition test_connectivity :: "'c world \<Rightarrow> ('c, 'a, 'd) core \<Rightarrow> xor_name \<Rightarrow> 'c command list" where
  "test_connectivity w s name =
     (case peers_get (sec_members (co_section s)) name of
        Some info \<Rightarrow> if wd_reachable w (peer_addr (ns_peer info)) then [] else [ProposeOffline (peer_name (ns_peer info))]
      | None \<Rightarrow> [])"

text \<open>The end of a relocation: \<open>None\<close> when it has not returned. The events and the messages
  forwarded so far stay on their channels.\<close>

definition dispatcher_handle_relocate ::
  "('c, 'a, 'd) node_ops \<Rightarrow> (nat \<Rightarrow> join_draws) \<Rightarrow> ('c routing_msg \<times> socket_addr) list \<Rightarrow> bls_public_key \<Rightarrow> node
    \<Rightarrow> socket_addr list \<Rightarrow> 'c routing_msg \<Rightarrow> ('c, 'a, 'd) core \<Rightarrow> ((error + 'c command list) \<times> ('c, 'a, 'd) core) option" where
  "dispatcher_handle_relocate N draws msgs genesis_key node bootstrap_addrs details s =
     (let previous_name = node_name (kt_crypto (no_kit N)) node
      in case rejoin_run (no_join N) draws msgs node bootstrap_addrs genesis_key details of
           Return (Inl e) \<Rightarrow> Some (Inl e, s)
         | Return (Inr (new_node, section0)) \<Rightarrow>
             Some (Inr [], send_event (RelocatedEvent previous_name (nd_keypair new_node))
               ((core_new (no_kit N) new_node section0 None)\<lparr>co_events := co_events s, co_forwarded := co_forwarded s\<rparr>))
         | _ \<Rightarrow> None)"

definition try_handle_command ::
  "('c, 'a, 'd) node_ops \<Rightarrow> 'c world \<Rightarrow> 'c command \<Rightarrow> ('c, 'a, 'd) core
    \<Rightarrow> ((error + 'c command list) \<times> ('c, 'a, 'd) core) option" where
  "try_handle_command N w command s =
     (let K = no_kit N
      in case command of
           HandleMessage sender message dest_info \<Rightarrow> Some (dispatch_message K w sender message dest_info s)
         | HandleSectionInfoMsg sender message dest_info \<Rightarrow>
             Some (Inr (handle_section_info_msg K s sender message dest_info), s)
         | HandleTimeout token \<Rightarrow> Some (core_handle_timeout K token s)
         | HandleAgreement proposal sg \<Rightarrow> Some (handle_agreement K proposal sg s)
         | HandleConnectionLost addr \<Rightarrow> Some (handle_connection_lost s addr, s)
         | HandlePeerLost addr \<Rightarrow> Some (handle_peer_lost K s addr, s)
         | HandleDkgOutcome section_auth outcome \<Rightarrow> Some (handle_dkg_outcome K section_auth outcome s)
         | HandleDkgFailure signeds \<Rightarrow> Some (and_then (handle_dkg_failure K s signeds) (\<lambda>c. Inr [c]), s)
         | SendMessage recipients delivery_group_size message \<Rightarrow>
             Some (dispatcher_send_message (no_wire N) w recipients delivery_group_size message s)
         | SendUserMessage itinerary content _ \<Rightarrow>
             Some (send_user_message K (ar_clocks (wd_arrivals w)) itinerary content s)
         | ScheduleTimeout duration token \<Rightarrow>
             Some (Inr (case handle_schedule_timeout w duration token of None \<Rightarrow> [] | Some c \<Rightarrow> [c]), s)
         | RelocateCommand bootstrap_addrs details _ \<Rightarrow>
             dispatcher_handle_relocate N (wd_draws w) (wd_forwarded w) (sec_genesis_key (co_section s)) (co_node s)
               bootstrap_addrs details s
         | SetJoinsAllowed joins_allowed \<Rightarrow> Some (set_joins_allowed K s joins_allowed, s)
         | ProposeOnline peer previous_name destination_key \<Rightarrow>
             Some (make_online_proposal K s (set_reachable True peer) previous_name destination_key, s)
         | ProposeOffline name \<Rightarrow> Some (propose_offline K s name, s)
         | StartConnectivityTestCommand name \<Rightarrow> Some (start_connectivity_test K s name, s)
         | TestConnectivity name \<Rightarrow> Some (Inr (test_connectivity w s name), s))"

section \<open>The interface of the node\<close>

text \<open>A message from the wire: \<open>None\<close> is the panic on messages that are not implemented.\<close>

definition routing_handle_message ::
  "('c, 'a, 'd) node_ops \<Rightarrow> clock \<Rightarrow> bytes \<Rightarrow> socket_addr \<Rightarrow> ('c, 'a, 'd) core \<Rightarrow> ('c command list \<times> ('c, 'a, 'd) core) option" where
  "routing_handle_message N t bytes sender s =
     (case wo_header (no_wire N) bytes of
        Inl _ \<Rightarrow> Some ([], s)
      | Inr (mid, is_join_request) \<Rightarrow>
          let (new, s1) = add_to_filter t is_join_request mid s
          in if \<not> new then Some ([], s1)
             else case wo_to_message (no_wire N) bytes of
                    Inl _ \<Rightarrow> Some ([], s1)
                  | Inr (SectionInfoType dest_info msg) \<Rightarrow> Some ([HandleSectionInfoMsg sender msg dest_info], s1)
                  | Inr (RoutingType dest_info msg) \<Rightarrow>
                      Some (if is_ok (check_signature (kt_crypto (no_kit N)) msg)
                            then [HandleMessage (Some sender) msg dest_info] else [], s1)
                  | Inr (NodeType _) \<Rightarrow> None
                  | Inr (ClientType _ msg) \<Rightarrow>
                      (case core_get_enduser_by_addr s1 sender of
                         Some user \<Rightarrow> Some ([], send_event (ClientMsgReceived msg user) s1)
                       | None \<Rightarrow>
                           (case core_try_add (no_kit N) s1 sender of
                              (Inl _, s2) \<Rightarrow> Some ([], s2)
                            | (Inr user, s2) \<Rightarrow> Some ([], send_event (ClientMsgReceived msg user) s2))))"

definition handle_connection_event ::
  "('c, 'a, 'd) node_ops \<Rightarrow> clock \<Rightarrow> connection_event \<Rightarrow> ('c, 'a, 'd) core \<Rightarrow> ('c command list \<times> ('c, 'a, 'd) core) option" where
  "handle_connection_event N t event s =
     (case event of
        Received src bytes \<Rightarrow> routing_handle_message N t bytes src s
      | Disconnected addr \<Rightarrow> Some ([HandleConnectionLost addr], s))"

datatype api_call =
    SetJoinsAllowedCall bool
  | ProposeOfflineCall xor_name
  | StartConnectivityTestCall xor_name
  | SendMessageCall itinerary bytes "bls_public_key option"

definition routing_send_message ::
  "('c, 'a, 'd) kit \<Rightarrow> ('c, 'a, 'd) core \<Rightarrow> itinerary \<Rightarrow> bytes \<Rightarrow> bls_public_key option \<Rightarrow> error + 'c command" where
  "routing_send_message K s it content additional_proof_chain_key =
     (let user_message = Inr (SendUserMessage it content additional_proof_chain_key)
      in case it_dst it of
           DstEndUser user \<Rightarrow>
             if pf_matches (kt_xor K) (sec_prefix (co_section s)) (eu_xorname user)
             then (case core_get_socket_addr s (eu_socket_id user) of
                     Some addr \<Rightarrow>
                       and_then (map_err Messaging (kt_client_msg K content)) (\<lambda>message.
                       Inr (SendMessage [(eu_xorname user, addr)] 1
                              (ClientType \<lparr>di_dest = Dest (eu_xorname user), di_section_pk = core_last_key K s\<rparr> message)))
                   | None \<Rightarrow> user_message)
             else user_message
         | _ \<Rightarrow> user_message)"

definition routing_call :: "('c, 'a, 'd) kit \<Rightarrow> ('c, 'a, 'd) core \<Rightarrow> api_call \<Rightarrow> error + 'c command" where
  "routing_call K s call =
     (case call of
        SetJoinsAllowedCall joins_allowed \<Rightarrow> Inr (SetJoinsAllowed joins_allowed)
      | ProposeOfflineCall name \<Rightarrow> if core_is_elder K s then Inr (ProposeOffline name) else Inl InvalidState
      | StartConnectivityTestCall name \<Rightarrow> Inr (StartConnectivityTestCommand name)
      | SendMessageCall it content key \<Rightarrow> routing_send_message K s it content key)"

text \<open>Queries. Those that return a field of the core are left out.\<close>

definition sign_as_node :: "('c, 'a, 'd) kit \<Rightarrow> ('c, 'a, 'd) core \<Rightarrow> bytes \<Rightarrow> ed_signature" where
  "sign_as_node K s data = ed_sign (kt_crypto K) (nd_keypair (co_node s)) data"

definition sign_as_elder ::
  "('c, 'a, 'd) kit \<Rightarrow> ('c, 'a, 'd) core \<Rightarrow> bytes \<Rightarrow> bls_public_key \<Rightarrow> error + signature_share" where
  "sign_as_elder K s data public_key = sign_with_section_key_share K s data public_key"

definition routing_verify :: "('c, 'a, 'd) kit \<Rightarrow> ('c, 'a, 'd) core \<Rightarrow> bytes \<Rightarrow> ed_signature \<Rightarrow> bool" where
  "routing_verify K s data signature = ed_verify (kt_crypto K) (kp_public (nd_keypair (co_node s))) data signature"

definition matches_our_prefix :: "('c, 'a, 'd) kit \<Rightarrow> ('c, 'a, 'd) core \<Rightarrow> xor_name \<Rightarrow> bool" where
  "matches_our_prefix K s name = pf_matches (kt_xor K) (sec_prefix (co_section s)) name"

definition our_elders :: "('c, 'a, 'd) core \<Rightarrow> peer list" where
  "our_elders s = sap_peers (authority_provider (co_section s))"

definition our_elders_sorted_by_distance_to :: "('c, 'a, 'd) kit \<Rightarrow> ('c, 'a, 'd) core \<Rightarrow> xor_name \<Rightarrow> peer list" where
  "our_elders_sorted_by_distance_to K s name =
     sort_by (\<lambda>lhs rhs. xn_cmp_distance (kt_xor K) name (peer_name lhs) (peer_name rhs)) (our_elders s)"

definition our_adults :: "('c, 'a, 'd) core \<Rightarrow> peer list" where
  "our_adults s = adults (co_section s)"

definition our_adults_sorted_by_distance_to :: "('c, 'a, 'd) kit \<Rightarrow> ('c, 'a, 'd) core \<Rightarrow> xor_name \<Rightarrow> peer list" where
  "our_adults_sorted_by_distance_to K s name =
     sort_by (\<lambda>lhs rhs. xn_cmp_distance (kt_xor K) name (peer_name lhs) (peer_name rhs)) (our_adults s)"

definition other_sections :: "('c, 'a, 'd) core \<Rightarrow> section_auth list" where
  "other_sections s = network_all (co_network s)"

lemma sign_as_node_verifies: "ed_laws (kt_crypto K) \<Longrightarrow> routing_verify K s data (sign_as_node K s data)"
  by (simp add: routing_verify_def sign_as_node_def ed_laws_def)

text \<open>The first node of a network, of age 255, and a node that has joined one. The key pairs
  drawn are an argument, with \<open>None\<close> when none of them has the wanted age.\<close>

definition routing_new_first ::
  "('c, 'a, 'd) node_ops \<Rightarrow> keypair list \<Rightarrow> socket_addr \<Rightarrow> public_key_set \<Rightarrow> secret_key_share \<Rightarrow> (error + ('c, 'a, 'd) core) option" where
  "routing_new_first N draws addr pks sks =
     map_option (\<lambda>keypair.
       and_then (core_first_node (no_kit N) pks sks (node_new keypair addr)) (\<lambda>s.
       Inr (send_event (EldersChanged
              \<lparr>el_prefix = sec_prefix (co_section s), el_key = core_last_key (no_kit N) s, el_remaining = [],
               el_added = sap_names (authority_provider (co_section s)), el_removed = []\<rparr> Promoted) s)))
     (gen_keypair (kt_crypto (no_kit N)) (jo_range_inclusive (no_join N) []) 255 draws)"

definition routing_new_joined ::
  "('c, 'a, 'd) node_ops \<Rightarrow> 'c join_result \<Rightarrow> ('c, 'a, 'd) core \<times> 'c command list" where
  "routing_new_joined N result =
     (let (node, section0, backlog) = result
      in (core_new (no_kit N) node section0 None,
          map (\<lambda>(message, sender, dest_info). HandleMessage (Some sender) message dest_info) backlog))"

end
