(* ===== verification/Node_System.thy ===== *)
theory Node_System
  imports Command_Flow Dispatcher
begin

text \<open>
  A running node as a state machine: its core, the commands that are spawned and not yet run,
  and the relocations that are running. A step runs one of the commands, starts or ends a
  relocation, handles a connection event, or is a call of the interface. The order is arbitrary,
  which covers every interleaving of the spawned tasks.
\<close>

section \<open>The state machine\<close>

record 'c relocation_task =
  rt_genesis_key :: bls_public_key
  rt_node :: node
  rt_bootstrap_addrs :: "socket_addr list"
  rt_details :: "'c routing_msg"

record ('c, 'a, 'd) system =
  sy_core :: "('c, 'a, 'd) core"
  sy_commands :: "'c command list"
  sy_relocations :: "'c relocation_task list"

inductive system_step :: "('c, 'a, 'd) node_ops \<Rightarrow> ('c, 'a, 'd) system \<Rightarrow> ('c, 'a, 'd) system \<Rightarrow> bool" for N where
  run_command: "sy_commands S = before @ c # after \<Longrightarrow> \<not> is_relocate c \<Longrightarrow>
    try_handle_command N w c (sy_core S) = Some (r, s') \<Longrightarrow>
    system_step N S (S\<lparr>sy_core := s', sy_commands := before @ after @ commands_of r\<rparr>)"
| start_relocation: "sy_commands S = before @ RelocateCommand addrs details channel # after \<Longrightarrow>
    system_step N S (S\<lparr>sy_commands := before @ after,
      sy_relocations := sy_relocations S @
        [\<lparr>rt_genesis_key = sec_genesis_key (co_section (sy_core S)), rt_node = co_node (sy_core S),
          rt_bootstrap_addrs = addrs, rt_details = details\<rparr>]\<rparr>)"
| end_relocation: "sy_relocations S = before @ task # after \<Longrightarrow>
    dispatcher_handle_relocate N draws msgs (rt_genesis_key task) (rt_node task) (rt_bootstrap_addrs task)
      (rt_details task) (sy_core S) = Some (r, s') \<Longrightarrow>
    system_step N S (S\<lparr>sy_core := s', sy_relocations := before @ after, sy_commands := sy_commands S @ commands_of r\<rparr>)"
| receive_event: "handle_connection_event N t event (sy_core S) = Some (commands, s') \<Longrightarrow>
    system_step N S (S\<lparr>sy_core := s', sy_commands := sy_commands S @ commands\<rparr>)"
| call_interface: "routing_call (no_kit N) (sy_core S) call = Inr c \<Longrightarrow>
    system_step N S (S\<lparr>sy_commands := sy_commands S @ [c]\<rparr>)"

inductive node_reachable :: "('c, 'a, 'd) node_ops \<Rightarrow> ('c, 'a, 'd) system \<Rightarrow> bool" for N where
  first_node: "routing_new_first N draws addr pks sks = Some (Inr s) \<Longrightarrow> share_of_set (kt_crypto (no_kit N)) pks sks \<Longrightarrow>
    node_reachable N \<lparr>sy_core = s, sy_commands = [], sy_relocations = []\<rparr>"
| joined_node: "join_run (no_join N) key draws evs node addr = Return (Inr result) \<Longrightarrow>
    routing_new_joined N result = (s, commands) \<Longrightarrow>
    node_reachable N \<lparr>sy_core = s, sy_commands = commands, sy_relocations = []\<rparr>"
| next_step: "node_reachable N S \<Longrightarrow> system_step N S S' \<Longrightarrow> node_reachable N S'"

inductive_cases system_stepE: "system_step N S S'"

section \<open>One step\<close>

lemma evolves_mono: "evolves go K s s' \<Longrightarrow> evolves True K s s'"
  by (auto simp: evolves_def relocation_moves_def)

lemma snd_bind_ret: "snd (bind m (\<lambda>x. ret (g x)) s) = snd (m s)"
  by (auto simp: bind_def ret_def split: prod.splits sum.splits)

lemma send_user_message_evolves [evolving]: "evolving_comp go K (send_user_message K ts it content)"
  by (rule evolvingI)
    (simp add: send_user_message_def Let_def snd_bind_ret evolvingD [OF relay_message_evolves]
      split: src_location.splits option.splits sum.splits)

lemma send_to_clients_evolves: "evolves go K s (send_to_clients W outcomes message recipients s)"
proof (induction recipients arbitrary: outcomes s)
  case (Cons r rs)
  have "evolves go K s (if ok then s else send_event (ClientLost (snd r)) s)" for ok by simp
  then show ?case using evolves_trans [OF _ Cons.IH] by (simp del: evolves_refl)
qed simp

lemma dispatcher_send_message_evolves: "evolves go K s (snd (dispatcher_send_message W w rs n m s))"
  by (cases m) (simp_all add: dispatcher_send_message_def send_to_clients_evolves)

lemma dispatcher_send_message_quiet: "quiet (fst (dispatcher_send_message W w rs n m s))"
proof -
  have "no_relocate (map HandlePeerLost failed)" for failed by (induction failed) auto
  then show ?thesis
    by (auto simp: dispatcher_send_message_def intro!: quiet_rules split: message_type.splits send_status.splits)
qed

lemma dispatch_message_step:
  assumes "kit_laws K"
  shows "evolves True K s (snd (dispatch_message K w sender m di s)) \<and> accounted s (dispatch_message K w sender m di s)"
proof -
  note h = evolvingD [OF handle_message_evolves [OF assms]] handle_message_accounted [OF assms]
  show ?thesis
    by (auto simp: dispatch_message_def h split: option.splits src_authority.splits
        intro!: accounted_pure quiet_singleton send_direct_message_quiet)
qed

lemma command_step:
  assumes "kit_laws (no_kit N)" "\<not> is_relocate c" "try_handle_command N w c s = Some result"
  shows "evolves True (no_kit N) s (snd result) \<and> accounted s result"
proof -
  let ?K = "no_kit N"
  note laws = assms(1)
  have comp: "evolves True ?K s (snd (m s)) \<and> accounted s (m s)"
    if "quiet_comp m" "evolving_comp False ?K m" for m
    using evolves_mono evolvingD [OF that(2)] accounted_comp [OF that] by blast
  have pure: "evolves True ?K s (snd (r, s)) \<and> accounted s (r, s)" if "quiet r" for r
    using that accounted_pure by simp
  have "evolves True ?K s (snd (dispatcher_send_message (no_wire N) w rs n m s)) \<and>
      accounted s (dispatcher_send_message (no_wire N) w rs n m s)" for rs n m
    using dispatcher_send_message_evolves accounted_quiet [OF dispatcher_send_message_quiet dispatcher_send_message_evolves]
    by blast
  moreover have "quiet (start_connectivity_test ?K s name)" for name
    unfolding start_connectivity_test_def by (intro quiet_rules) simp
  moreover have "no_relocate (test_connectivity w s name)" for name
    by (simp add: test_connectivity_def split: option.splits)
  ultimately show ?thesis
    using assms(2,3) dispatch_message_step [OF laws]
      comp [OF dkg_handlers_quiet(4) dkg_handlers_evolve(4)] comp [OF handle_agreement_quiet handle_agreement_evolves [OF laws]]
      comp [OF handle_dkg_results_quiet(1) handle_dkg_outcome_evolves] comp [OF send_user_message_quiet send_user_message_evolves]
      pure [OF connectivity_quiet(3)] pure [OF connectivity_quiet(4)] pure [OF connectivity_quiet(2)]
      pure [OF quiet_singleton [OF handle_dkg_results_quiet(2)]] pure [OF joins_allowed_quiet(2)]
      pure [OF joins_allowed_quiet(3)]
    by (cases c) (auto simp: try_handle_command_def Let_def pure section_info_quiet handle_schedule_timeout_def)
qed

lemma add_to_filter_evolves: "evolves go K s (snd (add_to_filter t join mid s))"
  by (simp add: add_to_filter_def Let_def split_beta)

lemma core_try_add_evolves: "evolves go K s (snd (core_try_add K s sender))"
  by (auto simp: core_try_add_def Let_def split_beta evolves_def relocation_moves_def in_progress_def end_user_try_add_inv)

lemma connection_event_step:
  assumes "handle_connection_event N t event s = Some (commands, s')"
  shows "evolves False (no_kit N) s s' \<and> no_relocate commands"
proof (cases event)
  case (Received src bytes)
  let ?K = "no_kit N"
  have received: "routing_handle_message N t bytes src s = Some (commands, s')" using assms Received
    by (simp add: handle_connection_event_def)
  have msg: "evolves False ?K s1 (send_event (ClientMsgReceived m user) s1)" for m user s1 by simp
  have new: "evolves False ?K s s1" if "add_to_filter t j mid s = (new, s1)" for j mid new s1
    using add_to_filter_evolves [of False ?K s t j mid] that by simp
  have add: "evolves False ?K s s2"
    if "add_to_filter t j mid s = (new, s1)" "core_try_add ?K s1 src = (r, s2)" for j mid new s1 s2 r
    using evolves_trans [OF new [OF that(1)] core_try_add_evolves, of src] that(2) by simp
  show ?thesis
    using received unfolding routing_handle_message_def
    by (auto split: sum.splits prod.splits if_splits message_type.splits option.splits
        dest: new add intro: evolves_trans [OF new msg] evolves_trans [OF add msg])
next
  case (Disconnected addr)
  then show ?thesis using assms by (auto simp: handle_connection_event_def)
qed

lemma routing_call_quiet: "quiet_one (routing_call K s call)"
  by (cases call)
    (auto simp: routing_call_def routing_send_message_def Let_def intro!: quiet_rules split: dst_location.splits option.splits)

section \<open>The invariant\<close>

definition announcements :: "('c, 'a, 'd) core \<Rightarrow> bool" where
  "announcements s \<longleftrightarrow>
     length (filter is_started (co_events s)) =
       length (filter is_relocated (co_events s)) + (if co_relocate_state s = None then 0 else 1) \<and>
     RestartRequired \<notin> set (co_events s)"

definition core_inv :: "('c, 'a, 'd) kit \<Rightarrow> ('c, 'a, 'd) core \<Rightarrow> bool" where
  "core_inv K s \<longleftrightarrow>
     section_reachable (kt_env K) (co_section s) \<and> section_inv (kt_env K) (co_section s) \<and>
     keys_inv (kt_crypto K) (co_section_keys_provider s) \<and>
     barrier_inv (kt_xor K) (co_split_barrier s) \<and> registry_inv (kt_env K) (co_end_users s) \<and>
     network_signed (kt_crypto K) (co_network s) \<and>
     (dkg_step (kt_dkg K) (nd_keypair (co_node s)))\<^sup>*\<^sup>* (dg_default (kt_dkg K)) (co_dkg_voter s)"

definition system_inv :: "('c, 'a, 'd) node_ops \<Rightarrow> ('c, 'a, 'd) system \<Rightarrow> bool" where
  "system_inv N S \<longleftrightarrow>
     core_inv (no_kit N) (sy_core S) \<and> announcements (sy_core S) \<and>
     relocations (sy_commands S) + length (sy_relocations S) \<le> (if in_progress (sy_core S) then 1 else 0)"

definition node_laws :: "('c, 'a, 'd) node_ops \<Rightarrow> bool" where
  "node_laws N \<longleftrightarrow>
     kit_laws (no_kit N) \<and> chain_laws (kt_chain (no_kit N)) \<and> jo_env (no_join N) = kt_env (no_kit N)"

lemma section_steps_reachable:
  "(section_step E)\<^sup>*\<^sup>* s s' \<Longrightarrow> section_reachable E s \<Longrightarrow> section_reachable E s'"
  by (induction rule: rtranclp_induct) (auto intro: reach_step)

lemma section_steps_inv:
  "(section_step E)\<^sup>*\<^sup>* s s' \<Longrightarrow> chain_laws (ev_chain E) \<Longrightarrow> section_inv E s \<Longrightarrow> section_inv E s'"
  by (induction rule: rtranclp_induct) (auto dest: section_step_inv)

lemma evolves_core_inv:
  assumes "chain_laws (kt_chain K)" "evolves go K s s'" "core_inv K s"
  shows "core_inv K s'"
proof -
  from assms(2) have steps: "(section_step (kt_env K))\<^sup>*\<^sup>* (co_section s) (co_section s')" by (simp add: evolves_def)
  then show ?thesis
    using assms section_steps_reachable [OF steps] section_steps_inv [OF steps]
    by (auto simp: evolves_def core_inv_def intro: rtranclp_trans)
qed

lemma evolves_announcements:
  assumes "evolves go K s s'" "announcements s"
  shows "announcements s'"
proof -
  from assms(1) have moves: "relocation_moves go s s'" by (simp add: evolves_def)
  then have "co_relocate_state s' = None \<longrightarrow> co_relocate_state s = None"
    unfolding relocation_moves_def by (metis le_zero_eq reloc_rank_None)
  then show ?thesis using moves assms(2) by (auto simp: relocation_moves_def announcements_def)
qed

lemma evolves_progress_mono: "evolves go K s s' \<Longrightarrow> in_progress s \<Longrightarrow> in_progress s'"
  using reloc_rank_le [of "co_relocate_state s'"] by (auto simp: evolves_def relocation_moves_def in_progress_def)

lemma core_new_inv:
  assumes "kit_laws K" "section_reachable (kt_env K) sec" "section_inv (kt_env K) sec"
  shows "core_inv K (core_new K node sec share)"
  using assms
  by (simp add: core_inv_def core_new_def keys_new_inv barrier_inv_def split_barrier_new_def registry_inv_def
      end_user_registry_new_def get_enduser_by_addr_def get_socket_addr_def)

lemma core_inv_other_fields [simp]:
  "core_inv K (s\<lparr>co_events := evs\<rparr>) = core_inv K s" "core_inv K (s\<lparr>co_forwarded := fw\<rparr>) = core_inv K s"
  "core_inv K (send_event e s) = core_inv K s"
  by (simp_all add: core_inv_def send_event_def)

lemma relocation_end:
  assumes "dispatcher_handle_relocate N draws msgs key node addrs details s = Some (r, s')"
  obtains e where "r = Inl e" "s' = s"
  | node' sec chain sa name where "section_new (jo_env (no_join N)) key chain sa = Inr sec" "r = Inr []"
    "s' = send_event (RelocatedEvent name (nd_keypair node'))
       ((core_new (no_kit N) node' sec None)\<lparr>co_events := co_events s, co_forwarded := co_forwarded s\<rparr>)"
proof (cases "rejoin_run (no_join N) draws msgs node addrs key details")
  case (Return x)
  show thesis
  proof (cases x)
    case (Inl e)
    then show thesis using assms Return that(1) by (auto simp: dispatcher_handle_relocate_def)
  next
    case (Inr y)
    obtain node' sec where y: "y = (node', sec)" by (cases y)
    then obtain chain sa where "section_new (jo_env (no_join N)) key chain sa = Inr sec"
      using rejoin_run_done Return Inr by blast
    then show thesis using assms Return Inr y that(2) by (auto simp: dispatcher_handle_relocate_def)
  qed
qed (use assms in \<open>simp_all add: dispatcher_handle_relocate_def\<close>)

lemma new_announcements: "announcements (core_new K node sec share)" "\<not> in_progress (core_new K node sec share)"
  by (simp_all add: announcements_def core_new_def in_progress_def reloc_rank_def)

lemma relocated_announcements:
  assumes "announcements s" "in_progress s"
    and "s' = send_event (RelocatedEvent name kp) ((core_new K node sec None)\<lparr>co_events := co_events s, co_forwarded := fw\<rparr>)"
  shows "announcements s'" "\<not> in_progress s'"
  using assms
  by (auto simp: announcements_def core_new_def in_progress_def reloc_rank_def send_event_def split: option.splits)

lemma system_start:
  assumes "node_laws N"
  shows "routing_new_first N draws addr pks sks = Some (Inr s) \<Longrightarrow> share_of_set (kt_crypto (no_kit N)) pks sks \<Longrightarrow>
      core_inv (no_kit N) s \<and> announcements s \<and> \<not> in_progress s"
    and "join_run (no_join N) key jdraws evs node jaddr = Return (Inr result) \<Longrightarrow>
      routing_new_joined N result = (s, commands) \<Longrightarrow>
      core_inv (no_kit N) s \<and> announcements s \<and> \<not> in_progress s \<and> no_relocate commands"
proof -
  let ?K = "no_kit N"
  from assms have laws: "kit_laws ?K" "jo_env (no_join N) = kt_env ?K" "chain_laws (kt_chain ?K)" by (simp_all add: node_laws_def)
  have event: "announcements (send_event (EldersChanged el ch) s0) = announcements s0"
    "in_progress (send_event e s0) = in_progress s0" for el ch e s0
    by (simp_all add: announcements_def send_event_def in_progress_def)
  have first: "core_inv ?K (core_new ?K node sec (Some share))"
    if "section_first_node (kt_env ?K) pks sks peer = Inr (sec, share)" "share_of_set (kt_crypto ?K) pks sks" for peer node sec share
    using core_new_inv [OF laws(1) reach_first_node [OF that(2,1)] first_node_inv [OF laws(3) that(2,1)]] .
  show "core_inv ?K s \<and> announcements s \<and> \<not> in_progress s"
    if "routing_new_first N draws addr pks sks = Some (Inr s)" "share_of_set (kt_crypto ?K) pks sks"
    using that
    by (auto simp: routing_new_first_def core_first_node_def and_then_def event new_announcements first split: sum.splits)
  show "core_inv ?K s \<and> announcements s \<and> \<not> in_progress s \<and> no_relocate commands"
    if run: "join_run (no_join N) key jdraws evs node jaddr = Return (Inr result)"
      and new: "routing_new_joined N result = (s, commands)"
  proof -
    obtain node' sec bl where result: "result = (node', sec, bl)" by (cases result)
    have "approved (no_join N) evs node' sec"
      using join_run_result [where J = "no_join N" and key = key and draws = jdraws and evs = evs and node = node and addr = jaddr]
        run result by simp
    then have "section_reachable (kt_env ?K) sec" "section_inv (kt_env ?K) sec"
      using approved_inv unfolding approved_def laws(2) by (metis reach_new section_new_inv)+
    then show ?thesis
      using new result laws(1) by (auto simp: routing_new_joined_def core_new_inv new_announcements no_relocate_def list_all_iff)
  qed
qed

lemma system_step_inv:
  assumes "node_laws N" "system_inv N S" "system_step N S S'"
  shows "system_inv N S'"
proof -
  from assms(1) have laws: "chain_laws (kt_chain (no_kit N))" by (simp add: node_laws_def)
  from assms(3) show ?thesis
  proof cases
    case (run_command before c after w r s')
    have "evolves True (no_kit N) (sy_core S) s' \<and> accounted (sy_core S) (r, s')"
      using command_step [OF _ run_command(3,4)] assms(1) by (simp add: node_laws_def)
    then show ?thesis
      using run_command(1,2,3) assms(2) evolves_core_inv [OF laws] evolves_announcements
        evolves_progress_mono [of True "no_kit N" "sy_core S" s']
      by (fastforce simp: system_inv_def accounted_def)
  next
    case (start_relocation before addrs details channel after)
    then show ?thesis using assms(2) by (simp add: system_inv_def)
  next
    case (end_relocation before task after draws msgs r s')
    then have running: "in_progress (sy_core S)" "before = []" "after = []" "relocations (sy_commands S) = 0"
      using assms(2) by (auto simp: system_inv_def split: if_splits)
    from end_relocation(3) show ?thesis
    proof (cases rule: relocation_end)
      case (1 e)
      then show ?thesis using end_relocation(1) running assms(2) by (simp add: system_inv_def commands_of_def)
    next
      case (2 node' sec chain sa name)
      then have "core_inv (no_kit N) s'"
        using assms(1) by (auto simp: node_laws_def intro!: core_new_inv intro: reach_new section_new_inv)
      then show ?thesis
        using relocated_announcements [OF _ running(1) 2(3)] 2(2) end_relocation(1) running assms(2)
        by (simp add: system_inv_def commands_of_def)
    qed
  next
    case (receive_event t event commands s')
    have step: "evolves False (no_kit N) (sy_core S) s'" "no_relocate commands"
      using connection_event_step [OF receive_event(2)] by simp_all
    then have "relocations commands = 0" by (induction commands) auto
    then show ?thesis
      using step(1) receive_event(1) assms(2) evolves_core_inv [OF laws step(1)] evolves_announcements [OF step(1)]
        evolves_in_progress [OF step(1)]
      by (simp add: system_inv_def)
  next
    case (call_interface call c)
    then have "\<not> is_relocate c" using routing_call_quiet quiet_one_InrD by blast
    then show ?thesis using call_interface assms(2) by (simp add: system_inv_def)
  qed
qed

lemma node_reachable_inv:
  assumes "node_laws N" "node_reachable N S"
  shows "system_inv N S"
  using assms(2)
proof induction
  case (first_node draws addr pks sks s)
  then show ?case using system_start(1) [OF assms(1)] by (simp add: system_inv_def)
next
  case (joined_node key draws evs node addr result s commands)
  then have "core_inv (no_kit N) s \<and> announcements s \<and> \<not> in_progress s \<and> no_relocate commands"
    using system_start(2) [OF assms(1)] by blast
  moreover from this have "relocations commands = 0" by (induction commands) auto
  ultimately show ?case by (simp add: system_inv_def)
next
  case (next_step S S')
  then show ?case using system_step_inv [OF assms(1)] by blast
qed

lemma evolving_section:
  "evolves go K s s' \<Longrightarrow> (section_step (kt_env K))\<^sup>*\<^sup>* (co_section s) (co_section s') \<and> co_node s' = co_node s"
  by (simp add: evolves_def)

lemma system_step_section:
  assumes "node_laws N" "system_inv N S" "system_step N S S'"
  shows "((section_step (kt_env (no_kit N)))\<^sup>*\<^sup>* (co_section (sy_core S)) (co_section (sy_core S')) \<and>
      co_node (sy_core S') = co_node (sy_core S)) \<or>
    (\<exists>task chain sa. sy_relocations S = [task] \<and> sy_relocations S' = [] \<and>
      section_new (kt_env (no_kit N)) (rt_genesis_key task) chain sa = Inr (co_section (sy_core S')))"
  using assms(3)
proof cases
  case (run_command before c after w r s')
  then show ?thesis
    using command_step [OF _ run_command(3,4)] assms(1) by (auto simp: node_laws_def dest: evolving_section)
next
  case (end_relocation before task after draws msgs r s')
  then have "before = []" "after = []" using assms(2) by (auto simp: system_inv_def split: if_splits)
  with end_relocation(3) show ?thesis
    using assms(1) end_relocation(1,2)
    by (cases rule: relocation_end) (auto simp: node_laws_def send_event_def core_new_def)
next
  case (receive_event t event commands s')
  then show ?thesis using evolving_section connection_event_step [OF receive_event(2)] by fastforce
qed simp_all

text \<open>A node that is in progress of a relocation that no longer runs.\<close>

definition relocation_lost :: "('c, 'a, 'd) system \<Rightarrow> bool" where
  "relocation_lost S \<longleftrightarrow> in_progress (sy_core S) \<and> relocations (sy_commands S) = 0 \<and> sy_relocations S = []"

lemma system_step_lost:
  assumes "node_laws N" "relocation_lost S" "system_step N S S'"
  shows "relocation_lost S'"
  using assms(3)
proof cases
  case (run_command before c after w r s')
  have "evolves True (no_kit N) (sy_core S) s' \<and> accounted (sy_core S) (r, s')"
    using command_step [OF _ run_command(3,4)] assms(1) by (simp add: node_laws_def)
  then show ?thesis
    using run_command(1,2,3) assms(2) evolves_progress_mono by (auto simp: relocation_lost_def accounted_def)
next
  case (receive_event t event commands s')
  have step: "evolves False (no_kit N) (sy_core S) s'" "no_relocate commands"
    using connection_event_step [OF receive_event(2)] by simp_all
  then have "relocations commands = 0" by (induction commands) auto
  then show ?thesis
    using receive_event(1) assms(2) evolves_in_progress [OF step(1)] by (simp add: relocation_lost_def)
next
  case (call_interface call c)
  then have "\<not> is_relocate c" using routing_call_quiet quiet_one_InrD by blast
  then show ?thesis using call_interface(1) assms(2) by (simp add: relocation_lost_def)
qed (use assms(2) in \<open>simp_all add: relocation_lost_def\<close>)

end
