(* ===== verification/Node_Stand_Ins.thy ===== *)
theory Node_Stand_Ins
  imports Node_System
begin

text \<open>
  A concrete node for the properties of the whole system: the stand-ins of \<open>Stand_Ins\<close> for
  the crates, the key generation of \<open>Dkg_Voter\<close>, and a first node that is asked to relocate
  and whose relocation fails.
\<close>

section \<open>Stand-ins\<close>

definition token_loc :: loc_ops where
  "token_loc = \<lparr>
     dst_contains = (\<lambda>dst name p. case dst of
         DstNode n \<Rightarrow> n = name | DstSection n \<Rightarrow> pf_matches bit_ops p n
       | DstEndUser u \<Rightarrow> pf_matches bit_ops p (eu_xorname u) | DirectAndUnrouted \<Rightarrow> True),
     dst_name = (\<lambda>dst. case dst of
         DstNode n \<Rightarrow> Some n | DstSection n \<Rightarrow> Some n | DstEndUser u \<Rightarrow> Some (eu_xorname u) | DirectAndUnrouted \<Rightarrow> None),
     src_equals = (\<lambda>src name. case src of SrcNode n \<Rightarrow> n = name | SrcSection n \<Rightarrow> n = name | SrcEndUser u \<Rightarrow> eu_xorname u = name),
     src_loc_name = (\<lambda>src. case src of SrcNode n \<Rightarrow> n | SrcSection n \<Rightarrow> n | SrcEndUser u \<Rightarrow> eu_xorname u),
     src_to_dst = (\<lambda>src. case src of SrcNode n \<Rightarrow> DstNode n | SrcSection n \<Rightarrow> DstSection n | SrcEndUser u \<Rightarrow> DstEndUser u),
     itinerary_dst_name = (\<lambda>it. case it_dst it of
         DstNode n \<Rightarrow> Some n | DstSection n \<Rightarrow> Some n | DstEndUser u \<Rightarrow> Some (eu_xorname u) | DirectAndUnrouted \<Rightarrow> None),
     aggregate_at_dst = (\<lambda>it. it_aggregation it = AtDestination),
     aggregate_at_src = (\<lambda>it. it_aggregation it = AtSource),
     query_name = of_nat\<rparr>"

text \<open>One share is enough, as in a section of one elder.\<close>

definition token_aggregator :: "unit aggregator_ops" where
  "token_aggregator = \<lparr>
     agg_default = (),
     agg_add = (\<lambda>a bytes sh. (Inr \<lparr>sg_public_key = BlsPk (pks_number (sh_public_key_set sh)),
       sg_signature = BlsSig (pks_number (sh_public_key_set sh))\<rparr>, a))\<rparr>"

definition token_kit :: "(bls_public_key list, unit, nat dkg_state) kit" where
  "token_kit = \<lparr>
     kt_env = token_env, kt_aggregator = token_aggregator,
     kt_dkg = source_dkg token_keygen (token_crypto :: bls_public_key list crypto_ops) (\<lambda>n. n) (\<lambda>_. (PkSet 0, SkShare 0)),
     kt_loc = token_loc, kt_validate_all = (\<lambda>_ _ _ _ solution. solution = 7), kt_client_msg = (\<lambda>b. Inr (ClientMsg (length b))),
     kt_alloc = (\<lambda>n. n)\<rparr>"

definition token_relocate_msg :: "bls_public_key list routing_msg" where
  "token_relocate_msg = RoutingMsg (MessageId 1)
     (SectionSrcAuth 255 \<lparr>sg_public_key = BlsPk 1, sg_signature = BlsSig 1\<rparr> [BlsPk 1]) (DstNode 255) AggNone
     (Relocate \<lparr>rd_pub_id = 255, rd_destination = 9, rd_destination_key = BlsPk 4, rd_age = 7\<rparr>) (BlsPk 1)"

definition token_wire :: "bls_public_key list wire_ops" where
  "token_wire = \<lparr>
     wo_update_dest = (\<lambda>m _. m), wo_serialize = (\<lambda>_. Inr []), wo_header = (\<lambda>b. Inr (MessageId (length b), False)),
     wo_to_message = (\<lambda>_. Inr (RoutingType \<lparr>di_dest = Dest 255, di_section_pk = BlsPk 1\<rparr> token_relocate_msg))\<rparr>"

definition token_join :: "bls_public_key list join_ops" where
  "token_join = \<lparr>
     jo_env = token_env, jo_deserialize = (\<lambda>_. Inl 0), jo_range_inclusive = (\<lambda>_. (0, 1000)),
     jo_prefix_new = (\<lambda>n name. take n (name_bits name)), jo_create_proof_data = (\<lambda>_ _ nonce. nonce), jo_solve = (\<lambda>_ _ _. 7)\<rparr>"

definition token_node :: "(bls_public_key list, unit, nat dkg_state) node_ops" where
  "token_node = \<lparr>no_kit = token_kit, no_wire = token_wire, no_join = token_join\<rparr>"

definition token_clock :: clock where
  "token_clock = \<lparr>ck_new = 0, ck_replaced = 0, ck_expired = 0, ck_excess = 0\<rparr>"

definition token_world :: "bls_public_key list world" where
  "token_world = \<lparr>
     wd_arrivals = \<lparr>ar_nonce = [], ar_channel = 0, ar_clocks = (\<lambda>_. token_clock)\<rparr>,
     wd_reachable = (\<lambda>_. True), wd_completions = (\<lambda>_. (0, Inr ())), wd_existing = (\<lambda>_. Inr ()), wd_cancelled = False,
     wd_draws = (\<lambda>_. \<lparr>jd_age = 0, jd_first_keypairs = [], jd_keypairs = [], jd_name = 0\<rparr>), wd_forwarded = []\<rparr>"

section \<open>A node whose relocation fails\<close>

definition first_node :: node where
  "first_node = \<lparr>nd_keypair = \<lparr>kp_secret = 0, kp_public = EdPk 255\<rparr>, nd_addr = 10\<rparr>"

definition first_auth :: section_auth where
  "first_auth = \<lparr>sa_prefix = [], sa_public_key_set = PkSet 1, sa_elders = [(255, 10)]\<rparr>"

definition first_state :: node_state where
  "first_state = \<lparr>ns_peer = \<lparr>peer_name = 255, peer_addr = 10, peer_reachable = True\<rparr>, ns_state = Joined\<rparr>"

definition first_section :: "bls_public_key list section_state" where
  "first_section = \<lparr>sec_genesis_key = BlsPk 1, sec_chain = [BlsPk 1], sec_auth = token_signed 1 first_auth,
     sec_members = [(255, token_signed 1 first_state)]\<rparr>"

definition first_core :: "(bls_public_key list, unit, nat dkg_state) core" where
  "first_core = send_event (EldersChanged \<lparr>el_prefix = [], el_key = BlsPk 1, el_remaining = [], el_added = [255], el_removed = []\<rparr> Promoted)
     (core_new token_kit first_node first_section
       (Some \<lparr>ks_public_key_set = PkSet 1, ks_index = 0, ks_secret_key_share = SkShare 0\<rparr>))"

lemma token_kit_simps [simp]:
  "kt_env token_kit = token_env" "kt_aggregator token_kit = token_aggregator" "kt_loc token_kit = token_loc"
  "kt_alloc token_kit = (\<lambda>n. n)" "kt_validate_all token_kit = (\<lambda>_ _ _ _ solution. solution = 7)"
  by (simp_all add: token_kit_def)

lemma token_node_simps [simp]: "no_kit token_node = token_kit" "no_wire token_node = token_wire" "no_join token_node = token_join"
  by (simp_all add: token_node_def)

lemma first_section_node: "section_first_node token_env (PkSet 1) (SkShare 0) (node_peer token_crypto first_node) =
    Inr (first_section, \<lparr>ks_public_key_set = PkSet 1, ks_index = 0, ks_secret_key_share = SkShare 0\<rparr>)"
  by (simp add: section_first_node_def create_first_section_authority_provider_def create_first_signed_def section_new_def
      and_then_def ok_or_def first_node_def node_peer_def node_name_def token_crypto_simps list_chain_simps
      first_section_def first_auth_def first_state_def token_signed_def Let_def sap_peers_def section_signed_new_def
      section_auth_new_def bt_collect_def joined_state_def peers_update_def peer_new_def set_reachable_def)

lemma first_core_new: "routing_new_first token_node [nd_keypair first_node] 10 (PkSet 1) (SkShare 0) = Some (Inr first_core)"
proof -
  have "gen_keypair (token_crypto :: bls_public_key list crypto_ops) (jo_range_inclusive token_join []) 255 [nd_keypair first_node] = Some (nd_keypair first_node)"
    by (simp add: token_join_def first_node_def token_crypto_simps last_byte_def)
  moreover have "node_new (nd_keypair first_node) 10 = first_node" by (simp add: node_new_def first_node_def)
  moreover have "sec_prefix first_section = []" "sll_last_key list_chain (sec_chain first_section) = BlsPk 1"
    "sap_names (authority_provider first_section) = [255]"
    by (simp_all add: first_section_def sec_prefix_def first_auth_def list_chain_simps authority_provider_def sap_names_def
        bts_collect_def)
  moreover have "co_section (core_new token_kit node sec share) = sec" for node sec share by (simp add: core_new_def)
  ultimately show ?thesis
    by (simp add: routing_new_first_def core_first_node_def and_then_def first_section_node [simplified] first_core_def
        del: gen_keypair.simps map_option_eq_Some)
qed

lemma first_core_fields [simp]:
  "co_node first_core = first_node" "co_section first_core = first_section" "co_network first_core = network_new"
  "co_relocate_state first_core = None" "co_msg_filter first_core = message_filter_new"
  by (simp_all add: first_core_def core_new_def send_event_def)

lemma first_node_name [simp]: "node_name token_crypto first_node = 255"
  by (simp add: node_name_def first_node_def token_crypto_simps)

lemmas token_message_simps = token_crypto_simps list_chain_simps token_loc_def ok_or_def and_then_def bind_def lift_result_def
  ret_def message_verify_def trust_status_def core_verify_message_def core_known_keys_def decide_message_status_def
  decide_before_verify_def handle_message_def handle_decided_def handle_useful_message_def aggregate_message_def
  handle_useful_variant_def check_for_entropy_def anti_entropy_process_def network_keys_def network_new_def Let_def

lemmas first_section_simps = first_section_def first_auth_def core_is_elder_def sec_is_elder_def authority_provider_def
  contains_elder_def bt_contains_def sec_prefix_def

definition relocating_core :: "message_filter \<Rightarrow> (bls_public_key list, unit, nat dkg_state) core" where
  "relocating_core f = first_core\<lparr>co_msg_filter := f, co_events := co_events first_core @ [RelocationStarted 255],
     co_relocate_state := Some (InProgress 0)\<rparr>"

lemma token_relocation:
  "handle_message token_kit (wd_arrivals token_world) (Some 20) token_relocate_msg \<lparr>di_dest = Dest 255, di_section_pk = BlsPk 1\<rparr>
     (first_core\<lparr>co_msg_filter := f\<rparr>) = (Inr [RelocateCommand [10] token_relocate_msg 0], relocating_core f)"
  by (simp add: token_message_simps first_section_simps token_relocate_msg_def bit_ops_def src_is_section_def
      signed_relocate_details_new_def handle_relocate_def signed_relocate_details_def send_event_def sap_addresses_def
      relocating_core_def token_world_def)

lemma token_dispatch:
  "dispatch_message token_kit token_world (Some 20) token_relocate_msg \<lparr>di_dest = Dest 255, di_section_pk = BlsPk 1\<rparr>
     (first_core\<lparr>co_msg_filter := f\<rparr>) = (Inr [RelocateCommand [10] token_relocate_msg 0], relocating_core f)"
  using token_relocation [of f] by (simp add: dispatch_message_def unreachable_variant_def token_relocate_msg_def)

lemma token_relocation_fails:
  "dispatcher_handle_relocate token_node (\<lambda>_. \<lparr>jd_age = 0, jd_first_keypairs = [], jd_keypairs = [], jd_name = 0\<rparr>) [] (BlsPk 1) first_node [10]
     token_relocate_msg s = Some (Inl InvalidState, s)"
  by (simp add: dispatcher_handle_relocate_def rejoin_run_def signed_relocate_destination_key_def signed_relocate_destination_def
      signed_relocate_details_def token_relocate_msg_def and_then_def rejoin_send_requests_def single_src_def
      token_join_def ok_or_def token_crypto_simps new_signed_def Let_def rejoin_loop.simps rejoin_receive_response_def)

section \<open>Its states\<close>

type_synonym token_system = "(bls_public_key list, unit, nat dkg_state) system"

definition first_system :: token_system where
  "first_system = \<lparr>sy_core = first_core, sy_commands = [], sy_relocations = []\<rparr>"

definition seen_filter :: message_filter where
  "seen_filter = snd (filter_add token_clock message_filter_new (MessageId 1))"

text \<open>A relocation is running, and it has failed.\<close>

definition relocating_system :: token_system where
  "relocating_system = \<lparr>sy_core = relocating_core seen_filter, sy_commands = [],
     sy_relocations = [\<lparr>rt_genesis_key = BlsPk 1, rt_node = first_node, rt_bootstrap_addrs = [10], rt_details = token_relocate_msg\<rparr>]\<rparr>"

definition failed_system :: token_system where
  "failed_system = \<lparr>sy_core = relocating_core seen_filter, sy_commands = [], sy_relocations = []\<rparr>"

lemma token_node_laws: "node_laws token_node"
  using bits.xor_space_axioms token_env_chain_laws by (simp add: node_laws_def kit_laws_def token_join_def)

lemma first_reachable: "node_reachable token_node first_system"
  unfolding first_system_def
  by (rule node_reachable.first_node [OF first_core_new]) (simp add: share_of_set_def token_crypto_simps)

lemma token_message_new:
  "fst (filter_add token_clock message_filter_new (MessageId 1))" "is_ok (check_signature token_crypto token_relocate_msg)"
  by (simp_all add: filter_add_def message_filter_new_def cache_set_def with_expiry_duration_and_capacity_def check_signature_def token_relocate_msg_def
      token_crypto_simps and_then_def ok_or_def)

lemma relocating_reachable: "node_reachable token_node relocating_system"
proof -
  let ?m = "HandleMessage (Some 20) token_relocate_msg \<lparr>di_dest = Dest 255, di_section_pk = BlsPk 1\<rparr>"
  let ?s1 = "first_core\<lparr>co_msg_filter := seen_filter\<rparr>"
  let ?S1 = "first_system\<lparr>sy_core := ?s1, sy_commands := [?m]\<rparr>"
  let ?S2 = "?S1\<lparr>sy_core := relocating_core seen_filter, sy_commands := [RelocateCommand [10] token_relocate_msg 0]\<rparr>"
  have "handle_connection_event token_node token_clock (Received 20 [0]) first_core = Some ([?m], ?s1)"
    using token_message_new
    by (simp add: handle_connection_event_def routing_handle_message_def token_wire_def add_to_filter_def seen_filter_def split_beta)
  then have "node_reachable token_node ?S1"
    using next_step [OF first_reachable receive_event, of token_clock "Received 20 [0]" "[?m]" ?s1]
    by (simp add: first_system_def)
  then have "node_reachable token_node ?S2"
    using next_step [OF _ run_command [of ?S1 "[]" ?m "[]" token_node token_world]] token_dispatch
    by (simp add: try_handle_command_def commands_of_def)
  then have "node_reachable token_node
    (?S2\<lparr>sy_commands := [], sy_relocations := [\<lparr>rt_genesis_key = BlsPk 1, rt_node = first_node, rt_bootstrap_addrs = [10],
       rt_details = token_relocate_msg\<rparr>]\<rparr>)"
    using next_step [OF _ start_relocation [of ?S2 "[]" "[10]" token_relocate_msg 0 "[]" token_node]]
    by (simp add: relocating_core_def first_system_def first_section_def)
  then show ?thesis by (simp add: relocating_system_def first_system_def)
qed

lemma failed_reachable: "node_reachable token_node failed_system"
proof -
  let ?task = "\<lparr>rt_genesis_key = BlsPk 1, rt_node = first_node, rt_bootstrap_addrs = [10], rt_details = token_relocate_msg\<rparr>"
  show ?thesis
    using next_step [OF relocating_reachable end_relocation [of relocating_system "[]" ?task "[]" token_node
          "\<lambda>_. \<lparr>jd_age = 0, jd_first_keypairs = [], jd_keypairs = [], jd_name = 0\<rparr>" "[]"]] token_relocation_fails
    by (simp add: relocating_system_def failed_system_def commands_of_def)
qed

end
