(* ===== verification/Section_Trust.thy ===== *)
theory Section_Trust
  imports Node_Stand_Ins
begin

text \<open>
  What a message can make an elder believe about other sections. The decision to trust a message
  (\<open>Core_Decisions\<close>), the verification of a section message (\<open>Routing_Messages\<close>) and the
  update of the network knowledge (\<open>Network_Knowledge\<close>) are put together.
\<close>

section \<open>Trust and knowledge\<close>

text \<open>Verified information about a section of which no part is known replaces what was known.\<close>

lemma update_section_learns:
  assumes "xor_space (ev_xor E)" "pm_inv (ev_xor E) other_prefix (nw_sections n)" "length (sa_prefix (ss_value sa)) \<le> 256"
    and "\<And>e. e \<in> set (nw_sections n) \<Longrightarrow> \<not> strict_prefix (sa_prefix (ss_value sa)) (other_prefix e)"
    and "section_signed_verify E PSectionAuth sa chain" "pf_matches (ev_xor E) (sa_prefix (ss_value sa)) name"
  shows "network_section_by_name (section_pmap (ev_xor E))
      (snd (network_update_section E (section_pmap (ev_xor E)) n sa None chain)) name = Inr (ss_value sa)"
proof -
  let ?X = "ev_xor E" and ?e = "\<lparr>os_section_auth = sa, os_key_signed = None\<rparr>"
  have bw: "other_prefix ?e = sa_prefix (ss_value sa)" by (simp add: other_prefix_def)
  then obtain old m where ins: "prefix_map_insert ?X other_prefix (nw_sections n) ?e = Some (old, m)"
      "inserted ?X other_prefix ?e (nw_sections n) m"
    using xor_space.insert_spec [OF assms(1,2), of ?e] assms(3,4) by auto
  then have updated: "snd (network_update_section E (section_pmap ?X) n sa None chain) = n\<lparr>nw_sections := m\<rparr>"
    using assms(5) by (simp add: network_update_section_def other_section_verify_def source_pmap_def)
  have e: "?e \<in> set m" and m: "set m \<subseteq> insert ?e {x \<in> set (nw_sections n). other_prefix x \<noteq> other_prefix ?e}"
    using ins(2) by (simp_all add: inserted_def)
  have match: "pf_matches ?X (other_prefix ?e) name" using assms(6) bw by simp
  have "get_matching ?X other_prefix m name = Inr ?e"
  proof (cases "get_matching ?X other_prefix m name")
    case (Inl err)
    then have "\<not> pm_covers ?X other_prefix m name" using get_matching_longest [OF assms(1), of other_prefix m name] by simp
    then show ?thesis using e match xor_space.pm_covers_iff [OF assms(1)] by blast
  next
    case (Inr x)
    then have "x \<in> set m" "prefix (other_prefix ?e) (other_prefix x)"
      using get_matching_longest [OF assms(1), of other_prefix m name] e match by auto
    then have "x = ?e" using m assms(4) [of x] bw by (auto simp: strict_prefix_def)
    then show ?thesis using Inr by simp
  qed
  then show ?thesis unfolding updated by (simp add: network_section_by_name_def source_pmap_def)
qed

section \<open>Properties\<close>

text \<open>C28. Trust in a section message does not reach the knowledge it carries. An elder that gets a
  message which is signed with any key at all, has the elder's own section chain attached and
  names a section of the elder's prefix as its source, takes over the section it describes, when
  that is signed with a key of the chain that the message brings along: afterwards it
  believes the described elders and key to be those of every name with that prefix. None of
  the keys has to be known to the elder.\<close>

theorem forged_section_is_learned:
  fixes K :: "('c, 'a, 'd) kit" and s :: "('c, 'a, 'd) core"
  assumes "kit_laws K" and "pm_inv (kt_xor K) other_prefix (nw_sections (co_network s))" and "core_is_elder K s"
    and "dst_contains (kt_loc K) (msg_dst msg) (core_name K s) (sec_prefix (co_section s))"
    and "msg_src msg = SectionSrcAuth src_name sg (sec_chain (co_section s))"
    and "pf_matches (kt_xor K) (sec_prefix (co_section s)) src_name"
    and "sll_check_trust (kt_chain K) (sec_chain (co_section s)) (core_known_keys K s)"
    and "serialize (kt_crypto K) (signable_view msg) = Some bytes"
    and "bls_verify (kt_crypto K) (msg_section_pk msg) (sg_signature sg) bytes"
    and "msg_variant msg = SectionKnowledge sa chain None"
    and "section_signed_verify (kt_env K) PSectionAuth sa chain" and "length (sa_prefix (ss_value sa)) \<le> 256"
    and "list_all (\<lambda>e. \<not> strict_prefix (sa_prefix (ss_value sa)) (other_prefix e)) (nw_sections (co_network s))"
    and "pf_matches (kt_xor K) (sa_prefix (ss_value sa)) name"
  shows "case handle_message K ar sender msg di s of (result, s') \<Rightarrow>
    result = Inr [] \<and> network_section_by_name (kt_pmap K) (co_network s') name = Inr (ss_value sa)"
proof -
  have "message_verify (kt_env K) msg (core_known_keys K s) = Inr Full"
    using section_verify_key_not_in_chain [OF assms(5,8,9,7)] by simp
  then have status: "decide_message_status K s msg = Inr Useful"
    using assms(3,10) by (simp add: decide_message_status_def decide_before_verify_def core_verify_message_def)
  have src: "src_name_of (kt_crypto K) (msg_src msg) = src_name" by (simp add: assms(5) src_name_of_def src_location_of_def)
  have "check_for_entropy K ts msg di s = (Inr ([], True), s)" for ts
    using assms(3,6) src by (simp add: check_for_entropy_def anti_entropy_process_def bind_def ret_def)
  then have "handle_message K ar sender msg di s = (Inr [], update_section_knowledge K sa chain s)"
    using assms(4,5,10) status
    by (simp add: handle_message_def handle_decided_def bind_def lift_result_def ret_def handle_useful_message_def
        aggregate_message_def handle_useful_variant_def Let_def)
  moreover have "network_section_by_name (kt_pmap K)
      (snd (network_update_section (kt_env K) (kt_pmap K) (co_network s) sa None chain)) name = Inr (ss_value sa)"
    using assms(1,2,11-14) by (intro update_section_learns) (auto simp: kit_laws_def list_all_iff)
  ultimately show ?thesis by (simp add: update_section_knowledge_def)
qed

definition forged_auth :: section_auth where
  "forged_auth = \<lparr>sa_prefix = [True], sa_public_key_set = PkSet 9, sa_elders = [(7, 66)]\<rparr>"

definition forged_msg :: "bls_public_key list routing_msg" where
  "forged_msg = RoutingMsg (MessageId 2)
     (SectionSrcAuth 255 \<lparr>sg_public_key = BlsPk 9, sg_signature = BlsSig 9\<rparr> [BlsPk 1]) (DstSection 255) AggNone
     (SectionKnowledge (token_signed 9 forged_auth) [BlsPk 9] None) (BlsPk 9)"

theorem forged_section_is_learned_witness:
  "network_section_by_name (kt_pmap token_kit)
     (co_network (snd (handle_message token_kit (wd_arrivals token_world) (Some 66) forged_msg
       \<lparr>di_dest = Dest 255, di_section_pk = BlsPk 1\<rparr> first_core))) (- 1) = Inr forged_auth"
proof -
  let ?di = "\<lparr>di_dest = Dest 255, di_section_pk = BlsPk 1\<rparr>"
  have "pf_matches bit_ops [True] (- 1)" by (simp add: bits.matches_iff) (simp add: bit_ops_def name_bit_def)
  then have "case handle_message token_kit (wd_arrivals token_world) (Some 66) forged_msg ?di first_core of (result, s') \<Rightarrow>
      result = Inr [] \<and> network_section_by_name (kt_pmap token_kit) (co_network s') (- 1) = Inr (ss_value (token_signed 9 forged_auth))"
    by (intro forged_section_is_learned [where bytes = "[]" and src_name = 255 and chain = "[BlsPk 9]"
          and sg = "\<lparr>sg_public_key = BlsPk 9, sg_signature = BlsSig 9\<rparr>"])
      (simp_all add: forged_msg_def forged_auth_def token_node_laws [unfolded node_laws_def, simplified] first_section_simps
        network_new_def pm_inv_def pm_sorted_def token_loc_def core_known_keys_def list_chain_simps
        section_signed_verify_def self_verify_def verify_signed_def token_crypto_simps)
  then show ?thesis by (simp add: split_beta)
qed

end
