(* ===== verification/Debug_Output.thy ===== *)
theory Debug_Output
  imports Core_State Comm_Send
begin

text \<open>
  What is written to the log about commands, events and keys: the implementations of \<open>Debug\<close> in
  \<open>src/routing/command.rs\<close>, \<open>src/event.rs\<close>, \<open>src/routing/comm.rs\<close>, \<open>src/node.rs\<close> and
  \<open>src/section/section_keys.rs\<close>. \<open>Dispatcher::handle_command\<close> logs every command this
  way. The texts of the values of other types are a parameter.
\<close>

section \<open>The formatter\<close>

fun join_with_comma :: "string list \<Rightarrow> string" where
  "join_with_comma [] = []"
| "join_with_comma [x] = x"
| "join_with_comma (x # y # ys) = x @ '', '' @ join_with_comma (y # ys)"

definition debug_struct :: "string \<Rightarrow> (string \<times> string) list \<Rightarrow> string" where
  "debug_struct name fs = name @ '' { '' @ join_with_comma (map (\<lambda>(f, v). f @ '': '' @ v) fs) @ '' }''"

definition debug_tuple :: "string \<Rightarrow> string \<Rightarrow> string" where
  "debug_tuple name field = name @ ''('' @ field @ '')''"

record 'c debug_ops =
  db_name :: "xor_name \<Rightarrow> string"
  db_name_option :: "xor_name option \<Rightarrow> string"
  db_names :: "xor_name list \<Rightarrow> string"
  db_addr :: "socket_addr \<Rightarrow> string"
  db_addr_option :: "socket_addr option \<Rightarrow> string"
  db_addrs :: "socket_addr list \<Rightarrow> string"
  db_recipients :: "(xor_name \<times> socket_addr) list \<Rightarrow> string"
  db_nat :: "nat \<Rightarrow> string"
  db_bool :: "bool \<Rightarrow> string"
  db_u8 :: "u8 \<Rightarrow> string"
  db_u64 :: "u64 \<Rightarrow> string"
  db_duration :: "nat \<Rightarrow> string"
  db_message :: "'c routing_msg \<Rightarrow> string"
  db_message_type :: "'c message_type \<Rightarrow> string"
  db_section_info_msg :: "section_info_msg \<Rightarrow> string"
  db_dest_info :: "dest_info \<Rightarrow> string"
  db_proposal :: "'c proposal \<Rightarrow> string"
  db_public_key :: "bls_public_key \<Rightarrow> string"
  db_public_key_option :: "bls_public_key option \<Rightarrow> string"
  db_section_auth :: "section_auth \<Rightarrow> string"
  db_failures :: "dkg_failure_signed_set \<Rightarrow> string"
  db_itinerary :: "itinerary \<Rightarrow> string"
  db_peer :: "peer \<Rightarrow> string"
  db_src :: "src_location \<Rightarrow> string"
  db_dst :: "dst_location \<Rightarrow> string"
  db_elders :: "elders \<Rightarrow> string"
  db_change :: "node_elder_change \<Rightarrow> string"
  db_keypair :: "keypair \<Rightarrow> string"
  db_client_msg :: "client_msg \<Rightarrow> string"
  db_end_user :: "end_user \<Rightarrow> string"
  db_hex :: "nat \<Rightarrow> bytes \<Rightarrow> string"

section \<open>The implementations\<close>

definition section_key_share_debug :: "'c debug_ops \<Rightarrow> 'c crypto_ops \<Rightarrow> section_key_share \<Rightarrow> string" where
  "section_key_share_debug D cr share =
     ''SectionKeyShare { public_key: '' @ db_public_key D (pks_public_key cr (ks_public_key_set share)) @
     '', index: '' @ db_nat D (ks_index share) @ '', .. }''"

definition node_debug :: "'c debug_ops \<Rightarrow> 'c crypto_ops \<Rightarrow> node \<Rightarrow> string" where
  "node_debug D cr node =
     debug_struct ''Node''
       [(''name'', db_name D (node_name cr node)), (''addr'', db_addr D (nd_addr node)), (''age'', db_u8 D (node_age cr node))]"

definition connection_event_debug :: "'c debug_ops \<Rightarrow> connection_event \<Rightarrow> string" where
  "connection_event_debug D ev =
     (case ev of
        Received src msg \<Rightarrow> ''Received(src: '' @ db_addr D src @ '', msg: '' @ db_hex D 0 msg @ '')''
      | Disconnected addr \<Rightarrow> ''Disconnected('' @ db_addr D addr @ '')'')"

definition command_debug :: "'c debug_ops \<Rightarrow> 'c crypto_ops \<Rightarrow> 'c command \<Rightarrow> string" where
  "command_debug D cr command =
     (case command of
        HandleMessage sender message dest_info \<Rightarrow>
          debug_struct ''HandleMessage''
            [(''sender'', db_addr_option D sender), (''message'', db_message D message), (''dest_info'', db_dest_info D dest_info)]
      | HandleSectionInfoMsg sender message dest_info \<Rightarrow>
          debug_struct ''HandleSectionInfoMsg''
            [(''sender'', db_addr D sender), (''message'', db_section_info_msg D message), (''dest_info'', db_dest_info D dest_info)]
      | HandleTimeout token \<Rightarrow> debug_tuple ''HandleTimeout'' (db_u64 D token)
      | HandleConnectionLost addr \<Rightarrow> debug_tuple ''HandleConnectionLost'' (db_addr D addr)
      | HandlePeerLost addr \<Rightarrow> debug_tuple ''HandlePeerLost'' (db_addr D addr)
      | HandleAgreement proposal sg \<Rightarrow>
          debug_struct ''HandleAgreement''
            [(''proposal'', db_proposal D proposal), (''signed.public_key'', db_public_key D (sg_public_key sg))]
      | HandleDkgOutcome section_auth outcome \<Rightarrow>
          debug_struct ''HandleDkgOutcome''
            [(''section_auth'', db_section_auth D section_auth),
             (''outcome'', db_public_key D (pks_public_key cr (ks_public_key_set outcome)))]
      | HandleDkgFailure signeds \<Rightarrow> debug_tuple ''HandleDkgFailure'' (db_failures D signeds)
      | SendMessage recipients delivery_group_size message \<Rightarrow>
          debug_struct ''SendMessage''
            [(''recipients'', db_recipients D recipients), (''delivery_group_size'', db_nat D delivery_group_size),
             (''message'', db_message_type D message)]
      | SendUserMessage itinerary content additional_proof_chain_key \<Rightarrow>
          debug_struct ''SendUserMessage''
            [(''itinerary'', db_itinerary D itinerary), (''content'', db_hex D 10 content),
             (''additional_proof_chain_key'', db_public_key_option D additional_proof_chain_key)]
      | ScheduleTimeout duration token \<Rightarrow>
          debug_struct ''ScheduleTimeout'' [(''duration'', db_duration D duration), (''token'', db_u64 D token)]
      | RelocateCommand bootstrap_addrs details _ \<Rightarrow>
          debug_struct ''Relocate'' [(''bootstrap_addrs'', db_addrs D bootstrap_addrs), (''details'', db_message D details)]
      | SetJoinsAllowed joins_allowed \<Rightarrow> debug_tuple ''SetJoinsAllowed'' (db_bool D joins_allowed)
      | ProposeOnline peer previous_name _ \<Rightarrow>
          debug_struct ''ProposeOnline'' [(''peer'', db_peer D peer), (''previous_name'', db_name_option D previous_name)]
      | ProposeOffline name \<Rightarrow> debug_tuple ''ProposeOffline'' (db_name D name)
      | TestConnectivity name \<Rightarrow> debug_tuple ''TestConnectivity'' (db_name D name)
      | StartConnectivityTestCommand name \<Rightarrow> debug_tuple ''StartConnectivityTest'' (db_name D name))"

definition event_debug :: "'c debug_ops \<Rightarrow> event \<Rightarrow> string" where
  "event_debug D event =
     (case event of
        MessageReceived content src dst _ _ \<Rightarrow>
          ''MessageReceived { content: \"'' @ db_hex D 8 content @ ''\", src: '' @ db_src D src @ '', dst: '' @ db_dst D dst @ '' }''
      | MemberJoined name previous_name age \<Rightarrow>
          debug_struct ''MemberJoined''
            [(''name'', db_name D name), (''previous_name'', db_name_option D previous_name), (''age'', db_u8 D age)]
      | MemberLeft name age \<Rightarrow> debug_struct ''MemberLeft'' [(''name'', db_name D name), (''age'', db_u8 D age)]
      | SectionSplit elders0 sibling_elders change \<Rightarrow>
          debug_struct ''EldersChanged''
            [(''elders'', db_elders D elders0), (''sibling_elders'', db_elders D sibling_elders),
             (''self_status_change'', db_change D change)]
      | EldersChanged elders0 change \<Rightarrow>
          debug_struct ''EldersChanged'' [(''elders'', db_elders D elders0), (''self_status_change'', db_change D change)]
      | RelocationStarted previous_name \<Rightarrow> debug_struct ''RelocationStarted'' [(''previous_name'', db_name D previous_name)]
      | RelocatedEvent previous_name new_keypair \<Rightarrow>
          debug_struct ''Relocated'' [(''previous_name'', db_name D previous_name), (''new_keypair'', db_keypair D new_keypair)]
      | RestartRequired \<Rightarrow> ''RestartRequired''
      | ClientMsgReceived msg user \<Rightarrow>
          ''ClientMsgReceived { msg: '' @ db_client_msg D msg @ '', src: '' @ db_end_user D user @ '' }''
      | ClientLost addr \<Rightarrow> ''ClientLost('' @ db_addr D addr @ '')''
      | AdultsChanged remaining added removed \<Rightarrow>
          debug_struct ''AdultsChanged''
            [(''remaining'', db_names D remaining), (''added'', db_names D added), (''removed'', db_names D removed)])"

section \<open>Secrets stay out of the log\<close>

text \<open>A command with another secret key share in it.\<close>

definition replace_secret :: "secret_key_share \<Rightarrow> 'c command \<Rightarrow> 'c command" where
  "replace_secret sk command =
     (case command of
        HandleDkgOutcome section_auth outcome \<Rightarrow> HandleDkgOutcome section_auth (outcome\<lparr>ks_secret_key_share := sk\<rparr>)
      | _ \<Rightarrow> command)"

lemma command_debug_no_secret: "command_debug D cr (replace_secret sk command) = command_debug D cr command"
  by (cases command) (simp_all add: command_debug_def replace_secret_def)

lemma section_key_share_debug_no_secret:
  "section_key_share_debug D cr (share\<lparr>ks_secret_key_share := sk\<rparr>) = section_key_share_debug D cr share"
  by (simp add: section_key_share_debug_def)

lemma node_debug_no_secret:
  "node_debug D cr (node\<lparr>nd_keypair := (nd_keypair node)\<lparr>kp_secret := sk\<rparr>\<rparr>) = node_debug D cr node"
  by (simp add: node_debug_def node_name_def node_age_def)

text \<open>The text of a split begins as that of a change of the elders.\<close>

lemma split_prints_as_change:
  "take 13 (event_debug D (SectionSplit elders0 sibling change)) = take 13 (event_debug D (EldersChanged elders0' change'))"
  by (simp add: event_debug_def debug_struct_def)

end
