(* ===== verification/Stress_Network.thy ===== *)
theory Stress_Network
  imports Core_State Item_Cache
begin

text \<open>
  The stress test of \<open>examples/stress.rs\<close>: a schedule of churn, the nodes it starts and drops
  with what it counts about them, and the probe messages by which it measures the health of
  sections. The random choices, the clock readings and what the nodes answer to queries are
  arguments; printing is left out.
\<close>

section \<open>The schedule\<close>

record churn_period =
  cp_duration :: nat
  cp_joins :: nat
  cp_drops :: nat

datatype churn_event = ChurnJoin | ChurnDrop

text \<open>\<open>str::parse\<close> for \<open>f64\<close>, turned into a duration (\<open>None\<close> is the panic of
  \<open>Duration::from_secs_f64\<close> on a negative number), and for \<open>usize\<close>.\<close>

record 'e parse_ops =
  parse_duration :: "string \<Rightarrow> ('e + nat) option"
  parse_usize :: "string \<Rightarrow> 'e + nat"

fun chunks3 :: "'a list \<Rightarrow> 'a list list" where
  "chunks3 (a # b # c # xs) = [a, b, c] # chunks3 xs"
| "chunks3 [] = []"
| "chunks3 xs = [xs]"

definition chunk_usize :: "'e parse_ops \<Rightarrow> string list \<Rightarrow> nat \<Rightarrow> 'e + nat" where
  "chunk_usize P chunk i = (if i < length chunk then parse_usize P (chunk ! i) else Inr 0)"

definition parse_period :: "'e parse_ops \<Rightarrow> string list \<Rightarrow> ('e + churn_period) option" where
  "parse_period P chunk =
     map_option (\<lambda>duration.
         and_then duration (\<lambda>duration.
         and_then (chunk_usize P chunk 1) (\<lambda>joins.
         and_then (chunk_usize P chunk 2) (\<lambda>drops.
         Inr \<lparr>cp_duration = duration, cp_joins = joins, cp_drops = drops\<rparr>))))
       (if chunk = [] then Some (Inr 0) else parse_duration P (hd chunk))"

fun parse_periods :: "'e parse_ops \<Rightarrow> string list list \<Rightarrow> ('e + churn_period list) option" where
  "parse_periods P [] = Some (Inr [])"
| "parse_periods P (chunk # chunks) =
     (case parse_period P chunk of
        None \<Rightarrow> None
      | Some (Inl e) \<Rightarrow> Some (Inl e)
      | Some (Inr period) \<Rightarrow> map_option (\<lambda>rest. and_then rest (\<lambda>periods. Inr (period # periods))) (parse_periods P chunks))"

definition schedule_parse :: "'e parse_ops \<Rightarrow> string list \<Rightarrow> ('e + churn_period list) option" where
  "schedule_parse P input = parse_periods P (chunks3 input)"

text \<open>\<open>pick n start end\<close> is the \<open>n\<close>-th draw of \<open>gen_range(start, end)\<close>.\<close>

definition event_time :: "(nat \<Rightarrow> nat \<Rightarrow> nat \<Rightarrow> nat) \<Rightarrow> nat \<Rightarrow> nat \<Rightarrow> nat \<Rightarrow> nat" where
  "event_time pick n start end_time = (if start < end_time then pick n start end_time else start)"

fun schedule_events ::
  "(nat \<Rightarrow> nat \<Rightarrow> nat \<Rightarrow> nat) \<Rightarrow> nat \<Rightarrow> nat \<Rightarrow> churn_period list \<Rightarrow> (churn_event \<times> nat) list" where
  "schedule_events pick n start [] = []"
| "schedule_events pick n start (period # periods) =
     (let end_time = start + cp_duration period;
          joins = map (\<lambda>i. (ChurnJoin, event_time pick (n + i) start end_time)) [0..<cp_joins period];
          drops = map (\<lambda>i. (ChurnDrop, event_time pick (n + cp_joins period + i) start end_time)) [0..<cp_drops period]
      in joins @ drops @ schedule_events pick (n + cp_joins period + cp_drops period) end_time periods)"

section \<open>Probes\<close>

datatype 'a probe_state = ProbePending 'a | ProbeSuccess

type_synonym 'a probe_tracker = "(pfx \<times> (xor_name, 'a probe_state) cache) list"

definition PROBE_WINDOW :: nat where
  "PROBE_WINDOW = 60 * 1000000000"

text \<open>The map is kept in the order of the prefixes.\<close>

fun section_entry ::
  "xor_ops \<Rightarrow> pfx \<Rightarrow> 'v \<Rightarrow> ('v \<Rightarrow> 'v) \<Rightarrow> (pfx \<times> 'v) list \<Rightarrow> (pfx \<times> 'v) list" where
  "section_entry X p new f [] = [(p, f new)]"
| "section_entry X p new f ((q, v) # m) =
     (case pf_cmp X p q of
        Less \<Rightarrow> (p, f new) # (q, v) # m
      | Equal \<Rightarrow> (q, f v) # m
      | Greater \<Rightarrow> (q, v) # section_entry X p new f m)"

definition tracker_send ::
  "xor_ops \<Rightarrow> 'a aggregator_ops \<Rightarrow> nat \<Rightarrow> clock \<Rightarrow> pfx \<Rightarrow> xor_name \<Rightarrow> 'a probe_tracker \<Rightarrow> 'a probe_tracker" where
  "tracker_send X A now t src dst =
     section_entry X src (with_expiry_duration PROBE_WINDOW)
       (\<lambda>cache. if cache_get now cache dst = None then snd (cache_set t cache dst (ProbePending (agg_default A)) None) else cache)"

text \<open>The aggregator is shared with the cache: a share that does not complete the signature
  changes it in place.\<close>

definition update_object :: "'k \<Rightarrow> 'v \<Rightarrow> ('k, 'v) cache \<Rightarrow> ('k, 'v) cache" where
  "update_object key obj c =
     c\<lparr>ca_items := map (\<lambda>(k, it). if k = key then (k, it\<lparr>it_object := obj\<rparr>) else (k, it)) (ca_items c)\<rparr>"

fun tracker_receive ::
  "'a aggregator_ops \<Rightarrow> (nat \<Rightarrow> nat) \<Rightarrow> clock \<Rightarrow> xor_name \<Rightarrow> signed_share \<Rightarrow> 'a probe_tracker \<Rightarrow> 'a probe_tracker" where
  "tracker_receive A nows t dst sh [] = []"
| "tracker_receive A nows t dst sh ((p, cache) # sections) =
     (case cache_get (nows 0) cache dst of
        None \<Rightarrow> (p, cache) # tracker_receive A (\<lambda>n. nows (Suc n)) t dst sh sections
      | Some ProbeSuccess \<Rightarrow> (p, cache) # sections
      | Some (ProbePending aggregator) \<Rightarrow>
          (case agg_add A aggregator (name_bytes dst) sh of
             (Inr _, _) \<Rightarrow> (p, snd (cache_set t cache dst ProbeSuccess None)) # sections
           | (Inl _, aggregator') \<Rightarrow> (p, update_object dst (ProbePending aggregator') cache) # sections))"

definition tracker_status :: "'a probe_tracker \<Rightarrow> (pfx \<times> nat \<times> nat) list" where
  "tracker_status tracker =
     map (\<lambda>(p, cache).
       (p, cache_count (\<lambda>(_, it). case it_object it of ProbeSuccess \<Rightarrow> True | ProbePending _ \<Rightarrow> False) cache, cache_len cache))
     tracker"

definition tracker_prune :: "'a probe_tracker \<Rightarrow> 'a probe_tracker" where
  "tracker_prune tracker =
     (let remove = map fst (filter (\<lambda>(_, cache). cache_is_empty cache) tracker)
      in foldl (\<lambda>m p. filter (\<lambda>e. fst e \<noteq> p) m) tracker remove)"

section \<open>Nodes and statistics\<close>

record elder_state =
  es_key :: bls_public_key
  es_num_elders :: nat

record member =
  mb_addr :: socket_addr
  mb_name :: xor_name
  mb_age :: u8
  mb_prefix :: pfx
  mb_is_relocating :: bool
  mb_elder :: "elder_state option"

datatype stress_node = NodeJoining | NodeJoined member

record stats =
  ss_join_attempts :: nat
  ss_join_failures :: nat
  ss_join_successes :: nat
  ss_drops :: nat
  ss_relocation_attempts :: nat
  ss_relocation_successes :: nat
  ss_promotions :: nat
  ss_demotions :: nat

record 'a stress_network =
  sn_nodes :: "(u64, stress_node) btree_map"
  sn_next_id :: u64
  sn_probe_tracker :: "'a probe_tracker"
  sn_stats :: stats

definition stress_network_new :: "'a stress_network" where
  "stress_network_new = \<lparr>sn_nodes = [], sn_next_id = 0, sn_probe_tracker = [],
     sn_stats = \<lparr>ss_join_attempts = 0, ss_join_failures = 0, ss_join_successes = 0, ss_drops = 0, ss_relocation_attempts = 0,
       ss_relocation_successes = 0, ss_promotions = 0, ss_demotions = 0\<rparr>\<rparr>"

text \<open>\<open>None\<close> is the panic on too many nodes.\<close>

definition new_node_id :: "'a stress_network \<Rightarrow> (u64 \<times> 'a stress_network) option" where
  "new_node_id net =
     (let nid = sn_next_id net
      in if nid = - 1 then None else Some (nid, net\<lparr>sn_next_id := nid + 1\<rparr>))"

definition joined_members :: "'a stress_network \<Rightarrow> (u64 \<times> member) list" where
  "joined_members net =
     List.map_filter (\<lambda>(nid, node). case node of NodeJoined m \<Rightarrow> Some (nid, m) | NodeJoining \<Rightarrow> None) (sn_nodes net)"

definition get_bootstrap_addrs :: "'a stress_network \<Rightarrow> socket_addr list" where
  "get_bootstrap_addrs net =
     map mb_addr (take 1 (sort_by (\<lambda>lhs rhs. ord_cmp (mb_age rhs) (mb_age lhs)) (map snd (joined_members net))))"

text \<open>The configuration of the new node: whether it is the first, and its contacts.\<close>

definition create_node :: "'a stress_network \<Rightarrow> ((u64 \<times> bool \<times> socket_addr list) \<times> 'a stress_network) option" where
  "create_node net =
     (let bootstrap_addrs = get_bootstrap_addrs net
      in map_option (\<lambda>(nid, net).
           ((nid, bootstrap_addrs = [], bootstrap_addrs),
            net\<lparr>sn_nodes := bt_insert nid NodeJoining (sn_nodes net),
                sn_stats := (sn_stats net)\<lparr>ss_join_attempts := ss_join_attempts (sn_stats net) + 1\<rparr>\<rparr>))
         (new_node_id net))"

text \<open>\<open>index\<close> is what the weighted distribution draws.\<close>

definition remove_random_node :: "nat \<Rightarrow> 'a stress_network \<Rightarrow> 'a stress_network" where
  "remove_random_node index net =
     (let ids = map fst (joined_members net)
      in if ids = [] then net
         else let nid = ids ! index
              in case bt_get (sn_nodes net) nid of
                   None \<Rightarrow> net
                 | Some node \<Rightarrow>
                     let st = (sn_stats net)\<lparr>ss_drops := ss_drops (sn_stats net) + 1\<rparr>;
                         relocating = (case node of NodeJoined m \<Rightarrow> mb_is_relocating m | NodeJoining \<Rightarrow> False)
                     in net\<lparr>sn_nodes := bt_remove nid (sn_nodes net),
                            sn_stats := (if relocating
                                         then st\<lparr>ss_relocation_successes := ss_relocation_successes st + 1\<rparr> else st)\<rparr>)"

section \<open>Events\<close>

datatype stress_event =
    JoinSuccess u64 socket_addr xor_name u8 pfx
  | JoinFailure u64
  | NodeEvent u64 event

datatype stress_error = BadProbe | UnexpectedDst dst_location

definition update_joined :: "u64 \<Rightarrow> (member \<Rightarrow> member) \<Rightarrow> 'a stress_network \<Rightarrow> 'a stress_network" where
  "update_joined nid f net =
     (case bt_get (sn_nodes net) nid of
        Some (NodeJoined m) \<Rightarrow> net\<lparr>sn_nodes := bt_insert nid (NodeJoined (f m)) (sn_nodes net)\<rparr>
      | _ \<Rightarrow> net)"

definition elders_changed :: "elders \<Rightarrow> member \<Rightarrow> member" where
  "elders_changed el m =
     (let m1 = m\<lparr>mb_prefix := el_prefix el\<rparr>
      in if mb_name m \<in> set (el_added el) \<or> mb_name m \<in> set (el_remaining el)
         then m1\<lparr>mb_elder := Some \<lparr>es_key = el_key el, es_num_elders = length (el_remaining el) + length (el_added el)\<rparr>\<rparr>
         else if mb_name m \<in> set (el_removed el) \<and> mb_prefix m = el_prefix el then m1\<lparr>mb_elder := None\<rparr>
         else m1)"

definition count_change :: "node_elder_change \<Rightarrow> stats \<Rightarrow> stats" where
  "count_change change st =
     (case change of
        Promoted \<Rightarrow> st\<lparr>ss_promotions := ss_promotions st + 1\<rparr>
      | Demoted \<Rightarrow> st\<lparr>ss_demotions := ss_demotions st + 1\<rparr>
      | NoElderChange \<Rightarrow> st)"

text \<open>\<open>current\<close> is what the node answers when it is asked for its name and age,
  \<open>decode\<close> the deserialisation of a probe message.\<close>

definition handle_node_event ::
  "'a aggregator_ops \<Rightarrow> (bytes \<Rightarrow> signed_share option) \<Rightarrow> (nat \<Rightarrow> nat) \<Rightarrow> clock \<Rightarrow> xor_name \<times> u8 \<Rightarrow> u64 \<Rightarrow> event \<Rightarrow> 'a stress_network
    \<Rightarrow> (stress_error + unit) \<times> 'a stress_network" where
  "handle_node_event A decode nows t current nid event net =
     (let elders_case = (\<lambda>el change. let net1 = update_joined nid (elders_changed el) net
            in (Inr (), net1\<lparr>sn_stats := count_change change (sn_stats net1)\<rparr>));
          joined = (case bt_get (sn_nodes net) nid of Some (NodeJoined _) \<Rightarrow> True | _ \<Rightarrow> False)
      in case event of
           EldersChanged el change \<Rightarrow> elders_case el change
         | SectionSplit el _ change \<Rightarrow> elders_case el change
         | RelocationStarted _ \<Rightarrow>
             (Inr (), if joined
                then (update_joined nid (\<lambda>m. m\<lparr>mb_is_relocating := True\<rparr>) net)
                       \<lparr>sn_stats := (sn_stats net)\<lparr>ss_relocation_attempts := ss_relocation_attempts (sn_stats net) + 1\<rparr>\<rparr>
                else net)
         | RelocatedEvent _ _ \<Rightarrow>
             (Inr (), if joined
                then (update_joined nid
                        (\<lambda>m. m\<lparr>mb_name := fst current, mb_age := snd current, mb_is_relocating := False\<rparr>) net)
                       \<lparr>sn_stats := (sn_stats net)\<lparr>ss_relocation_successes := ss_relocation_successes (sn_stats net) + 1\<rparr>\<rparr>
                else net)
         | MessageReceived content _ dst _ _ \<Rightarrow>
             (case decode content of
                None \<Rightarrow> (Inl BadProbe, net)
              | Some sh \<Rightarrow>
                  (case dst of
                     DstSection name \<Rightarrow>
                       (Inr (), net\<lparr>sn_probe_tracker := tracker_receive A nows t name sh (sn_probe_tracker net)\<rparr>)
                   | DstNode name \<Rightarrow>
                       (Inr (), net\<lparr>sn_probe_tracker := tracker_receive A nows t name sh (sn_probe_tracker net)\<rparr>)
                   | _ \<Rightarrow> (Inl (UnexpectedDst dst), net)))
         | _ \<Rightarrow> (Inr (), net))"

definition stress_handle_event ::
  "'a aggregator_ops \<Rightarrow> (bytes \<Rightarrow> signed_share option) \<Rightarrow> (nat \<Rightarrow> nat) \<Rightarrow> clock \<Rightarrow> xor_name \<times> u8 \<Rightarrow> stress_event \<Rightarrow> 'a stress_network
    \<Rightarrow> (stress_error + unit) \<times> 'a stress_network" where
  "stress_handle_event A decode nows t current event net =
     (case event of
        JoinSuccess nid addr name age p \<Rightarrow>
          (Inr (), net\<lparr>sn_nodes := bt_insert nid (NodeJoined \<lparr>mb_addr = addr, mb_name = name, mb_age = age, mb_prefix = p,
                       mb_is_relocating = False, mb_elder = None\<rparr>) (sn_nodes net),
                      sn_stats := (sn_stats net)\<lparr>ss_join_successes := ss_join_successes (sn_stats net) + 1\<rparr>\<rparr>)
      | JoinFailure nid \<Rightarrow>
          (Inr (), net\<lparr>sn_nodes := bt_remove nid (sn_nodes net),
                      sn_stats := (sn_stats net)\<lparr>ss_join_failures := ss_join_failures (sn_stats net) + 1\<rparr>\<rparr>)
      | NodeEvent nid event \<Rightarrow> handle_node_event A decode nows t current nid event net)"

section \<open>Sending probes\<close>

datatype probe_error = SerializeFailed | RoutingFailed error

text \<open>\<open>encode\<close> serialises a name, \<open>send\<close> is \<open>Routing::send_message\<close> with the
  serialised message.\<close>

definition try_send_probe ::
  "('c, 'a, 'd) kit \<Rightarrow> (xor_name \<Rightarrow> bytes option) \<Rightarrow> (itinerary \<Rightarrow> signed_share \<Rightarrow> probe_error + unit) \<Rightarrow> ('c, 'a, 'd) core \<Rightarrow> xor_name
    \<Rightarrow> probe_error + bool" where
  "try_send_probe K encode send s dst =
     (case core_public_key_set s of
        Inl _ \<Rightarrow> Inr False
      | Inr public_key_set \<Rightarrow>
          let src = core_name K s
          in and_then (ok_or SerializeFailed (encode dst)) (\<lambda>bytes.
             and_then (map_err RoutingFailed
                 (sign_with_section_key_share K s bytes (pks_public_key (kt_crypto K) public_key_set))) (\<lambda>signature_share.
             and_then (map_err RoutingFailed (our_index s)) (\<lambda>index.
             case send \<lparr>it_src = SrcNode src, it_dst = DstSection dst, it_aggregation = AggNone\<rparr>
                    \<lparr>sh_public_key_set = public_key_set, sh_index = index, sh_signature_share = signature_share\<rparr> of
               Inr _ \<Rightarrow> Inr True
             | Inl (RoutingFailed InvalidSrcLocation) \<Rightarrow> Inr False
             | Inl e \<Rightarrow> Inl e))))"

text \<open>One destination is drawn for each prefix. \<open>probe\<close> is \<open>try_send_probe\<close> of the node
  with the given identifier.\<close>

fun send_probes_loop ::
  "xor_ops \<Rightarrow> 'a aggregator_ops \<Rightarrow> (u64 \<Rightarrow> xor_name \<Rightarrow> probe_error + bool) \<Rightarrow> (nat \<Rightarrow> nat) \<Rightarrow> (nat \<Rightarrow> clock) \<Rightarrow> (nat \<Rightarrow> xor_name)
    \<Rightarrow> (pfx \<times> xor_name) list \<Rightarrow> (u64 \<times> member) list \<Rightarrow> 'a probe_tracker \<Rightarrow> (probe_error + unit) \<times> 'a probe_tracker" where
  "send_probes_loop X A probe nows ts draws dsts [] tracker = (Inr (), tracker)"
| "send_probes_loop X A probe nows ts draws dsts ((nid, m) # members) tracker =
     (let (dst, dsts', draws') =
            (case map_of dsts (mb_prefix m) of
               Some dst \<Rightarrow> (dst, dsts, draws)
             | None \<Rightarrow> let dst = pf_substituted_in X (mb_prefix m) (draws 0)
                       in (dst, (mb_prefix m, dst) # dsts, \<lambda>n. draws (Suc n)))
      in case probe nid dst of
           Inl e \<Rightarrow> (Inl e, tracker)
         | Inr sent \<Rightarrow>
             send_probes_loop X A probe (\<lambda>n. nows (Suc n)) (\<lambda>n. ts (Suc n)) draws' dsts' members
               (if sent then tracker_send X A (nows 0) (ts 0) (mb_prefix m) dst tracker else tracker))"

definition send_probes ::
  "xor_ops \<Rightarrow> 'a aggregator_ops \<Rightarrow> (u64 \<Rightarrow> xor_name \<Rightarrow> probe_error + bool) \<Rightarrow> (nat \<Rightarrow> nat) \<Rightarrow> (nat \<Rightarrow> clock) \<Rightarrow> (nat \<Rightarrow> xor_name)
    \<Rightarrow> 'a stress_network \<Rightarrow> (probe_error + unit) \<times> 'a stress_network" where
  "send_probes X A probe nows ts draws net =
     (case send_probes_loop X A probe nows ts draws [] (joined_members net) (sn_probe_tracker net) of
        (Inl e, tracker) \<Rightarrow> (Inl e, net\<lparr>sn_probe_tracker := tracker\<rparr>)
      | (Inr _, tracker) \<Rightarrow> (Inr (), net\<lparr>sn_probe_tracker := tracker_prune tracker\<rparr>))"

section \<open>The status that is printed\<close>

record status =
  su_active :: nat
  su_joining :: nat
  su_relocating :: nat
  su_elders :: nat
  su_ages :: "nat list"
  su_sections :: "(pfx \<times> nat) list"

definition status_new :: status where
  "status_new = \<lparr>su_active = 0, su_joining = 0, su_relocating = 0, su_elders = 0, su_ages = replicate 256 0, su_sections = []\<rparr>"

definition status_add :: "xor_ops \<Rightarrow> stress_node \<Rightarrow> status \<Rightarrow> status" where
  "status_add X node st =
     (case node of
        NodeJoining \<Rightarrow> st\<lparr>su_joining := su_joining st + 1\<rparr>
      | NodeJoined m \<Rightarrow>
          let st1 = (if mb_is_relocating m then st\<lparr>su_relocating := su_relocating st + 1\<rparr>
                     else st\<lparr>su_active := su_active st + 1\<rparr>);
              st2 = (if mb_elder m \<noteq> None then st1\<lparr>su_elders := su_elders st1 + 1\<rparr> else st1);
              age = unat (mb_age m)
          in st2\<lparr>su_ages := (su_ages st2)[age := su_ages st2 ! age + 1],
                 su_sections := section_entry X (mb_prefix m) 0 Suc (su_sections st2)\<rparr>)"

definition print_status :: "xor_ops \<Rightarrow> 'a stress_network \<Rightarrow> status" where
  "print_status X net = foldl (\<lambda>st node. status_add X node st) status_new (bt_values (sn_nodes net))"

section \<open>Runs\<close>

text \<open>A node reports the outcome of its join once, and starts a relocation only after the
  previous one has ended.\<close>

definition event_expected :: "u64 \<Rightarrow> event \<Rightarrow> 'a stress_network \<Rightarrow> bool" where
  "event_expected nid event net =
     (case bt_get (sn_nodes net) nid of
        Some (NodeJoined m) \<Rightarrow>
          (case event of RelocationStarted _ \<Rightarrow> \<not> mb_is_relocating m | RelocatedEvent _ _ \<Rightarrow> mb_is_relocating m | _ \<Rightarrow> True)
      | _ \<Rightarrow> True)"

inductive stress_step :: "xor_ops \<Rightarrow> 'a aggregator_ops \<Rightarrow> 'a stress_network \<Rightarrow> 'a stress_network \<Rightarrow> bool" for X A where
  churn_join: "create_node net = Some (config, net') \<Longrightarrow> stress_step X A net net'"
| churn_drop: "index < length (joined_members net) \<Longrightarrow> stress_step X A net (remove_random_node index net)"
| join_success: "bt_get (sn_nodes net) nid = Some NodeJoining \<Longrightarrow>
    stress_step X A net (snd (stress_handle_event A decode nows t current (JoinSuccess nid addr name age p) net))"
| join_failure: "bt_get (sn_nodes net) nid = Some NodeJoining \<Longrightarrow>
    stress_step X A net (snd (stress_handle_event A decode nows t current (JoinFailure nid) net))"
| node_event: "event_expected nid event net \<Longrightarrow>
    stress_step X A net (snd (stress_handle_event A decode nows t current (NodeEvent nid event) net))"
| probes: "stress_step X A net (snd (send_probes X A probe nows ts draws net))"

section \<open>Counting\<close>

definition count_nodes :: "(stress_node \<Rightarrow> bool) \<Rightarrow> (u64, stress_node) btree_map \<Rightarrow> nat" where
  "count_nodes P m = length (filter P (bt_values m))"

fun node_joined :: "stress_node \<Rightarrow> bool" where
  "node_joined NodeJoining = False"
| "node_joined (NodeJoined _) = True"

fun node_relocating :: "stress_node \<Rightarrow> bool" where
  "node_relocating NodeJoining = False"
| "node_relocating (NodeJoined m) = mb_is_relocating m"

definition stress_inv :: "'a stress_network \<Rightarrow> bool" where
  "stress_inv net \<longleftrightarrow>
     bt_inv (sn_nodes net) \<and> (\<forall>nid \<in> set (bt_keys (sn_nodes net)). nid < sn_next_id net) \<and>
     ss_join_attempts (sn_stats net) =
       ss_join_successes (sn_stats net) + ss_join_failures (sn_stats net) + count_nodes (\<lambda>n. \<not> node_joined n) (sn_nodes net) \<and>
     ss_join_successes (sn_stats net) = ss_drops (sn_stats net) + count_nodes node_joined (sn_nodes net) \<and>
     ss_relocation_attempts (sn_stats net) =
       ss_relocation_successes (sn_stats net) + count_nodes node_relocating (sn_nodes net)"

definition counted :: "(stress_node \<Rightarrow> bool) \<Rightarrow> stress_node option \<Rightarrow> nat" where
  "counted P node = (case node of Some n \<Rightarrow> if P n then 1 else 0 | None \<Rightarrow> 0)"

lemma counted_simps [simp]: "counted P None = 0" "counted P (Some n) = (if P n then 1 else 0)"
  by (simp_all add: counted_def)

lemma count_insert:
  "bt_inv m \<Longrightarrow> count_nodes P (bt_insert k v m) + counted P (bt_get m k) = count_nodes P m + counted P (Some v)"
proof (induction m)
  case (Cons p m)
  have "k < fst p \<Longrightarrow> map_of m k = None" using Cons.prems by (fastforce simp: map_of_eq_None_iff)
  then show ?case using Cons by (cases p) (auto simp: count_nodes_def)
qed (simp add: count_nodes_def)

lemma count_remove:
  "bt_inv m \<Longrightarrow> count_nodes P (bt_remove k m) + counted P (bt_get m k) = count_nodes P m"
proof (induction m)
  case (Cons p m)
  have "k = fst p \<Longrightarrow> filter (\<lambda>q. fst q \<noteq> k) m = m" using Cons.prems by (fastforce simp: filter_id_conv)
  then show ?case using Cons by (cases p) (auto simp: count_nodes_def bt_remove_def)
qed (simp add: count_nodes_def bt_remove_def)

lemma bt_remove_keys [simp]: "bt_inv m \<Longrightarrow> bt_inv (bt_remove k m)" "set (bt_keys (bt_remove k m)) \<subseteq> set (bt_keys m)"
  by (auto simp: bt_remove_def)

lemma joined_members_get:
  assumes "bt_inv (sn_nodes net)" "index < length (joined_members net)"
  obtains m where "bt_get (sn_nodes net) (map fst (joined_members net) ! index) = Some (NodeJoined m)"
proof -
  have "joined_members net ! index \<in> set (joined_members net)" using assms(2) by simp
  then obtain nid m where m: "joined_members net ! index = (nid, m)" "(nid, NodeJoined m) \<in> set (sn_nodes net)"
    by (auto simp: joined_members_def map_filter_def split: stress_node.splits)
  then have "bt_get (sn_nodes net) nid = Some (NodeJoined m)" using bt_inv_distinct [OF assms(1)] by simp
  then show thesis using that m assms(2) by simp
qed

section \<open>Every run keeps the books\<close>

lemma update_joined_inv:
  assumes "stress_inv net" "bt_get (sn_nodes net) nid = Some (NodeJoined m)"
  shows "bt_inv (sn_nodes (update_joined nid f net))"
    "set (bt_keys (sn_nodes (update_joined nid f net))) = set (bt_keys (sn_nodes net))"
    "count_nodes P (sn_nodes (update_joined nid f net)) + counted P (Some (NodeJoined m)) =
       count_nodes P (sn_nodes net) + counted P (Some (NodeJoined (f m)))"
    "sn_next_id (update_joined nid f net) = sn_next_id net" "sn_stats (update_joined nid f net) = sn_stats net"
proof -
  have inv: "bt_inv (sn_nodes net)" using assms(1) by (simp add: stress_inv_def)
  then show "count_nodes P (sn_nodes (update_joined nid f net)) + counted P (Some (NodeJoined m)) =
      count_nodes P (sn_nodes net) + counted P (Some (NodeJoined (f m)))"
    using count_insert [OF inv, of P nid "NodeJoined (f m)"] assms(2) by (simp add: update_joined_def)
  have "nid \<in> set (bt_keys (sn_nodes net))" using map_of_SomeD [OF assms(2)] by force
  then show "set (bt_keys (sn_nodes (update_joined nid f net))) = set (bt_keys (sn_nodes net))"
    using assms(2) by (auto simp: update_joined_def)
qed (use assms in \<open>simp_all add: update_joined_def stress_inv_def\<close>)

lemma update_joined_other: "(\<And>m. bt_get (sn_nodes net) nid \<noteq> Some (NodeJoined m)) \<Longrightarrow> update_joined nid f net = net"
  by (auto simp: update_joined_def split: option.splits stress_node.splits)

lemma less_next: "(x :: u64) \<noteq> - 1 \<Longrightarrow> x < x + 1"
proof -
  assume x: "x \<noteq> - 1"
  have "unat x \<noteq> 18446744073709551615"
  proof
    assume "unat x = 18446744073709551615"
    then have "of_nat (unat x) = (- 1 :: u64)" by simp
    then show False using x by simp
  qed
  moreover have "unat x < 2 ^ 64" using unsigned_less [of x] by simp
  ultimately have "unat x + 1 < 2 ^ 64" by simp
  then show ?thesis by (simp add: word_less_nat_alt unat_word_ariths)
qed

lemma create_node_inv:
  assumes "stress_inv net" "create_node net = Some (config, net')"
  shows "stress_inv net'"
proof -
  have inv: "bt_inv (sn_nodes net)" and fresh: "\<forall>nid \<in> set (bt_keys (sn_nodes net)). nid < sn_next_id net"
    using assms(1) by (simp_all add: stress_inv_def)
  from assms(2) have next_id: "sn_next_id net \<noteq> - 1" and
    net': "net' = net\<lparr>sn_next_id := sn_next_id net + 1, sn_nodes := bt_insert (sn_next_id net) NodeJoining (sn_nodes net),
      sn_stats := (sn_stats net)\<lparr>ss_join_attempts := ss_join_attempts (sn_stats net) + 1\<rparr>\<rparr>"
    by (auto simp: create_node_def new_node_id_def Let_def split: if_splits)
  have "sn_next_id net \<notin> set (bt_keys (sn_nodes net))" using fresh by auto
  then have "bt_get (sn_nodes net) (sn_next_id net) = None" by (simp add: map_of_eq_None_iff)
  then have count: "count_nodes P (bt_insert (sn_next_id net) NodeJoining (sn_nodes net)) =
      count_nodes P (sn_nodes net) + counted P (Some NodeJoining)" for P
    using count_insert [OF inv, of P "sn_next_id net" NodeJoining] by simp
  have "sn_next_id net < sn_next_id net + 1" by (rule less_next [OF next_id])
  then have "\<forall>nid \<in> set (bt_keys (bt_insert (sn_next_id net) NodeJoining (sn_nodes net))). nid < sn_next_id net + 1"
    using fresh by (auto intro: less_trans)
  then show ?thesis using assms(1) inv count by (simp add: net' stress_inv_def)
qed

lemma remove_random_node_inv:
  assumes "stress_inv net" "index < length (joined_members net)"
  shows "stress_inv (remove_random_node index net)"
proof -
  let ?nid = "map fst (joined_members net) ! index"
  have inv: "bt_inv (sn_nodes net)" using assms(1) by (simp add: stress_inv_def)
  obtain m where m: "bt_get (sn_nodes net) ?nid = Some (NodeJoined m)" by (rule joined_members_get [OF inv assms(2)])
  have "joined_members net \<noteq> []" using assms(2) by auto
  then have removed: "remove_random_node index net = net\<lparr>sn_nodes := bt_remove ?nid (sn_nodes net),
      sn_stats := (sn_stats net)\<lparr>ss_drops := ss_drops (sn_stats net) + 1,
        ss_relocation_successes := ss_relocation_successes (sn_stats net) + (if mb_is_relocating m then 1 else 0)\<rparr>\<rparr>"
    using m by (simp add: remove_random_node_def Let_def)
  have "count_nodes P (bt_remove ?nid (sn_nodes net)) + (if P (NodeJoined m) then 1 else 0) = count_nodes P (sn_nodes net)" for P
    using count_remove [OF inv, of P ?nid] m by simp
  note count = this [of "\<lambda>n. \<not> node_joined n"] this [of node_joined] this [of node_relocating]
  show ?thesis
    using assms(1) inv count bt_remove_keys(2) [of ?nid "sn_nodes net"]
    by (auto simp: removed stress_inv_def)
qed

lemma join_outcome_inv:
  assumes "stress_inv net" "bt_get (sn_nodes net) nid = Some NodeJoining"
  shows "stress_inv (snd (stress_handle_event A decode nows t current (JoinSuccess nid addr name age p) net))"
    and "stress_inv (snd (stress_handle_event A decode nows t current (JoinFailure nid) net))"
proof -
  have inv: "bt_inv (sn_nodes net)" using assms(1) by (simp add: stress_inv_def)
  have key: "nid \<in> set (bt_keys (sn_nodes net))" using map_of_SomeD [OF assms(2)] by force
  let ?m = "NodeJoined \<lparr>mb_addr = addr, mb_name = name, mb_age = age, mb_prefix = p, mb_is_relocating = False, mb_elder = None\<rparr>"
  note insert = count_insert [OF inv, of "\<lambda>n. \<not> node_joined n" nid ?m] count_insert [OF inv, of node_joined nid ?m]
    count_insert [OF inv, of node_relocating nid ?m]
  show "stress_inv (snd (stress_handle_event A decode nows t current (JoinSuccess nid addr name age p) net))"
    using assms inv key insert by (auto simp: stress_handle_event_def stress_inv_def)
  note remove = count_remove [OF inv, of "\<lambda>n. \<not> node_joined n" nid] count_remove [OF inv, of node_joined nid]
    count_remove [OF inv, of node_relocating nid]
  show "stress_inv (snd (stress_handle_event A decode nows t current (JoinFailure nid) net))"
    using assms inv remove bt_remove_keys(2) [of nid "sn_nodes net"] by (auto simp: stress_handle_event_def stress_inv_def)
qed

lemma stress_inv_tracker [simp]: "stress_inv (net\<lparr>sn_probe_tracker := tr\<rparr>) = stress_inv net"
  by (simp add: stress_inv_def)

lemma count_change_stats [simp]:
  "ss_join_attempts (count_change c st) = ss_join_attempts st" "ss_join_successes (count_change c st) = ss_join_successes st"
  "ss_join_failures (count_change c st) = ss_join_failures st" "ss_drops (count_change c st) = ss_drops st"
  "ss_relocation_attempts (count_change c st) = ss_relocation_attempts st"
  "ss_relocation_successes (count_change c st) = ss_relocation_successes st"
  by (simp_all add: count_change_def split: node_elder_change.split)

lemma elders_changed_relocating [simp]: "mb_is_relocating (elders_changed el m) = mb_is_relocating m"
  by (simp add: elders_changed_def Let_def)

text \<open>An update of a member that keeps the books balanced.\<close>

lemma update_joined_books:
  assumes "stress_inv net" "bt_get (sn_nodes net) nid = Some (NodeJoined m)"
    and "ss_join_attempts st = ss_join_attempts (sn_stats net)" "ss_join_successes st = ss_join_successes (sn_stats net)"
    "ss_join_failures st = ss_join_failures (sn_stats net)" "ss_drops st = ss_drops (sn_stats net)"
    and "ss_relocation_attempts st + ss_relocation_successes (sn_stats net) + (if mb_is_relocating m then 1 else 0) =
      ss_relocation_successes st + ss_relocation_attempts (sn_stats net) + (if mb_is_relocating (f m) then 1 else 0)"
  shows "stress_inv ((update_joined nid f net)\<lparr>sn_stats := st\<rparr>)"
proof -
  note count = update_joined_inv(3) [OF assms(1,2), of "\<lambda>n. \<not> node_joined n" f] update_joined_inv(3) [OF assms(1,2), of node_joined f]
    update_joined_inv(3) [OF assms(1,2), of node_relocating f]
  show ?thesis
    using assms(1,3-7) count update_joined_inv(1,2,4) [OF assms(1,2), of f]
    by (simp add: stress_inv_def split: if_splits)
qed

lemma node_event_inv:
  assumes "stress_inv net" "event_expected nid event net"
  shows "stress_inv (snd (handle_node_event A decode nows t current nid event net))"
proof (cases "\<exists>m. bt_get (sn_nodes net) nid = Some (NodeJoined m)")
  case True
  then obtain m where m: "bt_get (sn_nodes net) nid = Some (NodeJoined m)" by blast
  have elders: "stress_inv ((update_joined nid (elders_changed el) net)
      \<lparr>sn_stats := count_change c (sn_stats (update_joined nid (elders_changed el) net))\<rparr>)" for el c
    using update_joined_inv(5) [OF assms(1) m] by (intro update_joined_books [OF assms(1) m]) simp_all
  show ?thesis
    using assms m elders
    by (cases event)
      (auto simp: handle_node_event_def Let_def event_expected_def split: option.splits dst_location.splits
        intro!: update_joined_books [OF assms(1) m])
next
  case False
  then have same: "update_joined nid f net = net" for f by (intro update_joined_other) blast
  have stats: "stress_inv (net\<lparr>sn_stats := count_change c (sn_stats net)\<rparr>)" for c using assms(1) by (simp add: stress_inv_def)
  have "(case bt_get (sn_nodes net) nid of Some (NodeJoined _) \<Rightarrow> True | _ \<Rightarrow> False) = False"
    using False by (auto split: option.splits stress_node.splits)
  then show ?thesis
    using assms(1) stats
    by (cases event) (auto simp: handle_node_event_def Let_def same split: option.splits dst_location.splits)
qed

lemma stress_step_inv: "stress_step X A net net' \<Longrightarrow> stress_inv net \<Longrightarrow> stress_inv net'"
proof (induction rule: stress_step.induct)
  case (node_event nid event net decode nows t current)
  then show ?case using node_event_inv by (simp add: stress_handle_event_def)
next
  case (probes net probe nows ts draws)
  then show ?case by (simp add: send_probes_def split: prod.splits sum.splits)
qed (blast intro: create_node_inv remove_random_node_inv join_outcome_inv)+

lemma stress_new_inv: "stress_inv stress_network_new"
  by (simp add: stress_inv_def stress_network_new_def count_nodes_def)

lemma sum_list_bump: "i < length xs \<Longrightarrow> sum_list (xs[i := Suc (xs ! i)]) = Suc (sum_list xs)"
  by (induction xs arbitrary: i) (auto split: nat.split)

lemma age_index: "unat (age :: u8) < 256"
  using unsigned_less [of age] by simp

lemma status_add_counts:
  assumes "length (su_ages st) = 256"
  shows "su_joining (status_add X node st) = su_joining st + counted (\<lambda>n. \<not> node_joined n) (Some node)"
    "su_relocating (status_add X node st) = su_relocating st + counted node_relocating (Some node)"
    "su_active (status_add X node st) + su_relocating (status_add X node st) = su_active st + su_relocating st + counted node_joined (Some node)"
    "sum_list (su_ages (status_add X node st)) = sum_list (su_ages st) + counted node_joined (Some node)"
    "length (su_ages (status_add X node st)) = 256"
  using assms age_index by (simp_all add: status_add_def Let_def sum_list_bump split: stress_node.split)

lemma print_status_counts:
  fixes X :: xor_ops and m :: "(u64, stress_node) btree_map"
  assumes "length (su_ages st) = 256"
  defines "st' \<equiv> foldl (\<lambda>st node. status_add X node st) st (bt_values m)"
  shows "su_joining st' = su_joining st + count_nodes (\<lambda>n. \<not> node_joined n) m \<and>
    su_relocating st' = su_relocating st + count_nodes node_relocating m \<and>
    su_active st' + su_relocating st' = su_active st + su_relocating st + count_nodes node_joined m \<and>
    sum_list (su_ages st') = sum_list (su_ages st) + count_nodes node_joined m"
  using assms(1) unfolding st'_def
proof (induction m arbitrary: st)
  case (Cons p m)
  have "count_nodes P (p # m) = counted P (Some (snd p)) + count_nodes P m" for P by (simp add: count_nodes_def)
  then show ?case
    using Cons.IH [OF status_add_counts(5) [OF Cons.prems, of X "snd p"]] status_add_counts(1-4) [OF Cons.prems, of X "snd p"]
    by (simp del: counted_simps)
qed (simp add: count_nodes_def)

lemma status_new_counts:
  "length (su_ages status_new) = 256" "su_active status_new = 0" "su_joining status_new = 0" "su_relocating status_new = 0"
  "sum_list (su_ages status_new) = 0"
  by (simp_all add: status_new_def sum_list_replicate)

text \<open>The schedule has as many events of each kind as it asks for, each within its period.\<close>

lemma schedule_events_counts:
  "length (filter (\<lambda>e. fst e = ChurnJoin) (schedule_events pick n start ps)) = sum_list (map cp_joins ps)"
  "length (filter (\<lambda>e. fst e = ChurnDrop) (schedule_events pick n start ps)) = sum_list (map cp_drops ps)"
  by (induction ps arbitrary: n start) (simp_all add: Let_def filter_map comp_def)

lemma schedule_events_times:
  assumes "\<And>k a b. a < b \<Longrightarrow> a \<le> pick k a b \<and> pick k a b < b" "(e, time) \<in> set (schedule_events pick n start ps)"
  shows "start \<le> time \<and> time \<le> start + sum_list (map cp_duration ps)"
  using assms(2)
proof (induction ps arbitrary: n start)
  case (Cons p ps)
  let ?upto = "start + cp_duration p"
  have time: "start \<le> event_time pick k start ?upto \<and> event_time pick k start ?upto \<le> ?upto" for k
    using assms(1) [of start ?upto k] by (auto simp: event_time_def)
  from Cons.prems consider k where "time = event_time pick k start ?upto"
    | "(e, time) \<in> set (schedule_events pick (n + cp_joins p + cp_drops p) ?upto ps)"
    by (auto simp: Let_def)
  then show ?case
  proof cases
    case (1 k)
    then show ?thesis using time [of k] by simp
  next
    case 2
    then show ?thesis using Cons.IH [OF 2] by simp
  qed
qed simp

section \<open>The books balance\<close>

text \<open>Every attempt to join has succeeded, failed or is under way; every node that joined was
  dropped, is active or is being relocated; every relocation that was started has ended or is
  under way; and the nodes are counted completely, in total and by age.\<close>

lemma stress_books_balance:
  assumes "(stress_step X A)\<^sup>*\<^sup>* stress_network_new net"
  shows "ss_join_attempts (sn_stats net) =
      ss_join_successes (sn_stats net) + ss_join_failures (sn_stats net) + su_joining (print_status X net) \<and>
    ss_join_successes (sn_stats net) =
      ss_drops (sn_stats net) + su_active (print_status X net) + su_relocating (print_status X net) \<and>
    ss_relocation_attempts (sn_stats net) = ss_relocation_successes (sn_stats net) + su_relocating (print_status X net) \<and>
    length (sn_nodes net) = su_joining (print_status X net) + su_active (print_status X net) + su_relocating (print_status X net) \<and>
    sum_list (su_ages (print_status X net)) = su_active (print_status X net) + su_relocating (print_status X net)"
proof -
  have "stress_inv net" using assms by (induction rule: rtranclp_induct) (auto intro: stress_new_inv stress_step_inv)
  moreover have "length (sn_nodes net) = count_nodes (\<lambda>n. \<not> node_joined n) (sn_nodes net) + count_nodes node_joined (sn_nodes net)"
    using sum_length_filter_compl [of node_joined "bt_values (sn_nodes net)"] by (simp add: count_nodes_def)
  moreover note print_status_counts [OF status_new_counts(1), of X "sn_nodes net"]
  ultimately show ?thesis unfolding print_status_def stress_inv_def status_new_counts by simp
qed

text \<open>A network with one node, which was started and has joined.\<close>

definition token_members :: "unit stress_network" where
  "token_members = stress_network_new\<lparr>sn_next_id := 1,
     sn_nodes := [(0, NodeJoined \<lparr>mb_addr = 10, mb_name = 255, mb_age = 255, mb_prefix = [], mb_is_relocating = False,
       mb_elder = None\<rparr>)],
     sn_stats := (sn_stats (stress_network_new :: unit stress_network))\<lparr>ss_join_attempts := 1, ss_join_successes := 1\<rparr>\<rparr>"

lemma token_members_reached: "(stress_step bit_ops A)\<^sup>*\<^sup>* stress_network_new token_members"
proof -
  let ?net = "stress_network_new :: unit stress_network"
  let ?joining = "?net\<lparr>sn_next_id := 1, sn_nodes := [(0, NodeJoining)],
    sn_stats := (sn_stats ?net)\<lparr>ss_join_attempts := 1\<rparr>\<rparr>"
  have "create_node ?net = Some ((0, True, []), ?joining)"
    by (simp add: create_node_def new_node_id_def get_bootstrap_addrs_def joined_members_def stress_network_new_def map_filter_def)
  then have "stress_step bit_ops A ?net ?joining" by (rule churn_join)
  moreover have "stress_step bit_ops A ?joining (snd (stress_handle_event A (\<lambda>_. None) (\<lambda>_. 0)
      \<lparr>ck_new = 0, ck_replaced = 0, ck_expired = 0, ck_excess = 0\<rparr> (0, 0) (JoinSuccess 0 10 255 255 []) ?joining))"
    by (rule join_success) simp
  ultimately show ?thesis
    by (simp add: stress_handle_event_def token_members_def stress_network_new_def)
qed

end
