(* ===== verification/Network_Stats.thy ===== *)
theory Network_Stats
  imports Complex_Main Network_Knowledge
begin

text \<open>
  The estimate of the number of elders of the whole network: \<open>network_stats\<close> and
  \<open>network_elder_counts\<close> of \<open>src/network/mod.rs\<close>, with the record of \<open>src/network/stats.rs\<close>.
  Floating point numbers are rationals, and every operation of the source that may round
  goes through \<open>fl\<close>. The rules of IEEE 754 that matter here are \<open>f64_rounding\<close>: rounding is
  monotone, and numbers with a mantissa of at most 53 bits are not changed.
\<close>

section \<open>Definitions\<close>

definition f64_rounding :: "(rat \<Rightarrow> rat) \<Rightarrow> bool" where
  "f64_rounding fl \<longleftrightarrow> mono fl \<and> (\<forall>m k. m \<le> 2 ^ 53 \<longrightarrow> k \<le> 1074 \<longrightarrow> fl (of_nat m / 2 ^ k) = of_nat m / 2 ^ k)"

record network_statistics =
  known_elders :: u64
  total_elders :: u64
  total_elders_exact :: bool

definition known_prefixes :: "network \<Rightarrow> section_auth \<Rightarrow> pfx list" where
  "known_prefixes n our = sa_prefix our # map other_prefix (nw_sections n)"

text \<open>\<open>exp2\<close> of a small integer is a power of two, which is exact.\<close>

definition network_fraction :: "(rat \<Rightarrow> rat) \<Rightarrow> xor_ops \<Rightarrow> pfx list \<Rightarrow> rat" where
  "network_fraction fl X ps = foldl (\<lambda>sum p. fl (sum + fl (1 / 2 ^ pf_bit_count X p))) 0 ps"

text \<open>\<open>as u64\<close> saturates.\<close>

definition f64_as_u64 :: "rat \<Rightarrow> u64" where
  "f64_as_u64 x = word_of_int (max 0 (min \<lfloor>x\<rfloor> (2 ^ 64 - 1)))"

definition network_elder_counts ::
  "(rat \<Rightarrow> rat) \<Rightarrow> xor_ops \<Rightarrow> network \<Rightarrow> section_auth \<Rightarrow> u64 \<times> u64 \<times> bool" where
  "network_elder_counts fl X n our =
     (let prefixes = known_prefixes n our;
          is_exact = pf_is_covered_by X [] prefixes;
          fraction = network_fraction fl X prefixes;
          known = elder_count our + length (network_elders n);
          total = fl (fl (of_nat known) / fraction)
      in (of_nat known, f64_as_u64 (of_int \<lceil>total\<rceil>), is_exact))"

definition network_stats :: "(rat \<Rightarrow> rat) \<Rightarrow> xor_ops \<Rightarrow> network \<Rightarrow> section_auth \<Rightarrow> network_statistics" where
  "network_stats fl X n our =
     (case network_elder_counts fl X n our of (known, estimate, is_exact) \<Rightarrow>
        \<lparr>known_elders = known, total_elders = estimate, total_elders_exact = is_exact\<rparr>)"

section \<open>The share of the names that a set of prefixes covers\<close>

text \<open>No prefix is repeated or extends another.\<close>

definition disjoint_prefixes :: "pfx list \<Rightarrow> bool" where
  "disjoint_prefixes ps \<longleftrightarrow> sorted_wrt (\<lambda>p q. \<not> prefix p q \<and> \<not> prefix q p) ps"

definition extensions :: "nat \<Rightarrow> pfx \<Rightarrow> pfx set" where
  "extensions l p = {w. length w = l \<and> prefix p w}"

definition weight :: "nat \<Rightarrow> pfx list \<Rightarrow> nat" where
  "weight l ps = sum_list (map (\<lambda>p. 2 ^ (l - length p)) ps)"

lemma extensions_Nil: "card (extensions l []) = 2 ^ l" "finite (extensions l [])"
  using card_lists_length_eq [of "UNIV :: bool set" l] finite_lists_length_eq [of "UNIV :: bool set" l]
  by (simp_all add: extensions_def)

lemma extensions_image: "length p \<le> l \<Longrightarrow> extensions l p = (\<lambda>w. p @ w) ` extensions (l - length p) []"
  by (auto simp: extensions_def prefix_def image_iff)

lemma card_extensions: "length p \<le> l \<Longrightarrow> card (extensions l p) = 2 ^ (l - length p)"
  using extensions_Nil(1) by (subst extensions_image) (simp_all add: card_image inj_on_def)

lemma finite_extensions: "finite (extensions l p)"
  by (rule finite_subset [OF _ extensions_Nil(2) [of l]]) (auto simp: extensions_def)

lemma extensions_disjoint:
  "\<not> prefix p q \<Longrightarrow> \<not> prefix q p \<Longrightarrow> extensions l p \<inter> extensions l q = {}"
  by (auto simp: extensions_def dest: prefix_same_cases)

lemma card_covered:
  assumes "disjoint_prefixes ps" "\<forall>p \<in> set ps. length p \<le> l"
  shows "card (\<Union> (extensions l ` set ps)) = weight l ps"
  using assms
proof (induction ps)
  case (Cons p ps)
  have "extensions l p \<inter> extensions l q = {}" if "q \<in> set ps" for q
    using Cons.prems(1) that by (intro extensions_disjoint) (simp_all add: disjoint_prefixes_def)
  then have disjoint: "extensions l p \<inter> \<Union> (extensions l ` set ps) = {}" by blast
  have "finite (\<Union> (extensions l ` set ps))" by (simp add: finite_extensions)
  then have "card (extensions l p \<union> \<Union> (extensions l ` set ps)) = card (extensions l p) + card (\<Union> (extensions l ` set ps))"
    using card_Un_disjoint [OF finite_extensions _ disjoint] by simp
  moreover have "card (\<Union> (extensions l ` set ps)) = weight l ps"
    using Cons.prems by (intro Cons.IH) (simp_all add: disjoint_prefixes_def)
  moreover have "card (extensions l p) = 2 ^ (l - length p)" using Cons.prems(2) by (simp add: card_extensions)
  ultimately show ?case by (simp add: weight_def)
qed (simp add: weight_def)

lemma weight_bound:
  assumes "disjoint_prefixes ps" "\<forall>p \<in> set ps. length p \<le> l"
  shows "weight l ps \<le> 2 ^ l"
    and "weight l ps = 2 ^ l \<longleftrightarrow> (\<forall>w. length w = l \<longrightarrow> (\<exists>p \<in> set ps. prefix p w))"
proof -
  have sub: "\<Union> (extensions l ` set ps) \<subseteq> extensions l []" by (auto simp: extensions_def)
  then show "weight l ps \<le> 2 ^ l"
    using card_mono [OF extensions_Nil(2) sub] card_covered [OF assms] extensions_Nil(1) by simp
  have "weight l ps = 2 ^ l \<longleftrightarrow> \<Union> (extensions l ` set ps) = extensions l []"
    using card_subset_eq [OF extensions_Nil(2) sub] card_covered [OF assms] extensions_Nil(1) [of l] by auto
  then show "weight l ps = 2 ^ l \<longleftrightarrow> (\<forall>w. length w = l \<longrightarrow> (\<exists>p \<in> set ps. prefix p w))"
    by (auto simp: extensions_def)
qed

context xor_space
begin

lemma covers_all_iff:
  assumes "\<forall>p \<in> set ps. length p \<le> l" "l \<le> 256"
  shows "pf_is_covered_by X [] ps \<longleftrightarrow> (\<forall>w. length w = l \<longrightarrow> (\<exists>p \<in> set ps. prefix p w))"
proof
  assume cov: "pf_is_covered_by X [] ps"
  show "\<forall>w. length w = l \<longrightarrow> (\<exists>p \<in> set ps. prefix p w)"
  proof (intro allI impI)
    fix w :: pfx assume w: "length w = l"
    then obtain n where n: "pf_matches X w n" using matches_exists assms(2) by auto
    then obtain p where "p \<in> set ps" "pf_matches X p n" using cov by (auto simp: covered_iff)
    then show "\<exists>p \<in> set ps. prefix p w" using matches_compatible n assms(1) w by blast
  qed
next
  assume all: "\<forall>w. length w = l \<longrightarrow> (\<exists>p \<in> set ps. prefix p w)"
  have "\<exists>p \<in> set ps. pf_matches X p n" for n
  proof -
    let ?w = "map (xn_bit X n) [0..<l]"
    have "pf_matches X ?w n" using assms(2) by (simp add: matches_iff)
    moreover have "length ?w = l" by simp
    then obtain p where "p \<in> set ps" "prefix p ?w" using all by blast
    ultimately show ?thesis using matches_prefix by blast
  qed
  then show "pf_is_covered_by X [] ps" by (simp add: covered_iff)
qed

text \<open>The sum of the source is exact when no prefix is longer than the mantissa.\<close>

lemma network_fraction_exact:
  assumes exact: "\<And>m k. m \<le> 2 ^ l \<Longrightarrow> k \<le> l \<Longrightarrow> fl (of_nat m / 2 ^ k) = of_nat m / 2 ^ k"
    and "\<forall>p \<in> set ps. length p \<le> l" "weight l ps \<le> 2 ^ l"
  shows "network_fraction fl X ps = of_nat (weight l ps) / 2 ^ l"
proof -
  let ?add = "\<lambda>sum p. fl (sum + fl (1 / 2 ^ pf_bit_count X p))"
  have "foldl ?add (of_nat m / 2 ^ l) ps = of_nat (m + weight l ps) / 2 ^ l" if "m + weight l ps \<le> 2 ^ l" for m
    using that assms(2)
  proof (induction ps arbitrary: m)
    case (Cons p ps)
    have p: "length p \<le> l" using Cons.prems(2) by simp
    have "(2 :: rat) ^ l = 2 ^ (l - length p) * 2 ^ length p" using p by (simp flip: power_add)
    then have sum: "of_nat m / 2 ^ l + 1 / 2 ^ length p = (of_nat (m + 2 ^ (l - length p)) / 2 ^ l :: rat)"
      by (simp add: field_simps)
    have "fl (1 / 2 ^ length p) = 1 / 2 ^ length p" using exact [of 1 "length p"] p by simp
    then have "?add (of_nat m / 2 ^ l) p = fl (of_nat (m + 2 ^ (l - length p)) / 2 ^ l)" by (simp only: bit_count sum)
    also have "\<dots> = of_nat (m + 2 ^ (l - length p)) / 2 ^ l" using Cons.prems(1) by (intro exact) (simp_all add: weight_def)
    finally have "foldl ?add (of_nat m / 2 ^ l) (p # ps) = foldl ?add (of_nat (m + 2 ^ (l - length p)) / 2 ^ l) ps" by simp
    also have "\<dots> = of_nat (m + 2 ^ (l - length p) + weight l ps) / 2 ^ l"
      using Cons.prems by (intro Cons.IH) (simp_all add: weight_def)
    finally show ?case by (simp add: weight_def add.assoc)
  qed (simp add: weight_def)
  from this [of 0] show ?thesis using assms(3) by (simp add: network_fraction_def)
qed

end

section \<open>Properties\<close>

lemma f64_roundingD:
  assumes "f64_rounding fl"
  shows "x \<le> y \<Longrightarrow> fl x \<le> fl y" "m \<le> 2 ^ 53 \<Longrightarrow> k \<le> 1074 \<Longrightarrow> fl (of_nat m / 2 ^ k) = of_nat m / 2 ^ k"
    "m \<le> 2 ^ 53 \<Longrightarrow> fl (of_nat m) = of_nat m"
proof -
  have exact: "\<forall>m k. m \<le> 2 ^ 53 \<longrightarrow> k \<le> 1074 \<longrightarrow> fl (of_nat m / 2 ^ k) = of_nat m / 2 ^ k"
    using assms unfolding f64_rounding_def by blast
  then show "m \<le> 2 ^ 53 \<Longrightarrow> k \<le> 1074 \<Longrightarrow> fl (of_nat m / 2 ^ k) = of_nat m / 2 ^ k" by blast
  show "m \<le> 2 ^ 53 \<Longrightarrow> fl (of_nat m) = of_nat m" using exact [rule_format, of m 0] by simp
  show "x \<le> y \<Longrightarrow> fl x \<le> fl y" using assms unfolding f64_rounding_def by (blast dest: monoD)
qed

lemma fraction_of_network:
  assumes "xor_space X" "f64_rounding fl" "disjoint_prefixes (p # ps)" "\<forall>q \<in> set (p # ps). length q \<le> 53"
  shows "0 < network_fraction fl X (p # ps) \<and> network_fraction fl X (p # ps) \<le> 1"
    and "network_fraction fl X (p # ps) = 1 \<longleftrightarrow> pf_is_covered_by X [] (p # ps)"
proof -
  let ?w = "weight 53 (p # ps)"
  note bound = weight_bound [OF assms(3,4)]
  have frac: "network_fraction fl X (p # ps) = of_nat ?w / 2 ^ 53"
    using f64_roundingD(2) [OF assms(2)] bound(1) assms(4) by (intro xor_space.network_fraction_exact [OF assms(1)]) auto
  have "(of_nat ?w :: rat) \<le> of_nat (2 ^ 53)" using bound(1) by (simp only: of_nat_le_iff)
  moreover have "0 < ?w" by (simp add: weight_def)
  ultimately show "0 < network_fraction fl X (p # ps) \<and> network_fraction fl X (p # ps) \<le> 1" by (simp add: frac)
  have "network_fraction fl X (p # ps) = 1 \<longleftrightarrow> of_nat ?w = (of_nat (2 ^ 53) :: rat)" by (simp add: frac)
  also have "\<dots> \<longleftrightarrow> ?w = 2 ^ 53" by (simp only: of_nat_eq_iff)
  also have "\<dots> \<longleftrightarrow> pf_is_covered_by X [] (p # ps)"
    using bound(2) xor_space.covers_all_iff [OF assms(1,4)] by simp
  finally show "network_fraction fl X (p # ps) = 1 \<longleftrightarrow> pf_is_covered_by X [] (p # ps)" .
qed

lemma f64_as_u64_nat: "m < 2 ^ 64 \<Longrightarrow> f64_as_u64 (of_nat m) = of_nat m"
  by (simp add: f64_as_u64_def)

lemma f64_as_u64_ge:
  assumes "of_nat m \<le> x" "m < 2 ^ 64"
  shows "of_nat m \<le> f64_as_u64 (of_int \<lceil>x\<rceil>)"
proof -
  have "int m \<le> \<lceil>x\<rceil>" using assms(1) by (simp add: le_ceiling_iff)
  then have "int m \<le> max 0 (min \<lceil>x\<rceil> (2 ^ 64 - 1))" "max 0 (min \<lceil>x\<rceil> (2 ^ 64 - 1)) < 2 ^ 64" using assms(2) by auto
  moreover have "uint (of_nat m :: u64) = int m" using assms(2) by (simp add: unsigned_of_nat take_bit_nat_eq_self flip: of_nat_take_bit)
  ultimately show ?thesis by (simp add: f64_as_u64_def word_le_def uint_word_of_int take_bit_int_eq_self)
qed

text \<open>C35. The estimate of the number of elders in the network is never below the number of known
  ones, and it is that number when it is reported as exact, which happens when the known
  prefixes make up the whole network. This is for prefixes of which none extends another and none
  has more than 53 bits, as the precision of the arithmetic allows, and as many elders.\<close>

theorem network_stats_estimate:
  assumes "xor_space X" and "f64_rounding fl" and "disjoint_prefixes (known_prefixes n our)"
    and "\<forall>p \<in> set (known_prefixes n our). length p \<le> 53"
    and "elder_count our + length (network_elders n) \<le> 2 ^ 53"
  shows "unat (known_elders (network_stats fl X n our)) = elder_count our + length (network_elders n) \<and>
    known_elders (network_stats fl X n our) \<le> total_elders (network_stats fl X n our) \<and>
    (total_elders_exact (network_stats fl X n our) \<longleftrightarrow> network_fraction fl X (known_prefixes n our) = 1) \<and>
    (total_elders_exact (network_stats fl X n our) \<longrightarrow>
       total_elders (network_stats fl X n our) = known_elders (network_stats fl X n our))"
proof -
  define known where "known = elder_count our + length (network_elders n)"
  define frac where "frac = network_fraction fl X (known_prefixes n our)"
  note frac = fraction_of_network [OF assms(1,2), of "sa_prefix our" "map other_prefix (nw_sections n)",
      folded known_prefixes_def, OF assms(3,4), folded frac_def]
  have "known \<le> 2 ^ 53" using assms(5) by (simp only: known_def)
  then have known: "fl (of_nat known) = of_nat known" "known < 2 ^ 64" using f64_roundingD(3) [OF assms(2)] by auto
  have "of_nat known \<le> of_nat known / frac" using frac(1) by (simp add: le_divide_eq mult_left_le)
  then have "of_nat known \<le> fl (of_nat known / frac)" using f64_roundingD(1) [OF assms(2)] known(1) by metis
  then have "of_nat known \<le> f64_as_u64 (of_int \<lceil>fl (of_nat known / frac)\<rceil>)" using f64_as_u64_ge known(2) by blast
  moreover have "f64_as_u64 (of_int \<lceil>fl (of_nat known / frac)\<rceil>) = of_nat known" if "frac = 1"
    using that known f64_as_u64_nat by simp
  moreover have "network_stats fl X n our = \<lparr>known_elders = of_nat known,
      total_elders = f64_as_u64 (of_int \<lceil>fl (of_nat known / frac)\<rceil>),
      total_elders_exact = pf_is_covered_by X [] (known_prefixes n our)\<rparr>"
    by (simp add: network_stats_def network_elder_counts_def Let_def known(1) flip: known_def frac_def)
  ultimately show ?thesis using frac(2) known(2) by (simp add: unsigned_of_nat take_bit_nat_eq_self flip: known_def frac_def)
qed

definition token_other :: "pfx \<Rightarrow> nat \<Rightarrow> other_section" where
  "token_other p k = \<lparr>os_section_auth = token_signed 1
     \<lparr>sa_prefix = p, sa_public_key_set = PkSet 3, sa_elders = map (\<lambda>i. (of_nat i, i)) [0..<k]\<rparr>, os_key_signed = None\<rparr>"

definition token_ours :: "pfx \<Rightarrow> section_auth" where
  "token_ours p = \<lparr>sa_prefix = p, sa_public_key_set = PkSet 3, sa_elders = [(0, 0), (1, 1)]\<rparr>"

lemmas token_stats = network_stats_def network_elder_counts_def network_fraction_def known_prefixes_def network_elders_def
  network_all_def sap_peers_def elder_count_def other_prefix_def token_other_def token_ours_def

lemma f64_rounding_id: "f64_rounding (\<lambda>x. x)"
  by (simp add: f64_rounding_def mono_def)

theorem network_stats_estimate_witness:
  "total_elders (network_stats (\<lambda>x. x) bit_ops \<lparr>nw_sections = [token_other [True] 1, token_other [False, True] 3]\<rparr>
     (token_ours [False, False])) = 6"
proof -
  let ?n = "\<lparr>nw_sections = [token_other [True] 1, token_other [False, True] 3]\<rparr>"
  let ?our = "token_ours [False, False]"
  have "disjoint_prefixes (known_prefixes ?n ?our)" by (simp add: disjoint_prefixes_def token_stats)
  moreover have "\<forall>p \<in> set (known_prefixes ?n ?our). length p \<le> 53" by (simp add: token_stats)
  moreover have count: "elder_count ?our + length (network_elders ?n) = 6" by (simp add: token_stats)
  ultimately have stats: "unat (known_elders (network_stats (\<lambda>x. x) bit_ops ?n ?our)) = 6 \<and>
      (network_fraction (\<lambda>x. x) bit_ops (known_prefixes ?n ?our) = 1 \<longrightarrow>
        total_elders (network_stats (\<lambda>x. x) bit_ops ?n ?our) = known_elders (network_stats (\<lambda>x. x) bit_ops ?n ?our))"
    using network_stats_estimate [OF bits.xor_space_axioms f64_rounding_id, of ?n ?our] by (simp only: count) simp
  moreover have "network_fraction (\<lambda>x. x) bit_ops (known_prefixes ?n ?our) = 1" by (simp add: token_stats)
  ultimately have "of_nat (unat (total_elders (network_stats (\<lambda>x. x) bit_ops ?n ?our))) = (of_nat 6 :: u64)" by simp
  then show ?thesis by simp
qed

text \<open>A section that has split stays known until all parts of it are. Its elders and its prefix are
  then counted along with those of a known part: the estimate is reported as exact, and
  is neither the number of known elders nor that of the network.\<close>

lemma stale_section_is_counted:
  "network_stats (\<lambda>x. x) bit_ops \<lparr>nw_sections = [token_other [True] 2, token_other [True, False] 1]\<rparr> (token_ours [False]) =
     \<lparr>known_elders = 5, total_elders = 4, total_elders_exact = True\<rparr>"
proof -
  let ?n = "\<lparr>nw_sections = [token_other [True] 2, token_other [True, False] 1]\<rparr>"
  have "pf_is_covered_by bit_ops [] (known_prefixes ?n (token_ours [False]))"
    by (simp add: bit_ops_def bits_covered_def token_stats numeral_eq_Suc)
  moreover have "f64_as_u64 4 = 4" using f64_as_u64_nat [of 4] by simp
  ultimately show ?thesis by (simp add: token_stats numeral_eq_Suc)
qed

lemma stale_section_is_kept:
  "pm_inv bit_ops other_prefix [token_other [True] 2, token_other [True, False] 1]"
  by (simp add: pm_inv_def pm_sorted_def descendants_def bit_ops_def bits_covered_def token_stats ord_cmp_def numeral_eq_Suc)

end
