(* ===== verification/Join_Protocol.thy ===== *)
theory Join_Protocol
  imports Node_Stand_Ins
begin

text \<open>
  The two sides of joining together: the requests of a joining node (\<open>Bootstrap_Join\<close>) and
  the handlers of an elder that receives them (\<open>Core_Handling\<close>). What one side sends is what
  the other side receives.
\<close>

section \<open>Laws\<close>

text \<open>Serialisation succeeds, signatures of a node verify under its key, the name of a key is
  its bytes in both ways of computing it, and the resource proof accepts the solution that its
  prover finds.\<close>

definition join_laws :: "('c, 'a, 'd) kit \<Rightarrow> 'c join_ops \<Rightarrow> bool" where
  "join_laws K J \<longleftrightarrow>
     jo_env J = kt_env K \<and> ed_laws (kt_crypto K) \<and> (\<forall>p. serialize (kt_crypto K) p \<noteq> None) \<and>
     (\<forall>pk. name_from_public_key (kt_crypto K) pk = ed_to_bytes (kt_crypto K) pk) \<and>
     (\<forall>size difficulty nonce.
        let data = jo_create_proof_data J size difficulty nonce
        in kt_validate_all K size difficulty nonce data (jo_solve J size difficulty data))"

text \<open>A node that the section takes: one of its prefix, not yet a member, of the right age.\<close>

definition admissible :: "('c, 'a, 'd) kit \<Rightarrow> ('c, 'a, 'd) core \<Rightarrow> peer \<Rightarrow> bool" where
  "admissible K s peer \<longleftrightarrow>
     pf_matches (kt_xor K) (sec_prefix (co_section s)) (peer_name peer) \<and>
     \<not> is_joined (sec_members (co_section s)) (peer_name peer) \<and> co_joins_allowed s \<and>
     (if pf_is_empty (kt_xor K) (sec_prefix (co_section s))
      then FIRST_SECTION_MIN_AGE \<le> peer_age peer \<and> peer_age peer \<le> FIRST_SECTION_MAX_AGE
      else peer_age peer = MIN_ADULT_AGE)"

section \<open>Messages between the two sides\<close>

definition node_message :: "'c crypto_ops \<Rightarrow> node \<Rightarrow> 'c variant \<Rightarrow> bls_public_key \<Rightarrow> 'c routing_msg \<Rightarrow> bool" where
  "node_message cr node variant pk msg \<longleftrightarrow> single_src cr node DirectAndUnrouted variant pk = Inr msg"

lemma node_message_exists: "join_laws K J \<Longrightarrow> \<exists>msg. node_message (kt_crypto K) node variant pk msg"
  by (fastforce simp: join_laws_def node_message_def single_src_def new_signed_def Let_def and_then_def ok_or_def
      split: option.splits)

lemma node_message_variant: "node_message cr node variant pk msg \<Longrightarrow> msg_variant msg = variant"
  by (auto simp: node_message_def single_src_def new_signed_def Let_def and_then_def split: sum.splits)

lemma node_message_peer:
  assumes "join_laws K J" "node_message (kt_crypto K) node variant pk msg"
  shows "src_peer (kt_crypto K) (msg_src msg) addr = Inr (peer_new (node_name (kt_crypto K) node) addr)"
  using assms
  by (auto simp: node_message_def single_src_def new_signed_def Let_def src_peer_def node_name_def ed_name_def and_then_def
      join_laws_def split: sum.splits)

lemma node_message_verify:
  assumes "join_laws K J" "node_message (kt_crypto K) node variant pk msg"
  shows "message_verify (kt_env K) msg keys = verify_variant (kt_env K) msg keys"
  using assms
  by (auto simp: join_laws_def node_message_def single_src_def new_signed_def Let_def and_then_def ok_or_def
      message_verify_def ed_laws_def split: option.splits)

lemma send_direct_message_eq:
  assumes "node_message (kt_crypto K) (co_node s) variant (core_section_key K s) msg"
  shows "send_direct_message K s (name, addr) variant pk =
    Inr (SendMessage [(name, addr)] 1 (RoutingType \<lparr>di_dest = Dest name, di_section_pk = pk\<rparr> msg))"
  using assms by (simp add: send_direct_message_def node_message_def send_message_to_node_def send_message_to_nodes_def and_then_def)

lemma send_join_requests_eq:
  assumes "node_message (jo_crypto J) (jn_node st) (JoinRequest req) key msg"
  shows "send_join_requests J req ((name, addr) # rs) key st =
    Continue (st\<lparr>jn_sent := jn_sent st @ [(RoutingType \<lparr>di_dest = Dest name, di_section_pk = key\<rparr> msg, (name, addr) # rs)]\<rparr>)"
  using assms by (simp add: send_join_requests_def node_message_def)

section \<open>The handshake\<close>

definition challenge :: "('c, 'a, 'd) kit \<Rightarrow> ('c, 'a, 'd) core \<Rightarrow> bytes \<Rightarrow> xor_name \<Rightarrow> 'c variant" where
  "challenge K s nonce name =
     JoinResponse (ResourceChallenge RESOURCE_PROOF_DATA_SIZE RESOURCE_PROOF_DIFFICULTY nonce
       (ed_sign (kt_crypto K) (nd_keypair (co_node s)) (the (serialize (kt_crypto K) (PNonce name nonce)))))"

definition solved :: "'c join_ops \<Rightarrow> ('c, 'a, 'd) kit \<Rightarrow> ('c, 'a, 'd) core \<Rightarrow> bytes \<Rightarrow> xor_name \<Rightarrow> join_request" where
  "solved J K s nonce name =
     (let data = jo_create_proof_data J RESOURCE_PROOF_DATA_SIZE RESOURCE_PROOF_DIFFICULTY nonce
      in \<lparr>jr_section_key = core_last_key K s,
          jr_resource_proof_response =
            Some \<lparr>rpr_solution = jo_solve J RESOURCE_PROOF_DATA_SIZE RESOURCE_PROOF_DIFFICULTY data, rpr_data = data,
              rpr_nonce = nonce,
              rpr_nonce_signature = ed_sign (kt_crypto K) (nd_keypair (co_node s))
                (the (serialize (kt_crypto K) (PNonce name nonce)))\<rparr>\<rparr>)"

lemma handle_join_request_admissible:
  assumes "join_laws K J" "admissible K s peer"
  shows "handle_join_request K nonce s peer \<lparr>jr_section_key = core_last_key K s, jr_resource_proof_response = None\<rparr> =
      and_then (send_direct_message K s (peer_entry peer) (challenge K s nonce (peer_name peer)) (core_last_key K s)) (\<lambda>c. Inr [c])"
    and "handle_join_request K nonce' s peer (solved J K s nonce (peer_name peer)) = Inr [ProposeOnline peer None None]"
proof -
  obtain b where b: "serialize (kt_crypto K) (PNonce (peer_name peer) nonce) = Some b"
    using assms(1) unfolding join_laws_def by blast
  show "handle_join_request K nonce s peer \<lparr>jr_section_key = core_last_key K s, jr_resource_proof_response = None\<rparr> =
      and_then (send_direct_message K s (peer_entry peer) (challenge K s nonce (peer_name peer)) (core_last_key K s)) (\<lambda>c. Inr [c])"
    using assms(2) b
    by (auto simp: handle_join_request_def admissible_def Let_def send_resource_proof_challenge_def challenge_def ok_or_def
        and_then_def not_less split: if_splits)
  show "handle_join_request K nonce' s peer (solved J K s nonce (peer_name peer)) = Inr [ProposeOnline peer None None]"
    using assms b
    by (auto simp: handle_join_request_def admissible_def Let_def solved_def validate_resource_proof_response_def
        join_laws_def ed_laws_def not_less split: if_splits)
qed

lemma elder_receives_request:
  assumes "join_laws K J" "node_message (kt_crypto K) node (JoinRequest req) pk msg"
  shows "handle_useful_variant K ar (Some addr) msg di s =
    (handle_join_request K (ar_nonce ar) s (peer_new (node_name (kt_crypto K) node) addr) req, s)"
  using node_message_variant [OF assms(2)] node_message_peer [OF assms]
  by (simp add: handle_useful_variant_def Let_def ok_or_def and_then_def)

lemma joiner_receives_challenge:
  assumes "join_laws K J" "node_message (kt_crypto K) (co_node s) (challenge K s nonce name) pk msg"
    and "jo_deserialize J bytes = Inr (RoutingType \<lparr>di_dest = Dest name, di_section_pk = key\<rparr> msg)"
    and "jn_section_key st = core_last_key K s"
    and "node_message (jo_crypto J) (jn_node st) (JoinRequest (solved J K s nonce name)) (core_last_key K s) answer"
  shows "\<exists>st'. join_loop J draws (Received sender bytes # evs) st = join_loop J (\<lambda>n. draws (Suc n)) evs st' \<and>
    jn_node st' = jn_node st \<and> jn_section_key st' = jn_section_key st \<and> jn_backlog st' = jn_backlog st \<and>
    jn_sent st' = jn_sent st @
      [(RoutingType \<lparr>di_dest = Dest name, di_section_pk = core_last_key K s\<rparr> answer, [(name, sender)])]"
proof -
  let ?st = "st\<lparr>jn_used_recipient := jn_used_recipient st @ map snd (jn_recipients st)\<rparr>"
  have env: "jo_env J = kt_env K" using assms(1) by (simp add: join_laws_def)
  have variant: "msg_variant msg = challenge K s nonce name" by (rule node_message_variant [OF assms(2)])
  then have "bootstrap_verify_message (jo_env J) msg None"
    using node_message_verify [OF assms(1,2)] env
    by (simp add: bootstrap_verify_message_def verify_variant_def challenge_def)
  then have received: "receive_join_response J n (Received sender bytes # evs) bl =
      (Inr (case challenge K s nonce name of JoinResponse r \<Rightarrow> r, sender, \<lparr>di_dest = Dest name, di_section_pk = key\<rparr>), bl, evs)"
    for n bl
    using assms(3) variant by (simp add: receive_join_response.simps challenge_def join_response_ok_def)
  let ?st' = "?st\<lparr>jn_sent := jn_sent ?st @
    [(RoutingType \<lparr>di_dest = Dest name, di_section_pk = core_last_key K s\<rparr> answer, [(name, sender)])]\<rparr>"
  have "send_join_requests J (solved J K s nonce name) [(name, sender)] (core_last_key K s) ?st =
      (Continue ?st' :: ('a join_state, 'a join_result) progress)"
    by (rule send_join_requests_eq) (use assms(5) in simp)
  then have "join_loop J draws (Received sender bytes # evs) st = join_loop J (\<lambda>n. draws (Suc n)) evs ?st'"
    using assms(4) received
    by (simp add: join_loop.simps [of J draws] challenge_def on_join_response_def on_challenge_def Let_def solved_def)
  then show ?thesis by (intro exI [of _ ?st']) simp
qed

section \<open>The approval\<close>

definition approved_section :: "'c section_state \<Rightarrow> 'c section_state" where
  "approved_section s = s\<lparr>sec_members := []\<rparr>"

lemma joiner_receives_approval:
  assumes "join_laws K J" and "send_node_approval K s info = Inr (SendMessage rs n (RoutingType di msg))"
    and "jo_deserialize J bytes = Inr (RoutingType di msg)"
    and "section_signed_verify (kt_env K) PSectionAuth (sec_auth (co_section s)) (sec_chain (co_section s))"
    and "section_signed_verify (kt_env K) PNodeState info (sec_chain (co_section s))"
    and "sg_public_key (ss_signed (sec_auth (co_section s))) = core_last_key K s"
    and "peer_name (ns_peer (ss_value info)) = node_name (jo_crypto J) (jn_node st)"
  shows "join_loop J draws (Received sender bytes # evs) st =
    Return (Inr (jn_node st, approved_section (co_section s), jn_backlog st))"
proof -
  let ?approval = "Approval (sec_genesis_key (co_section s)) (sec_auth (co_section s)) info (sec_chain (co_section s))"
  have env: "jo_env J = kt_env K" using assms(1) by (simp add: join_laws_def)
  have msg: "node_message (kt_crypto K) (co_node s) (JoinResponse ?approval) (core_section_key K s) msg"
    using assms(2)
    by (auto simp: send_node_approval_def Let_def and_then_def node_message_def send_message_to_node_def send_message_to_nodes_def
        split: sum.splits)
  have variant: "msg_variant msg = JoinResponse ?approval" by (rule node_message_variant [OF msg])
  have "verify_variant (kt_env K) msg [] = Inr (trust_status (kt_env K) (sec_chain (co_section s)) [])"
    using variant assms(4,5) by (simp add: verify_variant_def)
  then have "bootstrap_verify_message (jo_env J) msg None"
    using node_message_verify [OF assms(1) msg] env
    by (simp add: bootstrap_verify_message_def trust_status_def)
  then show ?thesis
    using assms(3,6,7) variant env
    by (simp add: join_loop.simps [of J draws] receive_join_response.simps join_response_ok_def on_join_response_def
        section_new_def approved_section_def and_then_def)
qed

text \<open>An elder that has its key share can send whatever the agreement leads to.\<close>

definition can_send :: "('c, 'a, 'd) kit \<Rightarrow> ('c, 'a, 'd) core \<Rightarrow> bool" where
  "can_send K s \<longleftrightarrow> is_ok (key_share (co_section_keys_provider s)) \<and> (\<forall>p. serialize (kt_crypto K) p \<noteq> None)"

lemma is_ok_iff: "is_ok m \<longleftrightarrow> (\<exists>x. m = Inr x)"
  by (cases m) simp_all

lemma is_ok_and_then: "is_ok m \<Longrightarrow> (\<And>x. m = Inr x \<Longrightarrow> is_ok (f x)) \<Longrightarrow> is_ok (and_then m f)"
  by (cases m) (simp_all add: and_then_def)

lemma single_src_sent: "can_send K s \<Longrightarrow> is_ok (single_src (kt_crypto K) node dst variant pk)"
  by (auto simp: can_send_def single_src_def new_signed_def Let_def and_then_def ok_or_def split: option.splits)

lemma accumulation_sent: "can_send K s \<Longrightarrow> is_ok (send_message_for_dst_accumulation K s src dst variant rs)"
  by (auto simp: can_send_def send_message_for_dst_accumulation_def for_dst_accumulation_def new_signed_def Let_def and_then_def
      ok_or_def split: option.splits sum.splits)

lemma propose_sent: "can_send K s \<Longrightarrow> is_ok (propose K s proposal)"
proof -
  assume sends: "can_send K s"
  then have "is_ok (prove (kt_crypto K) proposal pks i sk)" for pks i sk
    by (auto simp: can_send_def prove_def and_then_def ok_or_def split: option.splits)
  then show ?thesis
    using sends unfolding propose_def send_proposal_def send_proposal_with_def
    by (intro is_ok_and_then single_src_sent [OF sends]) (auto simp: can_send_def)
qed

lemma relocate_each_sent: "can_send K s \<Longrightarrow> is_ok (relocate_each K s name actions)"
  by (induction actions)
    (auto simp: Let_def send_relocate_def send_relocate_promise_def intro!: is_ok_and_then accumulation_sent propose_sent
      split: option.splits prod.splits relocate_action.splits if_splits)

lemma send_dkg_starts_sent: "can_send K s \<Longrightarrow> is_ok (send_dkg_starts K s infos)"
  by (induction infos) (auto simp: send_dkg_start_def send_dkg_start_to_def Let_def intro!: is_ok_and_then accumulation_sent)

lemma churn_reactions_sent: "can_send K s \<Longrightarrow> is_ok (churn_reactions K s name signature)"
  by (auto simp: churn_reactions_def relocate_peers_def core_promote_and_demote_elders_def send_sync_to_adults_def send_sync_part_def
      Let_def intro!: is_ok_and_then relocate_each_sent send_dkg_starts_sent single_src_sent)

lemma send_node_approval_sent: "can_send K s \<Longrightarrow> is_ok (send_node_approval K s info)"
  by (auto simp: send_node_approval_def Let_def intro!: is_ok_and_then single_src_sent)

lemma accept_online_approves:
  assumes "can_send K s" "bt_get (sec_members (co_section s)) (peer_name (ns_peer (ss_value info))) = None"
    and "section_signed_verify (kt_env K) PNodeState info (sec_chain (co_section s))"
  shows "\<exists>cmds c s'. accept_online K info previous s = (Inr (cmds @ [c]), s') \<and> send_node_approval K s' info = Inr c \<and>
    co_section s' = (co_section s)\<lparr>sec_members := bt_insert (peer_name (ns_peer (ss_value info))) info (sec_members (co_section s))\<rparr>"
proof -
  let ?peer = "ns_peer (ss_value info)"
  let ?s2 = "send_event (MemberJoined (peer_name ?peer) previous (peer_age ?peer))
    (s\<lparr>co_section := (co_section s)\<lparr>sec_members := bt_insert (peer_name ?peer) info (sec_members (co_section s))\<rparr>\<rparr>)"
  have sends: "can_send K ?s2" using assms(1) by (simp add: can_send_def send_event_def)
  obtain c1 c2 where "churn_reactions K ?s2 (peer_name ?peer) (sg_signature (ss_signed info)) = Inr c1"
    "send_node_approval K ?s2 info = Inr c2"
    using churn_reactions_sent [OF sends] send_node_approval_sent [OF sends] unfolding is_ok_iff by blast
  then have "accept_online K info previous s = (Inr (c1 @ [c2]), ?s2)" "send_node_approval K ?s2 info = Inr c2"
    using assms(2,3) by (simp_all add: accept_online_def update_member_def peers_update_def Let_def and_then_def)
  then show ?thesis by (intro exI [of _ c1] exI [of _ c2] exI [of _ ?s2]) (simp add: send_event_def)
qed

section \<open>Properties\<close>

text \<open>C7. A node that the section can take is admitted by the first elder that it asks. Its
  request with the current key of the section is answered with a challenge; from this message
  the node makes a second request, which carries the solution, and for which the elder proposes
  the node to the section. The state of the elder does not change.\<close>

theorem join_handshake_admits:
  assumes "join_laws K J" and "admissible K s (peer_new name addr)"
    and "name = node_name (jo_crypto J) (jn_node st)" and "jn_section_key st = core_last_key K s"
  shows "\<exists>request reply answer.
    send_join_requests J \<lparr>jr_section_key = core_last_key K s, jr_resource_proof_response = None\<rparr> ((elder, elder_addr) # rs)
        (core_last_key K s) st =
      Continue (st\<lparr>jn_sent := jn_sent st @
        [(RoutingType \<lparr>di_dest = Dest elder, di_section_pk = core_last_key K s\<rparr> request, (elder, elder_addr) # rs)]\<rparr>) \<and>
    handle_useful_variant K ar (Some addr) request di s =
      (Inr [SendMessage [(name, addr)] 1 (RoutingType \<lparr>di_dest = Dest name, di_section_pk = core_last_key K s\<rparr> reply)], s) \<and>
    (\<forall>bytes. jo_deserialize J bytes = Inr (RoutingType \<lparr>di_dest = Dest name, di_section_pk = core_last_key K s\<rparr> reply) \<longrightarrow>
      (\<exists>st'. join_loop J draws (Received elder_addr bytes # evs) st = join_loop J (\<lambda>n. draws (Suc n)) evs st' \<and>
        jn_sent st' = jn_sent st @
          [(RoutingType \<lparr>di_dest = Dest name, di_section_pk = core_last_key K s\<rparr> answer, [(name, elder_addr)])])) \<and>
    handle_useful_variant K ar' (Some addr) answer di' s = (Inr [ProposeOnline (peer_new name addr) None None], s)"
proof -
  have env: "jo_env J = kt_env K" using assms(1) by (simp add: join_laws_def)
  obtain request where request: "node_message (kt_crypto K) (jn_node st)
      (JoinRequest \<lparr>jr_section_key = core_last_key K s, jr_resource_proof_response = None\<rparr>) (core_last_key K s) request"
    using node_message_exists [OF assms(1)] by blast
  obtain reply where reply: "node_message (kt_crypto K) (co_node s) (challenge K s (ar_nonce ar) name) (core_section_key K s) reply"
    using node_message_exists [OF assms(1)] by blast
  obtain answer where answer: "node_message (kt_crypto K) (jn_node st) (JoinRequest (solved J K s (ar_nonce ar) name))
      (core_last_key K s) answer"
    using node_message_exists [OF assms(1)] by blast
  note elder = handle_join_request_admissible [OF assms(1,2)]
  have "handle_useful_variant K ar (Some addr) request di s =
      (Inr [SendMessage [(name, addr)] 1 (RoutingType \<lparr>di_dest = Dest name, di_section_pk = core_last_key K s\<rparr> reply)], s)"
    using elder(1) [of "ar_nonce ar"] elder_receives_request [OF assms(1) request] send_direct_message_eq [OF reply] assms(3) env
    by (simp add: peer_entry_def and_then_def)
  moreover have "handle_useful_variant K ar' (Some addr) answer di' s = (Inr [ProposeOnline (peer_new name addr) None None], s)"
    using elder(2) [of "ar_nonce ar'" "ar_nonce ar"] elder_receives_request [OF assms(1) answer] assms(3) env by simp
  moreover have "\<exists>st'. join_loop J draws (Received elder_addr bytes # evs) st = join_loop J (\<lambda>n. draws (Suc n)) evs st' \<and>
      jn_sent st' = jn_sent st @
        [(RoutingType \<lparr>di_dest = Dest name, di_section_pk = core_last_key K s\<rparr> answer, [(name, elder_addr)])]"
    if "jo_deserialize J bytes = Inr (RoutingType \<lparr>di_dest = Dest name, di_section_pk = core_last_key K s\<rparr> reply)" for bytes
    using joiner_receives_challenge [OF assms(1) reply that assms(4)] answer env by metis
  moreover note send_join_requests_eq [of J st _ "core_last_key K s" request elder elder_addr rs]
  ultimately show ?thesis using request env by (intro exI [of _ request] exI conjI) auto
qed

definition joiner :: "bls_public_key list join_state" where
  "joiner = \<lparr>jn_node = \<lparr>nd_keypair = \<lparr>kp_secret = 0, kp_public = EdPk 40\<rparr>, nd_addr = 30\<rparr>, jn_section_key = BlsPk 1,
     jn_recipients = [(255, 10)], jn_used_recipient = [], jn_backlog = [], jn_sent = []\<rparr>"

lemma token_join_laws: "join_laws token_kit token_join"
  by (simp add: join_laws_def token_join_def token_env_laws token_crypto_simps Let_def)

lemma joiner_admissible: "admissible token_kit first_core (peer_new 40 30)"
  by (simp add: admissible_def first_section_simps bit_ops_def is_joined_def peer_age_def last_byte_def first_core_def core_new_def
      send_event_def FIRST_SECTION_MIN_AGE_def FIRST_SECTION_MAX_AGE_def MIN_ADULT_AGE_def MIN_AGE_def bits_match_def)

theorem join_handshake_admits_witness:
  "\<exists>answer. handle_useful_variant token_kit (wd_arrivals token_world) (Some 30) answer
     \<lparr>di_dest = Dest 40, di_section_pk = BlsPk 1\<rparr> first_core =
   (Inr [ProposeOnline (peer_new 40 30) None None], first_core)"
proof -
  have "40 = node_name (jo_crypto token_join) (jn_node joiner)"
    by (simp add: joiner_def token_join_def node_name_def token_crypto_simps)
  moreover have "jn_section_key joiner = core_last_key token_kit first_core"
    by (simp add: joiner_def first_section_def list_chain_simps)
  ultimately show ?thesis
    using join_handshake_admits [OF token_join_laws joiner_admissible, of joiner 255 10 "[]" "wd_arrivals token_world"
        "\<lparr>di_dest = Dest 255, di_section_pk = BlsPk 1\<rparr>" "\<lambda>_. undefined" "[]" "wd_arrivals token_world"]
    by blast
qed

text \<open>C8. Once the section has agreed on a new member, its join completes. At an elder that has
  its key share the agreement succeeds, makes the node a member, and the last command it leads
  to is an approval to the address of the node. The joining node that receives it, whatever
  it has received before, ends with the chain and the authority provider of the section.\<close>

theorem join_agreement_completes:
  assumes "join_laws K J" and "section_inv (kt_env K) (co_section s)" and "is_ok (key_share (co_section_keys_provider s))"
    and "section_signed_verify (kt_env K) PSectionAuth (sec_auth (co_section s)) (sec_chain (co_section s))"
    and "section_signed_verify (kt_env K) PNodeState \<lparr>ss_value = info, ss_signed = sg\<rparr> (sec_chain (co_section s))"
    and "get_section_signed (sec_members (co_section s)) (peer_name (ns_peer info)) = None" and "ns_state info = Joined"
    and "peer_name (ns_peer info) = node_name (jo_crypto J) (jn_node st)"
  shows "\<exists>cmds s' di msg.
    handle_agreement K (Online info previous_name destination_key) sg s =
      (Inr (cmds @ [SendMessage [peer_entry (ns_peer info)] 1 (RoutingType di msg)]), s') \<and>
    is_joined (sec_members (co_section s')) (peer_name (ns_peer info)) \<and>
    (\<forall>bytes. jo_deserialize J bytes = Inr (RoutingType di msg) \<longrightarrow>
      join_loop J draws (Received sender bytes # evs) st =
        Return (Inr (jn_node st, (co_section s)\<lparr>sec_members := []\<rparr>, jn_backlog st)))"
proof -
  let ?info = "\<lparr>ss_value = info, ss_signed = sg\<rparr>"
  have "can_send K s" using assms(1,3) by (simp add: can_send_def join_laws_def)
  then obtain cmds c s' where accepted: "accept_online K ?info previous_name s = (Inr (cmds @ [c]), s')"
      "send_node_approval K s' ?info = Inr c"
      "co_section s' = (co_section s)\<lparr>sec_members := bt_insert (peer_name (ns_peer info)) ?info (sec_members (co_section s))\<rparr>"
    using accept_online_approves [of K s ?info previous_name] assms(5,6) by (auto simp: get_section_signed_def)
  from accepted(2) have "\<exists>di msg. c = SendMessage [peer_entry (ns_peer info)] 1 (RoutingType di msg)"
    by (auto simp: send_node_approval_def Let_def and_then_def send_message_to_node_def send_message_to_nodes_def peer_entry_def
        split: sum.splits)
  then obtain di msg where msg: "c = SendMessage [peer_entry (ns_peer info)] 1 (RoutingType di msg)" by blast
  have "join_loop J draws (Received sender bytes # evs) st =
      Return (Inr (jn_node st, approved_section (co_section s'), jn_backlog st))"
    if "jo_deserialize J bytes = Inr (RoutingType di msg)" for bytes
    using joiner_receives_approval [OF assms(1) accepted(2) [unfolded msg] that] assms(2,4,5,8) accepted(3)
    by (simp add: section_inv_def)
  moreover have "is_joined (sec_members (co_section s')) (peer_name (ns_peer info))"
    using accepted(3) assms(2,7) by (simp add: is_joined_def section_inv_def peers_inv_def)
  moreover have "handle_agreement K (Online info previous_name destination_key) sg s = (Inr (cmds @ [c]), s')"
    using accepted(1) assms(6) by (simp add: handle_agreement_def handle_online_agreement_def)
  ultimately show ?thesis using msg accepted(3) by (auto simp: approved_section_def)
qed

definition joined_info :: node_state where
  "joined_info = \<lparr>ns_peer = \<lparr>peer_name = 40, peer_addr = 30, peer_reachable = True\<rparr>, ns_state = Joined\<rparr>"

theorem join_agreement_completes_witness:
  "\<exists>cmds s'. handle_agreement token_kit (Online joined_info None None) \<lparr>sg_public_key = BlsPk 1, sg_signature = BlsSig 1\<rparr> first_core =
     (Inr cmds, s') \<and> is_joined (sec_members (co_section s')) 40"
proof -
  have "section_inv token_env first_section"
    by (simp add: section_inv_def first_section_def list_chain_simps peers_inv_def first_state_def token_crypto_simps
        section_signed_verify_def self_verify_def verify_signed_def)
  moreover have "is_ok (key_share (co_section_keys_provider first_core))"
    by (simp add: first_core_def core_new_def send_event_def section_keys_new_def finalise_dkg_def insert_dkg_outcome_def
        key_cache_with_capacity_def key_cache_add_def vd_with_capacity_def key_share_def get_most_recent_def token_crypto_simps
        Let_def KEY_CACHE_SIZE_def vd_push_back_def)
  ultimately show ?thesis
    using join_agreement_completes [OF token_join_laws, of first_core joined_info "\<lparr>sg_public_key = BlsPk 1, sg_signature = BlsSig 1\<rparr>"
        joiner None None "\<lambda>_. undefined" 10 "[]"]
    by (fastforce simp: joined_info_def joiner_def first_section_def list_chain_simps token_crypto_simps section_signed_verify_def
        self_verify_def verify_signed_def get_section_signed_def node_name_def token_join_def)
qed

text \<open>C40. A node with a wrong age is never told how to correct it. An elder of a section with a
  non-empty prefix answers the request of such a node with a \<open>Retry\<close>, which the node is meant
  to react to with a name of age \<open>MIN_ADULT_AGE\<close>. The elder does so only for requests with the
  current section key, and the node ignores every \<open>Retry\<close> with the key that it already used.\<close>

theorem age_retry_is_ignored:
  assumes "join_laws K J" and "section_key (kt_crypto K) (authority_provider (co_section s)) = core_last_key K s"
    and "\<not> pf_is_empty (kt_xor K) (sec_prefix (co_section s))"
    and "pf_matches (kt_xor K) (sec_prefix (co_section s)) (peer_name peer)"
    and "\<not> is_joined (sec_members (co_section s)) (peer_name peer)" and "co_joins_allowed s"
    and "peer_age peer \<noteq> MIN_ADULT_AGE" and "jr_section_key req = core_last_key K s" and "jn_section_key st = jr_section_key req"
  shows "\<exists>di msg. handle_join_request K nonce s peer req = Inr [SendMessage [peer_entry peer] 1 (RoutingType di msg)] \<and>
    msg_variant msg = JoinResponse (Retry (authority_provider (co_section s))) \<and>
    on_join_response J d (Retry (authority_provider (co_section s))) sender di st = Continue st"
proof -
  obtain msg where msg: "node_message (kt_crypto K) (co_node s) (JoinResponse (Retry (authority_provider (co_section s))))
      (core_section_key K s) msg"
    using node_message_exists [OF assms(1)] by blast
  have "handle_join_request K nonce s peer req = reply K s peer (JoinResponse (Retry (authority_provider (co_section s))))"
    using assms(3-8) by (simp add: handle_join_request_def Let_def)
  moreover have "jo_env J = kt_env K" using assms(1) by (simp add: join_laws_def)
  ultimately show ?thesis
    using send_direct_message_eq [OF msg] node_message_variant [OF msg] assms(2,8,9)
    by (simp add: reply_def peer_entry_def and_then_def on_join_response_def on_retry_def)
qed

definition half_core :: "(bls_public_key list, unit, nat dkg_state) core" where
  "half_core = first_core\<lparr>co_section := first_section\<lparr>sec_auth := token_signed 1 (first_auth\<lparr>sa_prefix := [False]\<rparr>)\<rparr>\<rparr>"

definition no_draws :: join_draws where
  "no_draws = \<lparr>jd_age = 0, jd_first_keypairs = [], jd_keypairs = [], jd_name = 0\<rparr>"

theorem age_retry_is_ignored_witness:
  "on_join_response token_join no_draws (Retry (authority_provider (co_section half_core))) 10 \<lparr>di_dest = Dest 40, di_section_pk = BlsPk 1\<rparr>
     joiner = Continue joiner \<and>
   is_ok (handle_join_request token_kit [] half_core (peer_new 40 30)
     \<lparr>jr_section_key = BlsPk 1, jr_resource_proof_response = None\<rparr>)"
proof -
  let ?req = "\<lparr>jr_section_key = BlsPk 1, jr_resource_proof_response = None\<rparr>"
  have "pf_matches bit_ops [False] 40"
    by (simp add: bit_ops_def bits_match_def name_bits_def name_bit_def upt_conv_Cons del: upt_Suc)
  then have "\<exists>di msg. handle_join_request token_kit [] half_core (peer_new 40 30) ?req =
      Inr [SendMessage [peer_entry (peer_new 40 30)] 1 (RoutingType di msg)] \<and>
    msg_variant msg = JoinResponse (Retry (authority_provider (co_section half_core))) \<and>
    on_join_response token_join no_draws (Retry (authority_provider (co_section half_core))) 10 di joiner = Continue joiner"
    by (intro age_retry_is_ignored [OF token_join_laws])
      (simp_all add: half_core_def first_section_simps list_chain_simps section_key_def token_crypto_simps bit_ops_def
        is_joined_def first_core_def core_new_def send_event_def peer_age_def last_byte_def MIN_ADULT_AGE_def MIN_AGE_def joiner_def)
  then show ?thesis by (auto simp: on_join_response_def)
qed

text \<open>C29. A relocated node never learns that it was approved. The approval that elders send is a
  \<open>JoinResponse\<close> for every new member; a node that is already part of the network ignores
  such a message; and a relocation ends with success only if a
  \<open>JoinAsRelocatedResponse::Approval\<close> is among the messages forwarded to it.\<close>

theorem relocated_node_not_approved:
  assumes "send_node_approval K s info = Inr command"
  shows "\<exists>rs n di msg. command = SendMessage rs n (RoutingType di msg) \<and>
    (\<forall>s' ar sender. handle_useful_variant K ar sender msg di s' = (Inr [], s')) \<and>
    (\<forall>J draws msgs node addrs key details result.
       list_all (\<lambda>(m, _). \<not> is_relocated_approval m) msgs \<longrightarrow>
       rejoin_run J draws msgs node addrs key details \<noteq> Return (Inr result)) \<and> \<not> is_relocated_approval msg"
proof -
  from assms obtain di msg where "command = SendMessage [peer_entry (ns_peer (ss_value info))] 1 (RoutingType di msg)"
      "\<exists>r. msg_variant msg = JoinResponse r"
    by (auto simp: send_node_approval_def Let_def and_then_def send_message_to_node_def send_message_to_nodes_def peer_entry_def
        single_src_def split: sum.splits)
  then show ?thesis
    using rejoin_run_approval by (fastforce simp: handle_useful_variant_def Let_def is_relocated_approval_def)
qed

theorem relocated_node_not_approved_witness:
  "\<exists>rs n di msg. send_node_approval token_kit first_core (token_signed 1 joined_info) = Inr (SendMessage rs n (RoutingType di msg)) \<and>
     handle_useful_variant token_kit (wd_arrivals token_world) None msg di (relocating_core seen_filter) =
       (Inr [], relocating_core seen_filter)"
proof -
  obtain command where c: "send_node_approval token_kit first_core (token_signed 1 joined_info) = Inr command"
    by (auto simp: send_node_approval_def Let_def and_then_def single_src_def new_signed_def ok_or_def token_crypto_simps)
  then show ?thesis using relocated_node_not_approved [OF c] by auto
qed

end
