(* ===== verification/Node_Start.thy ===== *)
theory Node_Start
  imports Join_Protocol
begin

text \<open>
  How a node starts and stops: the endpoint of \<open>src/routing/comm.rs\<close>, the tasks that turn what the
  transport delivers into connection events, the sending task of \<open>src/routing/bootstrap\<close>,
  \<open>Dispatcher::new\<close>, \<open>handle_commands\<close> and \<open>terminate\<close> of \<open>src/routing/dispatcher.rs\<close>, and
  \<open>Routing::new\<close> of \<open>src/routing/mod.rs\<close>. The transport \<open>qp2p\<close> is the record
  \<open>transport_ops\<close>. A node that \<open>Routing::new\<close> returns is reachable in the state machine of
  \<open>Node_System\<close>, with the messages that arrived during the join handled in their order; it does not return when they fill
  the event channel.
\<close>

section \<open>The endpoint\<close>

type_synonym u16 = "16 word"

record transport_config =
  tc_hard_coded_contacts :: "socket_addr set"
  tc_local_ip :: "nat option"
  tc_local_port :: "u16 option"
  tc_forward_port :: bool

record endpoint =
  ep_socket_addr :: socket_addr
  ep_local_ip :: nat

text \<open>\<open>QuicP2p::with_config\<close>, \<open>new_endpoint\<close>, \<open>bootstrap\<close> and \<open>Endpoint::is_reachable\<close>.\<close>

record transport_ops =
  tp_default :: transport_config
  tp_with_config :: "transport_config \<Rightarrow> bool \<Rightarrow> transport_error + unit"
  tp_new_endpoint :: "transport_config \<Rightarrow> transport_error + endpoint"
  tp_bootstrap :: "transport_config \<Rightarrow> transport_error + endpoint \<times> socket_addr"
  tp_is_reachable :: "endpoint \<Rightarrow> socket_addr \<Rightarrow> transport_error + unit"

text \<open>\<open>cm_event_tx\<close> tells whether the sender of connection events is still held.\<close>

record comm =
  cm_endpoint :: endpoint
  cm_closed :: bool
  cm_event_tx :: bool

definition comm_new :: "transport_ops \<Rightarrow> transport_config \<Rightarrow> error + comm" where
  "comm_new T config =
     and_then (map_err (\<lambda>_. InvalidConfig) (tp_with_config T config True)) (\<lambda>_.
     and_then (map_err (\<lambda>_. CannotConnectEndpoint) (tp_new_endpoint T config)) (\<lambda>endpoint.
     Inr \<lparr>cm_endpoint = endpoint, cm_closed = False, cm_event_tx = True\<rparr>))"

definition comm_bootstrap :: "transport_ops \<Rightarrow> transport_config \<Rightarrow> error + comm \<times> socket_addr" where
  "comm_bootstrap T config =
     and_then (map_err (\<lambda>_. InvalidConfig) (tp_with_config T config True)) (\<lambda>_.
     and_then (map_err (\<lambda>_. CannotConnectEndpoint) (tp_bootstrap T config)) (\<lambda>(endpoint, bootstrap_addr).
     Inr (\<lparr>cm_endpoint = endpoint, cm_closed = False, cm_event_tx = True\<rparr>, bootstrap_addr)))"

definition comm_terminate :: "comm \<Rightarrow> comm" where
  "comm_terminate c = c\<lparr>cm_closed := True, cm_event_tx := False\<rparr>"

definition comm_drop :: "comm \<Rightarrow> comm" where
  "comm_drop c = c\<lparr>cm_closed := True\<rparr>"

definition our_connection_info :: "comm \<Rightarrow> socket_addr" where
  "our_connection_info c = ep_socket_addr (cm_endpoint c)"

text \<open>The test uses an endpoint of its own, on any free port.\<close>

definition comm_is_reachable :: "transport_ops \<Rightarrow> comm \<Rightarrow> socket_addr \<Rightarrow> error + unit" where
  "comm_is_reachable T c peer =
     (let config = (tp_default T)\<lparr>tc_local_ip := Some (ep_local_ip (cm_endpoint c)), tc_local_port := Some 0,
                                  tc_forward_port := False\<rparr>
      in and_then (map_err (\<lambda>_. InvalidConfig) (tp_with_config T config False)) (\<lambda>_.
         and_then (map_err (\<lambda>_. CannotConnectEndpoint) (tp_new_endpoint T config)) (\<lambda>connectivity_endpoint.
         map_err (\<lambda>_. AddressNotReachable) (tp_is_reachable T connectivity_endpoint peer))))"

text \<open>The two tasks send to the same channel: a node receives a shuffle of the two lists.\<close>

definition handle_incoming_messages :: "(socket_addr \<times> bytes) list \<Rightarrow> connection_event list" where
  "handle_incoming_messages incoming = map (\<lambda>(src, msg). Received src msg) incoming"

definition handle_disconnection_events :: "socket_addr list \<Rightarrow> connection_event list" where
  "handle_disconnection_events disconnections = map Disconnected disconnections"

text \<open>The sending task of a joining node: whether each request was sent.\<close>

definition bootstrap_send_message ::
  "'c wire_ops \<Rightarrow> (nat \<Rightarrow> completion) \<Rightarrow> 'c message_type \<Rightarrow> (xor_name \<times> socket_addr) list \<Rightarrow> bool" where
  "bootstrap_send_message W completions message recipients =
     (case comm_send W completions recipients (length recipients) message of
        Inr AllRecipients \<Rightarrow> True
      | Inr (MinDeliveryGroupSizeReached _) \<Rightarrow> True
      | Inr (MinDeliveryGroupSizeFailed _) \<Rightarrow> False
      | Inl _ \<Rightarrow> False)"

fun send_messages ::
  "'c wire_ops \<Rightarrow> (nat \<Rightarrow> nat \<Rightarrow> completion) \<Rightarrow> ('c message_type \<times> (xor_name \<times> socket_addr) list) list \<Rightarrow> bool list" where
  "send_messages W completions [] = []"
| "send_messages W completions ((message, recipients) # rx) =
     bootstrap_send_message W (completions 0) message recipients # send_messages W (\<lambda>n. completions (Suc n)) rx"

section \<open>The dispatcher\<close>

record ('c, 'a, 'd) dispatcher =
  dp_core :: "('c, 'a, 'd) core"
  dp_comm :: comm
  dp_cancel_timer :: bool

definition dispatcher_new :: "('c, 'a, 'd) core \<Rightarrow> comm \<Rightarrow> ('c, 'a, 'd) dispatcher" where
  "dispatcher_new state comm = \<lparr>dp_core = state, dp_comm = comm, dp_cancel_timer = False\<rparr>"

text \<open>The commands that handling one command spawns.\<close>

definition handle_commands ::
  "('c, 'a, 'd) node_ops \<Rightarrow> 'c world \<Rightarrow> 'c command \<Rightarrow> ('c, 'a, 'd) dispatcher
    \<Rightarrow> ((error + 'c command list) \<times> ('c, 'a, 'd) dispatcher) option" where
  "handle_commands N w command d =
     map_option (\<lambda>(result, s). (result, d\<lparr>dp_core := s\<rparr>))
       (try_handle_command N (w\<lparr>wd_cancelled := wd_cancelled w \<or> dp_cancel_timer d\<rparr>) command (dp_core d))"

definition dispatcher_terminate :: "('c, 'a, 'd) dispatcher \<Rightarrow> ('c, 'a, 'd) dispatcher" where
  "dispatcher_terminate d = d\<lparr>dp_cancel_timer := True, dp_comm := comm_terminate (dp_comm d)\<rparr>"

section \<open>Starting a node\<close>

record config =
  cf_first :: bool
  cf_keypair :: "keypair option"
  cf_transport_config :: transport_config

definition config_default :: "transport_ops \<Rightarrow> config" where
  "config_default T = \<lparr>cf_first = False, cf_keypair = None, cf_transport_config = tp_default T\<rparr>"

text \<open>What is drawn at random and what arrives while the node joins.\<close>

record 'c start_world =
  sw_keypairs :: "keypair list"
  sw_genesis_keypairs :: "keypair list"
  sw_key_set :: "public_key_set \<times> secret_key_share"
  sw_section_key :: bls_public_key
  sw_join_draws :: "nat \<Rightarrow> join_draws"
  sw_connection_events :: "connection_event list"
  sw_worlds :: "nat \<Rightarrow> 'c world"

text \<open>The channel of events takes this many before a send waits for the receiver, which the
  caller gets only when the start returns.\<close>

definition EVENT_CHANNEL_SIZE :: nat where
  "EVENT_CHANNEL_SIZE = 20"

definition unread_sends_return :: "('c, 'a, 'd) core \<Rightarrow> bool" where
  "unread_sends_return s \<longleftrightarrow> length (co_events s) \<le> EVENT_CHANNEL_SIZE"

text \<open>How a start goes: it returns, it waits for what the given draws and arrivals do not bring, or
  it waits for room in the channel of events, which nobody reads yet.\<close>

datatype 'a startup = StartReturns 'a | StartPending | ChannelFull

definition startup_result :: "'a startup \<Rightarrow> 'a option" where
  "startup_result r = (case r of StartReturns x \<Rightarrow> Some x | _ \<Rightarrow> None)"

lemma startup_result_simps [simp]:
  "startup_result (StartReturns x) = Some x" "startup_result StartPending = None" "startup_result ChannelFull = None"
  by (simp_all add: startup_result_def)

lemma startup_result_Some [simp]: "startup_result r = Some x \<longleftrightarrow> r = StartReturns x"
  by (cases r) simp_all

lemma map_startup_StartReturns [simp]: "map_startup f r = StartReturns y \<longleftrightarrow> (\<exists>x. r = StartReturns x \<and> f x = y)"
  by (cases r) auto

text \<open>The messages that arrived during the join are handled in their order before the node
  listens to further ones; the first error ends the start. The commands they spawn are
  collected: \<open>Node_System\<close> runs them in any order.\<close>

fun handle_backlog ::
  "('c, 'a, 'd) node_ops \<Rightarrow> (nat \<Rightarrow> 'c world) \<Rightarrow> 'c backlog_entry list \<Rightarrow> ('c, 'a, 'd) dispatcher
    \<Rightarrow> ((error + 'c command list) \<times> ('c, 'a, 'd) dispatcher) startup" where
  "handle_backlog N ws [] d = StartReturns (Inr [], d)"
| "handle_backlog N ws ((message, sender, dest_info) # backlog) d =
     (case handle_commands N (ws 0) (HandleMessage (Some sender) message dest_info) d of
        None \<Rightarrow> StartPending
      | Some (result, d1) \<Rightarrow>
          if \<not> unread_sends_return (dp_core d1) then ChannelFull
          else case result of
            Inl e \<Rightarrow> StartReturns (Inl e, d1)
          | Inr commands \<Rightarrow>
          map_startup (\<lambda>(result, d2). (and_then result (\<lambda>commands'. Inr (commands @ commands')), d2))
            (handle_backlog N (\<lambda>n. ws (Suc n)) backlog d1))"

definition start_first ::
  "('c, 'a, 'd) node_ops \<Rightarrow> transport_ops \<Rightarrow> 'c start_world \<Rightarrow> config \<Rightarrow> (error + ('c, 'a, 'd) dispatcher \<times> 'c command list) startup" where
  "start_first N T w config =
     (case gen_keypair (kt_crypto (no_kit N)) (jo_range_inclusive (no_join N) []) 255 (sw_genesis_keypairs w) of
        None \<Rightarrow> StartPending
      | Some _ \<Rightarrow>
          (case comm_new T (cf_transport_config config) of
             Inl e \<Rightarrow> StartReturns (Inl e)
           | Inr comm \<Rightarrow>
               (case routing_new_first N (sw_genesis_keypairs w) (our_connection_info comm)
                       (fst (sw_key_set w)) (snd (sw_key_set w)) of
                  None \<Rightarrow> StartPending
                | Some result \<Rightarrow> StartReturns (and_then result (\<lambda>s. Inr (dispatcher_new s comm, []))))))"

definition start_joining ::
  "('c, 'a, 'd) node_ops \<Rightarrow> transport_ops \<Rightarrow> 'c start_world \<Rightarrow> config \<Rightarrow> keypair
    \<Rightarrow> (error + ('c, 'a, 'd) dispatcher \<times> 'c command list) startup" where
  "start_joining N T w config keypair =
     (case comm_bootstrap T (cf_transport_config config) of
        Inl e \<Rightarrow> StartReturns (Inl e)
      | Inr (comm, bootstrap_addr) \<Rightarrow>
          (case join_run (no_join N) (sw_section_key w) (sw_join_draws w) (sw_connection_events w)
                  (node_new keypair (our_connection_info comm)) bootstrap_addr of
             Return (Inl e) \<Rightarrow> StartReturns (Inl e)
           | Return (Inr (node, section0, backlog)) \<Rightarrow>
               map_startup (\<lambda>(result, d). and_then result (\<lambda>commands. Inr (d, commands)))
                 (handle_backlog N (sw_worlds w) backlog (dispatcher_new (core_new (no_kit N) node section0 None) comm))
           | _ \<Rightarrow> StartPending))"

text \<open>The configured keys, or else drawn ones.\<close>

definition start_keypair :: "('c, 'a, 'd) node_ops \<Rightarrow> 'c start_world \<Rightarrow> config \<Rightarrow> keypair option" where
  "start_keypair N w config =
     (case cf_keypair config of
        Some keypair \<Rightarrow> Some keypair
      | None \<Rightarrow> gen_keypair (kt_crypto (no_kit N)) (jo_range_inclusive (no_join N) []) MIN_ADULT_AGE (sw_keypairs w))"

definition routing_new ::
  "('c, 'a, 'd) node_ops \<Rightarrow> transport_ops \<Rightarrow> 'c start_world \<Rightarrow> config \<Rightarrow> (error + ('c, 'a, 'd) dispatcher \<times> 'c command list) startup" where
  "routing_new N T w config =
     (case start_keypair N w config of
        None \<Rightarrow> StartPending
      | Some keypair \<Rightarrow> if cf_first config then start_first N T w config else start_joining N T w config keypair)"

section \<open>A started node is a reachable one\<close>

lemma handle_backlog_ConsE:
  assumes "handle_backlog N ws ((message, sender, dest_info) # backlog) d = StartReturns (Inr commands, d')"
  obtains c1 s1 c2 where "handle_commands N (ws 0) (HandleMessage (Some sender) message dest_info) d = Some (Inr c1, d\<lparr>dp_core := s1\<rparr>)"
    and "try_handle_command N ((ws 0)\<lparr>wd_cancelled := wd_cancelled (ws 0) \<or> dp_cancel_timer d\<rparr>)
      (HandleMessage (Some sender) message dest_info) (dp_core d) = Some (Inr c1, s1)"
    and "\<not> \<not> unread_sends_return (dp_core (d\<lparr>dp_core := s1\<rparr>))"
    and "handle_backlog N (\<lambda>n. ws (Suc n)) backlog (d\<lparr>dp_core := s1\<rparr>) = StartReturns (Inr c2, d')" and "commands = c1 @ c2"
  using assms by (auto simp: handle_commands_def split: option.splits sum.splits prod.splits if_splits)

text \<open>Handling the backlog is a run of the state machine that takes its messages first.\<close>

lemma handle_backlog_steps:
  "handle_backlog N ws backlog d = StartReturns (Inr commands, d') \<Longrightarrow>
    (system_step N)\<^sup>*\<^sup>*
      \<lparr>sy_core = dp_core d,
       sy_commands = map (\<lambda>(message, sender, dest_info). HandleMessage (Some sender) message dest_info) backlog @ spawned,
       sy_relocations = []\<rparr>
      \<lparr>sy_core = dp_core d', sy_commands = spawned @ commands, sy_relocations = []\<rparr> \<and>
    dp_comm d' = dp_comm d \<and> dp_cancel_timer d' = dp_cancel_timer d"
proof (induction N ws backlog d arbitrary: commands spawned rule: handle_backlog.induct)
  case (2 N ws message sender dest_info backlog d)
  let ?w = "(ws 0)\<lparr>wd_cancelled := wd_cancelled (ws 0) \<or> dp_cancel_timer d\<rparr>"
  let ?c = "HandleMessage (Some sender) message dest_info"
  let ?rest = "map (\<lambda>(message, sender, dest_info). HandleMessage (Some sender) message dest_info) backlog"
  obtain c1 s1 c2 where step: "handle_commands N (ws 0) ?c d = Some (Inr c1, d\<lparr>dp_core := s1\<rparr>)"
    and first: "try_handle_command N ?w ?c (dp_core d) = Some (Inr c1, s1)"
    and fits: "\<not> \<not> unread_sends_return (dp_core (d\<lparr>dp_core := s1\<rparr>))"
    and rest: "handle_backlog N (\<lambda>n. ws (Suc n)) backlog (d\<lparr>dp_core := s1\<rparr>) = StartReturns (Inr c2, d')" and commands: "commands = c1 @ c2"
    by (rule handle_backlog_ConsE [OF "2.prems"])
  have "system_step N \<lparr>sy_core = dp_core d, sy_commands = ?c # ?rest @ spawned, sy_relocations = []\<rparr>
      \<lparr>sy_core = s1, sy_commands = ?rest @ spawned @ c1, sy_relocations = []\<rparr>"
    using run_command [of "\<lparr>sy_core = dp_core d, sy_commands = ?c # ?rest @ spawned, sy_relocations = []\<rparr>" "[]" ?c "?rest @ spawned" N ?w]
      first by (simp add: commands_of_def)
  then show ?case using "2.IH" [OF step refl fits refl rest, of "spawned @ c1"] by (simp add: commands converse_rtranclp_into_rtranclp)
qed simp

lemma steps_reachable: "(system_step N)\<^sup>*\<^sup>* S S' \<Longrightarrow> node_reachable N S \<Longrightarrow> node_reachable N S'"
  by (induction rule: rtranclp_induct) (auto intro: next_step)

lemma start_joining_reachable:
  assumes "start_joining N T w config keypair = StartReturns (Inr (d, commands))"
  shows "node_reachable N \<lparr>sy_core = dp_core d, sy_commands = commands, sy_relocations = []\<rparr> \<and>
    \<not> cm_closed (dp_comm d) \<and> \<not> dp_cancel_timer d"
proof -
  obtain comm addr node sec backlog where comm: "comm_bootstrap T (cf_transport_config config) = Inr (comm, addr)"
    and run: "join_run (no_join N) (sw_section_key w) (sw_join_draws w) (sw_connection_events w)
        (node_new keypair (our_connection_info comm)) addr = Return (Inr (node, sec, backlog))"
    and backlog: "handle_backlog N (sw_worlds w) backlog (dispatcher_new (core_new (no_kit N) node sec None) comm) = StartReturns (Inr commands, d)"
    using assms by (auto simp: start_joining_def split: sum.splits prod.splits progress.splits)
  have "\<not> cm_closed comm" using comm by (auto simp: comm_bootstrap_def and_then_def split: sum.splits)
  moreover have "node_reachable N \<lparr>sy_core = core_new (no_kit N) node sec None,
      sy_commands = map (\<lambda>(message, sender, dest_info). HandleMessage (Some sender) message dest_info) backlog, sy_relocations = []\<rparr>"
    by (rule joined_node [OF run]) (simp add: routing_new_joined_def)
  ultimately show ?thesis
    using handle_backlog_steps [OF backlog, of "[]"] steps_reachable by (fastforce simp: dispatcher_new_def)
qed

lemma start_first_reachable:
  assumes "start_first N T w config = StartReturns (Inr (d, commands))"
    and "share_of_set (kt_crypto (no_kit N)) (fst (sw_key_set w)) (snd (sw_key_set w))"
  shows "node_reachable N \<lparr>sy_core = dp_core d, sy_commands = commands, sy_relocations = []\<rparr> \<and>
    \<not> cm_closed (dp_comm d) \<and> \<not> dp_cancel_timer d"
proof -
  obtain comm s where comm: "comm_new T (cf_transport_config config) = Inr comm"
    and first: "routing_new_first N (sw_genesis_keypairs w) (our_connection_info comm) (fst (sw_key_set w)) (snd (sw_key_set w)) =
      Some (Inr s)"
    and d: "d = dispatcher_new s comm" "commands = []"
    using assms(1) by (auto simp: start_first_def split: option.splits sum.splits)
  have "\<not> cm_closed comm" using comm by (auto simp: comm_new_def and_then_def split: sum.splits)
  then show ?thesis using first_node [OF first assms(2)] by (simp add: d dispatcher_new_def)
qed

lemma routing_new_starts:
  assumes "routing_new N T w config = StartReturns (Inr (d, commands))"
    and "share_of_set (kt_crypto (no_kit N)) (fst (sw_key_set w)) (snd (sw_key_set w))"
  shows "node_reachable N \<lparr>sy_core = dp_core d, sy_commands = commands, sy_relocations = []\<rparr> \<and>
    \<not> cm_closed (dp_comm d) \<and> \<not> dp_cancel_timer d"
  using assms(1)
  by (auto simp: routing_new_def split: option.splits if_splits
      dest: start_first_reachable [OF _ assms(2)] start_joining_reachable)

section \<open>A full channel\<close>

text \<open>A user message that a node, which is not an elder, takes for itself.\<close>

definition user_message_for :: "('c, 'a, 'd) kit \<Rightarrow> ('c, 'a, 'd) core \<Rightarrow> 'c routing_msg \<Rightarrow> bool" where
  "user_message_for K s msg \<longleftrightarrow>
     msg_dst msg = DstNode (core_name K s) \<and> dst_contains (kt_loc K) (msg_dst msg) (core_name K s) (sec_prefix (co_section s)) \<and>
     (case msg_variant msg of UserMessage _ \<Rightarrow> True | _ \<Rightarrow> False) \<and>
     (case msg_src msg of BlsShareAuth _ _ _ \<Rightarrow> False | _ \<Rightarrow> True) \<and> core_verify_message K s msg = Inr True"

lemma user_message_event:
  assumes "user_message_for K s msg" "\<not> core_is_elder K s"
  shows "\<exists>e. dispatch_message K w sender msg di s = (Inr [], send_event e s)"
proof -
  obtain content where msg: "msg_variant msg = UserMessage content" "msg_dst msg = DstNode (core_name K s)"
    using assms(1) by (auto simp: user_message_for_def split: variant.splits)
  have "decide_message_status K s msg = Inr Useful"
    using assms msg by (simp add: decide_message_status_def decide_before_verify_def user_message_for_def)
  moreover have "aggregate_message K msg s = (Inr (Some msg), s)"
    using assms(1) by (auto simp: user_message_for_def aggregate_message_def split: src_authority.splits)
  ultimately show ?thesis
    using assms msg
    by (auto simp: dispatch_message_def unreachable_variant_def handle_message_def handle_decided_def bind_def lift_result_def
        ret_def check_for_entropy_def handle_useful_message_def handle_useful_variant_def handle_user_message_def Let_def
        user_message_for_def split: option.splits)
qed

lemma send_event_keeps [simp]:
  "user_message_for K (send_event e s) msg = user_message_for K s msg" "core_is_elder K (send_event e s) = core_is_elder K s"
  "length (co_events (send_event e s)) = Suc (length (co_events s))"
  by (simp_all add: send_event_def user_message_for_def core_verify_message_def core_known_keys_def core_is_elder_def)

lemma user_message_handled:
  assumes "user_message_for (no_kit N) (dp_core d) m" "\<not> core_is_elder (no_kit N) (dp_core d)"
  obtains e where "handle_commands N w (HandleMessage (Some sender) m di) d = Some (Inr [], d\<lparr>dp_core := send_event e (dp_core d)\<rparr>)"
proof -
  let ?w = "w\<lparr>wd_cancelled := wd_cancelled w \<or> dp_cancel_timer d\<rparr>"
  obtain e where "dispatch_message (no_kit N) ?w (Some sender) m di (dp_core d) = (Inr [], send_event e (dp_core d))"
    using user_message_event [OF assms] by blast
  then show thesis using that by (simp add: handle_commands_def try_handle_command_def)
qed

lemma full_channel_blocks:
  assumes "list_all (\<lambda>(m, _, _). user_message_for (no_kit N) (dp_core d) m) (take (Suc EVENT_CHANNEL_SIZE - length (co_events (dp_core d))) backlog)"
    and "\<not> core_is_elder (no_kit N) (dp_core d)"
    and "EVENT_CHANNEL_SIZE < length (co_events (dp_core d)) + length backlog" "unread_sends_return (dp_core d)"
  shows "handle_backlog N ws backlog d = ChannelFull"
  using assms
proof (induction N ws backlog d rule: handle_backlog.induct)
  case (2 N ws message sender dest_info backlog d)
  have room: "Suc EVENT_CHANNEL_SIZE - length (co_events (dp_core d)) = Suc (EVENT_CHANNEL_SIZE - length (co_events (dp_core d)))"
    using "2.prems"(4) by (simp add: unread_sends_return_def)
  obtain e where first: "handle_commands N (ws 0) (HandleMessage (Some sender) message dest_info) d =
      Some (Inr [], d\<lparr>dp_core := send_event e (dp_core d)\<rparr>)"
    using user_message_handled [of N d message "ws 0" sender dest_info] "2.prems"(1,2) room by auto
  then show ?case
    using "2.IH" [OF first, of "Inr []" "d\<lparr>dp_core := send_event e (dp_core d)\<rparr>" "[]"] "2.prems" room by simp
qed (simp add: unread_sends_return_def)

lemma short_backlog_returns:
  assumes "list_all (\<lambda>(m, _, _). user_message_for (no_kit N) (dp_core d) m) backlog" "\<not> core_is_elder (no_kit N) (dp_core d)"
    and "length (co_events (dp_core d)) + length backlog \<le> EVENT_CHANNEL_SIZE"
  shows "\<exists>d'. handle_backlog N ws backlog d = StartReturns (Inr [], d') \<and>
    length (co_events (dp_core d')) = length (co_events (dp_core d)) + length backlog"
  using assms
proof (induction N ws backlog d rule: handle_backlog.induct)
  case (2 N ws message sender dest_info backlog d)
  obtain e where first: "handle_commands N (ws 0) (HandleMessage (Some sender) message dest_info) d =
      Some (Inr [], d\<lparr>dp_core := send_event e (dp_core d)\<rparr>)"
    using user_message_handled [of N d message "ws 0" sender dest_info] "2.prems"(1,2) by auto
  moreover have "unread_sends_return (send_event e (dp_core d))" using "2.prems"(3) by (simp add: unread_sends_return_def)
  ultimately show ?case
    using "2.IH" [OF first, of "Inr []" "d\<lparr>dp_core := send_event e (dp_core d)\<rparr>" "[]"] "2.prems" by auto
qed simp

section \<open>The order of the backlog\<close>

text \<open>\<open>ss\<close> are the states before, between and after the messages of a backlog, \<open>cs\<close> the commands each of them
  gives: the message at position \<open>i\<close> is handled in the state that the message before it left.\<close>

definition handled_in_order ::
  "('c, 'a, 'd) node_ops \<Rightarrow> (nat \<Rightarrow> 'c world) \<Rightarrow> 'c backlog_entry list \<Rightarrow> ('c, 'a, 'd) core list \<Rightarrow> 'c command list list \<Rightarrow> bool" where
  "handled_in_order N ws backlog ss cs \<longleftrightarrow>
     length ss = Suc (length backlog) \<and> length cs = length backlog \<and>
     (\<forall>i < length backlog. case backlog ! i of (message, sender, dest_info) \<Rightarrow>
        try_handle_command N (ws i) (HandleMessage (Some sender) message dest_info) (ss ! i) = Some (Inr (cs ! i), ss ! Suc i))"

lemma handled_in_order_Cons:
  assumes "try_handle_command N (ws 0) (HandleMessage (Some sender) message dest_info) s = Some (Inr c, hd ss)"
    and "handled_in_order N (\<lambda>n. ws (Suc n)) backlog ss cs"
  shows "handled_in_order N ws ((message, sender, dest_info) # backlog) (s # ss) (c # cs)"
  using assms by (cases ss) (auto simp: handled_in_order_def All_less_Suc2)

lemma handle_backlog_in_order:
  assumes "handle_backlog N ws backlog d = StartReturns (Inr commands, d')" "\<not> dp_cancel_timer d"
  shows "\<exists>ss cs. handled_in_order N ws backlog ss cs \<and> hd ss = dp_core d \<and> last ss = dp_core d' \<and> commands = concat cs"
  using assms
proof (induction N ws backlog d arbitrary: commands rule: handle_backlog.induct)
  case (1 N ws d)
  then show ?case by (intro exI [of _ "[dp_core d]"] exI [of _ "[]"]) (simp add: handled_in_order_def)
next
  case (2 N ws message sender dest_info backlog d)
  let ?c = "HandleMessage (Some sender) message dest_info"
  obtain c1 s1 c2 where step: "handle_commands N (ws 0) ?c d = Some (Inr c1, d\<lparr>dp_core := s1\<rparr>)"
    and first: "try_handle_command N ((ws 0)\<lparr>wd_cancelled := wd_cancelled (ws 0) \<or> dp_cancel_timer d\<rparr>) ?c (dp_core d) = Some (Inr c1, s1)"
    and fits: "\<not> \<not> unread_sends_return (dp_core (d\<lparr>dp_core := s1\<rparr>))"
    and rest: "handle_backlog N (\<lambda>n. ws (Suc n)) backlog (d\<lparr>dp_core := s1\<rparr>) = StartReturns (Inr c2, d')" and commands: "commands = c1 @ c2"
    by (rule handle_backlog_ConsE [OF "2.prems"(1)])
  obtain ss cs where ss: "handled_in_order N (\<lambda>n. ws (Suc n)) backlog ss cs" "hd ss = s1" "last ss = dp_core d'" "c2 = concat cs"
    using "2.IH" [OF step refl fits refl rest] "2.prems"(2) by auto
  then have "ss \<noteq> []" by (auto simp: handled_in_order_def)
  moreover have "handled_in_order N ws ((message, sender, dest_info) # backlog) (dp_core d # ss) (c1 # cs)"
    using handled_in_order_Cons [OF _ ss(1)] first ss(2) "2.prems"(2) by simp
  ultimately show ?case using ss(3,4) commands by (intro exI [of _ "dp_core d # ss"] exI [of _ "c1 # cs"]) simp
qed

lemma start_joining_in_order:
  assumes "start_joining N T w config keypair = StartReturns (Inr (d, commands))"
  shows "\<exists>comm addr node sec backlog ss cs. comm_bootstrap T (cf_transport_config config) = Inr (comm, addr) \<and>
    join_run (no_join N) (sw_section_key w) (sw_join_draws w) (sw_connection_events w)
      (node_new keypair (our_connection_info comm)) addr = Return (Inr (node, sec, backlog)) \<and>
    handled_in_order N (sw_worlds w) backlog ss cs \<and> hd ss = core_new (no_kit N) node sec None \<and>
    last ss = dp_core d \<and> commands = concat cs"
proof -
  obtain comm addr node sec backlog where "comm_bootstrap T (cf_transport_config config) = Inr (comm, addr)"
    "join_run (no_join N) (sw_section_key w) (sw_join_draws w) (sw_connection_events w)
        (node_new keypair (our_connection_info comm)) addr = Return (Inr (node, sec, backlog))"
    and "handle_backlog N (sw_worlds w) backlog (dispatcher_new (core_new (no_kit N) node sec None) comm) = StartReturns (Inr commands, d)"
    using assms by (auto simp: start_joining_def split: sum.splits prod.splits progress.splits)
  then show ?thesis using handle_backlog_in_order [of N "sw_worlds w" backlog] by (fastforce simp: dispatcher_new_def)
qed

section \<open>Properties\<close>


section \<open>Concrete starts\<close>

definition token_transport :: transport_ops where
  "token_transport = \<lparr>
     tp_default = \<lparr>tc_hard_coded_contacts = {}, tc_local_ip = None, tc_local_port = None, tc_forward_port = False\<rparr>,
     tp_with_config = (\<lambda>_ _. Inr ()), tp_new_endpoint = (\<lambda>_. Inr \<lparr>ep_socket_addr = 10, ep_local_ip = 1\<rparr>),
     tp_bootstrap = (\<lambda>_. Inr (\<lparr>ep_socket_addr = 30, ep_local_ip = 1\<rparr>, 10)), tp_is_reachable = (\<lambda>_ _. Inr ())\<rparr>"

definition token_start :: "connection_event list \<Rightarrow> bls_public_key list start_world" where
  "token_start evs = \<lparr>
     sw_keypairs = [], sw_genesis_keypairs = [nd_keypair first_node], sw_key_set = (PkSet 1, SkShare 0),
     sw_section_key = BlsPk 1, sw_join_draws = (\<lambda>_. no_draws), sw_connection_events = evs, sw_worlds = (\<lambda>_. token_world)\<rparr>"

text \<open>A node whose join is answered by an approval, after many user messages for it.\<close>

definition chat :: "bls_public_key list routing_msg" where
  "chat = RoutingMsg (MessageId 3) (NodeAuth (EdPk 255) (EdSig 255)) (DstNode 40) AggNone (UserMessage [1]) (BlsPk 1)"

definition approval :: "bls_public_key list routing_msg" where
  "approval = RoutingMsg (MessageId 4) (NodeAuth (EdPk 255) (EdSig 255)) DirectAndUnrouted AggNone
     (JoinResponse (Approval (BlsPk 1) (token_signed 1 first_auth) (token_signed 1 joined_info) [BlsPk 1])) (BlsPk 1)"

definition chatty_join :: "bls_public_key list join_ops" where
  "chatty_join = token_join\<lparr>jo_deserialize := (\<lambda>bytes. Inr (RoutingType \<lparr>di_dest = Dest 40, di_section_pk = BlsPk 1\<rparr>
     (if bytes = [] then chat else approval)))\<rparr>"

definition chatty_node :: "(bls_public_key list, unit, nat dkg_state) node_ops" where
  "chatty_node = token_node\<lparr>no_join := chatty_join\<rparr>"

definition chatty_start :: "nat \<Rightarrow> bls_public_key list start_world" where
  "chatty_start n = token_start (replicate n (Received 10 []) @ [Received 10 [0]])"

definition joining_config :: config where
  "joining_config = (config_default token_transport)\<lparr>cf_keypair := Some (nd_keypair (jn_node joiner))\<rparr>"

lemma receive_fills_backlog:
  assumes "routing_of J ev = [e]" "\<not> is_join_response (fst e)" "length bl + n \<le> JOIN_BACKLOG_CAPACITY"
  shows "receive_join_response J name (replicate n ev @ evs) bl = receive_join_response J name evs (bl @ replicate n e)"
  using assms(3)
proof (induction n arbitrary: bl)
  case (Suc n)
  have "join_backlog_message e bl = bl @ [e]"
    using Suc.prems by (cases bl) (simp_all add: join_backlog_message_def)
  then show ?case using Suc assms(1,2) by (cases e) (simp add: receive_join_response_Cons)
qed simp

definition chats :: "nat \<Rightarrow> bls_public_key list backlog_entry list" where
  "chats n = replicate n (chat, 10, \<lparr>di_dest = Dest 40, di_section_pk = BlsPk 1\<rparr>)"

lemma chatty_join_run:
  assumes "n \<le> JOIN_BACKLOG_CAPACITY"
  shows "join_run chatty_join (BlsPk 1) (\<lambda>_. no_draws) (replicate n (Received 10 []) @ [Received 10 [0]]) (jn_node joiner) 10 =
     Return (Inr (jn_node joiner, approved_section first_section, chats n))"
proof -
  have "receive_join_response chatty_join name (replicate n (Received 10 []) @ [Received 10 [0]]) [] =
      receive_join_response chatty_join name [Received 10 [0]] (chats n)" for name
    using receive_fills_backlog [of chatty_join "Received 10 []" "(chat, 10, \<lparr>di_dest = Dest 40, di_section_pk = BlsPk 1\<rparr>)" "[]" n] assms
    by (simp add: chatty_join_def is_join_response_def chat_def chats_def)
  moreover have "join_response_ok chatty_join 40 approval (Approval (BlsPk 1) (token_signed 1 first_auth) (token_signed 1 joined_info) [BlsPk 1])"
    by (simp add: join_response_ok_def chatty_join_def token_join_def joined_info_def bootstrap_verify_message_def message_verify_def
        verify_variant_def approval_def trust_status_def section_signed_verify_def self_verify_def verify_signed_def
        token_crypto_simps list_chain_simps ok_or_def and_then_def)
  ultimately show ?thesis
    by (simp add: join_run_def join_with_def request_with_key_def send_join_requests_def single_src_def new_signed_def ok_or_def
        and_then_def join_loop.simps receive_join_response_Cons is_join_response_def on_join_response_def section_new_def
        chatty_join_def token_join_def approval_def joiner_def node_name_def token_crypto_simps list_chain_simps
        approved_section_def first_section_def Let_def)
qed

text \<open>The endpoint of the joining node, and its state after the join.\<close>

definition chatty_comm :: comm where
  "chatty_comm = \<lparr>cm_endpoint = \<lparr>ep_socket_addr = 30, ep_local_ip = 1\<rparr>, cm_closed = False, cm_event_tx = True\<rparr>"

definition chatty_core :: "(bls_public_key list, unit, nat dkg_state) core" where
  "chatty_core = core_new token_kit (jn_node joiner) (approved_section first_section) None"

lemma chat_for_node: "user_message_for token_kit chatty_core chat" "\<not> core_is_elder token_kit chatty_core"
  by (simp_all add: user_message_for_def chat_def core_verify_message_def message_verify_def verify_variant_def core_is_elder_def
      sec_is_elder_def authority_provider_def contains_elder_def bt_contains_def approved_section_def first_section_def first_auth_def
      joiner_def chatty_core_def core_new_def node_name_def token_crypto_simps token_loc_def ok_or_def and_then_def)

lemma chatty_joins:
  assumes "n \<le> JOIN_BACKLOG_CAPACITY"
  shows "\<not> cf_first joining_config" "start_keypair chatty_node (chatty_start n) joining_config = Some (nd_keypair (jn_node joiner))"
    "comm_bootstrap token_transport (cf_transport_config joining_config) = Inr (chatty_comm, 10)"
    "join_run (no_join chatty_node) (sw_section_key (chatty_start n)) (sw_join_draws (chatty_start n)) (sw_connection_events (chatty_start n))
      (node_new (nd_keypair (jn_node joiner)) (our_connection_info chatty_comm)) 10 =
     Return (Inr (jn_node joiner, approved_section first_section, chats n))"
    "\<not> core_is_elder (no_kit chatty_node) (core_new (no_kit chatty_node) (jn_node joiner) (approved_section first_section) None)"
    "list_all (\<lambda>(m, _, _). user_message_for (no_kit chatty_node)
      (core_new (no_kit chatty_node) (jn_node joiner) (approved_section first_section) None) m) (take k (chats n))"
  using chat_for_node chatty_join_run [OF assms]
  by (simp_all add: joining_config_def config_default_def start_keypair_def token_transport_def comm_bootstrap_def chatty_start_def
      token_start_def chatty_node_def our_connection_info_def chatty_comm_def node_new_def joiner_def chats_def list_all_iff
      chatty_core_def)

section \<open>A start that never returns\<close>

text \<open>C27. \<open>Routing::new\<close> can block for ever. It handles the messages that arrived during the
  join before it returns, and only then does the caller get the stream from which the
  events are read; the channel takes \<open>EVENT_CHANNEL_SIZE\<close> events. Let the join of a node that is not an elder
  succeed, and let the first \<open>EVENT_CHANNEL_SIZE + 1\<close> messages of its backlog, or all when there are fewer, be verified
  user messages for it. When there are more than \<open>EVENT_CHANNEL_SIZE\<close> messages, for which the
  backlog has room, the start waits for room in the channel; otherwise it returns the node, with one
  event for each of the messages.\<close>

theorem long_backlog_blocks_start:
  assumes "\<not> cf_first config" and "start_keypair N w config = Some keypair"
    and "comm_bootstrap T (cf_transport_config config) = Inr (comm, addr)"
    and "join_run (no_join N) (sw_section_key w) (sw_join_draws w) (sw_connection_events w)
      (node_new keypair (our_connection_info comm)) addr = Return (Inr (node, sec, backlog))"
    and "\<not> core_is_elder (no_kit N) (core_new (no_kit N) node sec None)"
    and "list_all (\<lambda>(m, _, _). user_message_for (no_kit N) (core_new (no_kit N) node sec None) m) (take (Suc EVENT_CHANNEL_SIZE) backlog)"
  shows "EVENT_CHANNEL_SIZE < JOIN_BACKLOG_CAPACITY \<and>
    (if EVENT_CHANNEL_SIZE < length backlog then routing_new N T w config = ChannelFull
     else \<exists>d. routing_new N T w config = StartReturns (Inr (d, [])) \<and> length (co_events (dp_core d)) = length backlog)"
proof -
  let ?d = "dispatcher_new (core_new (no_kit N) node sec None) comm"
  have new: "dp_core ?d = core_new (no_kit N) node sec None" "co_events (dp_core ?d) = []"
    by (simp_all add: dispatcher_new_def core_new_def)
  have start: "routing_new N T w config = map_startup (\<lambda>(result, d). and_then result (\<lambda>commands. Inr (d, commands)))
      (handle_backlog N (sw_worlds w) backlog ?d)"
    using assms(1-4) by (simp add: routing_new_def start_joining_def)
  have "handle_backlog N (sw_worlds w) backlog ?d = ChannelFull" if "EVENT_CHANNEL_SIZE < length backlog"
    using that assms(5,6) new by (intro full_channel_blocks) (simp_all add: unread_sends_return_def)
  moreover have "\<exists>d'. handle_backlog N (sw_worlds w) backlog ?d = StartReturns (Inr [], d') \<and> length (co_events (dp_core d')) = length backlog"
    if "\<not> EVENT_CHANNEL_SIZE < length backlog"
    using that assms(5,6) new short_backlog_returns [of N ?d backlog "sw_worlds w"] by simp
  ultimately show ?thesis using start by (auto simp: EVENT_CHANNEL_SIZE_def JOIN_BACKLOG_CAPACITY_def)
qed

theorem long_backlog_blocks_start_witness:
  "routing_new chatty_node token_transport (chatty_start 21) joining_config = ChannelFull \<and>
   (\<exists>d. routing_new chatty_node token_transport (chatty_start 20) joining_config = StartReturns (Inr (d, [])))"
proof -
  have "21 \<le> JOIN_BACKLOG_CAPACITY" "20 \<le> JOIN_BACKLOG_CAPACITY" by (simp_all add: JOIN_BACKLOG_CAPACITY_def)
  from long_backlog_blocks_start [OF chatty_joins [OF this(1)]] long_backlog_blocks_start [OF chatty_joins [OF this(2)]]
  show ?thesis by (simp add: EVENT_CHANNEL_SIZE_def chats_def del: replicate.simps) blast
qed

section \<open>A start with a backlog\<close>

lemma chatty_returns: "\<exists>d. routing_new chatty_node token_transport (chatty_start 2) joining_config = StartReturns (Inr (d, []))"
proof -
  have two: "2 \<le> JOIN_BACKLOG_CAPACITY" by (simp add: JOIN_BACKLOG_CAPACITY_def)
  let ?d = "dispatcher_new (core_new (no_kit chatty_node) (jn_node joiner) (approved_section first_section) None) chatty_comm"
  have "\<exists>d'. handle_backlog chatty_node (sw_worlds (chatty_start 2)) (chats 2) ?d = StartReturns (Inr [], d')"
    using short_backlog_returns [of chatty_node ?d "chats 2"] chatty_joins(5) [OF two] chatty_joins(6) [OF two, of 2]
    by (auto simp: dispatcher_new_def core_new_def chats_def EVENT_CHANNEL_SIZE_def)
  then show ?thesis using chatty_joins(1-4) [OF two] by (auto simp: routing_new_def start_joining_def)
qed


end
