(* ===== verification/Minimal_Node.thy ===== *)
theory Minimal_Node
  imports Node_Start
begin

text \<open>
  The example program \<open>examples/minimal.rs\<close>, which starts nodes and prints their events, and the
  event stream of \<open>src/routing/event_stream.rs\<close> it reads them from. A start either has not returned
  (\<open>None\<close>), ends in a panic, or gives the tasks of the nodes.
\<close>

section \<open>Options\<close>

record options =
  op_bootstrap_contacts :: "socket_addr list"
  op_first :: bool
  op_ip :: "nat option"
  op_port :: "u16 option"
  op_count :: nat
  op_verbosity :: u8

definition LOCALHOST :: nat where
  "LOCALHOST = 2130706433"

definition log_filter :: "u8 \<Rightarrow> string" where
  "log_filter verbosity =
     (if verbosity = 0 then ''minimal=info,sn_routing=warn''
      else if verbosity = 1 then ''minimal,sn_routing=info''
      else if verbosity = 2 then ''minimal,sn_routing=debug''
      else if verbosity = 3 then ''minimal,sn_routing=trace''
      else ''trace'')"

section \<open>Starting nodes\<close>

datatype minimal_panic = PortOutOfRange | FailedToInstantiate error

definition u16_try_from :: "nat \<Rightarrow> u16 option" where
  "u16_try_from n = (if n < 2 ^ 16 then Some (of_nat n) else None)"

definition u16_checked_add :: "u16 \<Rightarrow> u16 \<Rightarrow> u16 option" where
  "u16_checked_add a b = (if unat a + unat b < 2 ^ 16 then Some (a + b) else None)"

definition local_port :: "nat \<Rightarrow> u16 option \<Rightarrow> minimal_panic + u16 option" where
  "local_port index base_port =
     (case base_port of
        None \<Rightarrow> Inr None
      | Some base_port \<Rightarrow>
          (case Option.bind (u16_try_from index) (\<lambda>offset. u16_checked_add base_port offset) of
             None \<Rightarrow> Inl PortOutOfRange
           | Some port \<Rightarrow> Inr (Some port)))"

definition node_config ::
  "transport_ops \<Rightarrow> nat \<Rightarrow> bool \<Rightarrow> socket_addr list \<Rightarrow> nat option \<Rightarrow> u16 option \<Rightarrow> minimal_panic + config" where
  "node_config T index first contacts ip base_port =
     and_then (local_port index base_port) (\<lambda>port.
     Inr ((config_default T)\<lparr>cf_first := first,
            cf_transport_config := (tp_default T)\<lparr>
              tc_hard_coded_contacts := set contacts,
              tc_local_ip := Some (case ip of Some ip \<Rightarrow> ip | None \<Rightarrow> LOCALHOST),
              tc_local_port := port\<rparr>\<rparr>))"

text \<open>The task of a node, with the configuration it was started with.\<close>

record ('c, 'a, 'd) node_task =
  nt_index :: nat
  nt_config :: config
  nt_node :: "('c, 'a, 'd) dispatcher"
  nt_commands :: "'c command list"

type_synonym ('c, 'a, 'd) tasks = "(minimal_panic + ('c, 'a, 'd) node_task list) option"

definition start_node ::
  "('c, 'a, 'd) node_ops \<Rightarrow> transport_ops \<Rightarrow> (nat \<Rightarrow> 'c start_world) \<Rightarrow> nat \<Rightarrow> bool \<Rightarrow> socket_addr list \<Rightarrow> nat option \<Rightarrow> u16 option
    \<Rightarrow> (minimal_panic + socket_addr \<times> ('c, 'a, 'd) node_task) option" where
  "start_node N T ws index first contacts ip base_port =
     (case node_config T index first contacts ip base_port of
        Inl panic \<Rightarrow> Some (Inl panic)
      | Inr config \<Rightarrow>
          (case startup_result (routing_new N T (ws index) config) of
             None \<Rightarrow> None
           | Some (Inl e) \<Rightarrow> Some (Inl (FailedToInstantiate e))
           | Some (Inr (node, commands)) \<Rightarrow>
               Some (Inr (our_connection_info (dp_comm node),
                 \<lparr>nt_index = index, nt_config = config, nt_node = node, nt_commands = commands\<rparr>))))"

definition start_single_node ::
  "('c, 'a, 'd) node_ops \<Rightarrow> transport_ops \<Rightarrow> (nat \<Rightarrow> 'c start_world) \<Rightarrow> bool \<Rightarrow> socket_addr list \<Rightarrow> nat option \<Rightarrow> u16 option
    \<Rightarrow> ('c, 'a, 'd) tasks" where
  "start_single_node N T ws first contacts ip port =
     map_option (\<lambda>r. and_then r (\<lambda>(_, handle). Inr [handle])) (start_node N T ws 0 first contacts ip port)"

text \<open>The loop over the remaining indices.\<close>

fun start_nodes ::
  "('c, 'a, 'd) node_ops \<Rightarrow> transport_ops \<Rightarrow> (nat \<Rightarrow> 'c start_world) \<Rightarrow> nat list \<Rightarrow> socket_addr list \<Rightarrow> nat option \<Rightarrow> u16 option
    \<Rightarrow> ('c, 'a, 'd) tasks" where
  "start_nodes N T ws [] contacts ip base_port = Some (Inr [])"
| "start_nodes N T ws (index # indices) contacts ip base_port =
     (case start_node N T ws index False contacts ip base_port of
        None \<Rightarrow> None
      | Some (Inl panic) \<Rightarrow> Some (Inl panic)
      | Some (Inr (_, handle)) \<Rightarrow>
          map_option (\<lambda>r. and_then r (\<lambda>handles. Inr (handle # handles)))
            (start_nodes N T ws indices contacts ip base_port))"

definition start_multiple_nodes ::
  "('c, 'a, 'd) node_ops \<Rightarrow> transport_ops \<Rightarrow> (nat \<Rightarrow> 'c start_world) \<Rightarrow> nat \<Rightarrow> bool \<Rightarrow> socket_addr list \<Rightarrow> nat option \<Rightarrow> u16 option
    \<Rightarrow> ('c, 'a, 'd) tasks" where
  "start_multiple_nodes N T ws count0 first contacts ip base_port =
     (if first
      then (case start_node N T ws 0 True [] ip base_port of
              None \<Rightarrow> None
            | Some (Inl panic) \<Rightarrow> Some (Inl panic)
            | Some (Inr (first_contact, first_handle)) \<Rightarrow>
                map_option (\<lambda>r. and_then r (\<lambda>handles. Inr (first_handle # handles)))
                  (start_nodes N T ws [1..<count0] (contacts @ [first_contact]) ip base_port))
      else start_nodes N T ws [0..<count0] contacts ip base_port)"

definition minimal_main ::
  "('c, 'a, 'd) node_ops \<Rightarrow> transport_ops \<Rightarrow> (nat \<Rightarrow> 'c start_world) \<Rightarrow> options \<Rightarrow> ('c, 'a, 'd) tasks" where
  "minimal_main N T ws opts =
     (if op_count opts \<le> 1
      then start_single_node N T ws (op_first opts) (op_bootstrap_contacts opts) (op_ip opts) (op_port opts)
      else start_multiple_nodes N T ws (op_count opts) (op_first opts) (op_bootstrap_contacts opts) (op_ip opts) (op_port opts))"

section \<open>Reading events\<close>

record event_stream =
  es_events_rx :: "event list"

definition event_stream_new :: "event list \<Rightarrow> event_stream" where
  "event_stream_new events_rx = \<lparr>es_events_rx = events_rx\<rparr>"

definition event_stream_next :: "event_stream \<Rightarrow> event option \<times> event_stream" where
  "event_stream_next es =
     (case es_events_rx es of [] \<Rightarrow> (None, es) | e # rx \<Rightarrow> (Some e, es\<lparr>es_events_rx := rx\<rparr>))"

text \<open>What is printed for an event, by the arguments of the text.\<close>

datatype log_line =
    LogMemberJoined nat xor_name "xor_name option" u8
  | LogMemberLeft nat xor_name u8
  | LogSectionSplit nat elders elders node_elder_change
  | LogEldersChanged nat elders node_elder_change
  | LogMessage nat src_location dst_location bytes
  | LogRelocationStarted nat xor_name
  | LogRelocated nat xor_name xor_name
  | LogRestart nat
  | LogClientMsg nat end_user client_msg
  | LogClientLost nat socket_addr
  | LogAdultsChanged nat "xor_name btree_set" "xor_name btree_set" "xor_name btree_set"

definition minimal_handle_event :: "nat \<Rightarrow> xor_name \<Rightarrow> event \<Rightarrow> log_line \<times> bool" where
  "minimal_handle_event index new_name event =
     (case event of
        MemberJoined name previous_name age \<Rightarrow> (LogMemberJoined index name previous_name age, True)
      | MemberLeft name age \<Rightarrow> (LogMemberLeft index name age, True)
      | SectionSplit elders0 sibling_elders change \<Rightarrow> (LogSectionSplit index elders0 sibling_elders change, True)
      | EldersChanged elders0 change \<Rightarrow> (LogEldersChanged index elders0 change, True)
      | MessageReceived content src dst _ _ \<Rightarrow> (LogMessage index src dst content, True)
      | RelocationStarted previous_name \<Rightarrow> (LogRelocationStarted index previous_name, True)
      | RelocatedEvent previous_name _ \<Rightarrow> (LogRelocated index previous_name new_name, True)
      | RestartRequired \<Rightarrow> (LogRestart index, False)
      | ClientMsgReceived msg user \<Rightarrow> (LogClientMsg index user msg, True)
      | ClientLost addr \<Rightarrow> (LogClientLost index addr, True)
      | AdultsChanged remaining added removed \<Rightarrow> (LogAdultsChanged index remaining added removed, True))"

text \<open>\<open>names n\<close> is the name of the node when its \<open>n\<close>-th event is handled.\<close>

function run_node :: "nat \<Rightarrow> (nat \<Rightarrow> xor_name) \<Rightarrow> event_stream \<Rightarrow> log_line list \<times> event_stream" where
  "run_node index names es =
     (case event_stream_next es of
        (None, es') \<Rightarrow> ([], es')
      | (Some event, es') \<Rightarrow>
          (case minimal_handle_event index (names 0) event of
             (line, True) \<Rightarrow> (let (lines, rest) = run_node index (\<lambda>n. names (Suc n)) es' in (line # lines, rest))
           | (line, False) \<Rightarrow> ([line], es')))"
  by pat_completeness auto
termination
  by (relation "measure (\<lambda>(_, _, es). length (es_events_rx es))") (auto simp: event_stream_next_def split: list.splits)

declare run_node.simps [simp del]

section \<open>The nodes that are started\<close>

lemma local_port_spec:
  "local_port index base_port = Inr port \<Longrightarrow>
    (case base_port of None \<Rightarrow> port = None | Some b \<Rightarrow> (\<exists>q. port = Some q \<and> unat q = unat b + index))"
  by (auto simp: local_port_def u16_try_from_def u16_checked_add_def unat_of_nat unat_word_ariths bind_eq_Some_conv
      split: option.splits if_splits)

text \<open>A task is that of the node with this index, started as a first node or with these contacts.\<close>

definition task_for ::
  "('c, 'a, 'd) node_ops \<Rightarrow> transport_ops \<Rightarrow> (nat \<Rightarrow> 'c start_world) \<Rightarrow> options \<Rightarrow> nat \<Rightarrow> bool \<Rightarrow> socket_addr set \<Rightarrow> ('c, 'a, 'd) node_task \<Rightarrow> bool" where
  "task_for N T ws opts i first contacts t \<longleftrightarrow>
     nt_index t = i \<and> cf_first (nt_config t) = first \<and>
     tc_hard_coded_contacts (cf_transport_config (nt_config t)) = contacts \<and>
     tc_local_ip (cf_transport_config (nt_config t)) = Some (case op_ip opts of Some ip \<Rightarrow> ip | None \<Rightarrow> LOCALHOST) \<and>
     (case op_port opts of
        None \<Rightarrow> tc_local_port (cf_transport_config (nt_config t)) = None
      | Some p \<Rightarrow> \<exists>q. tc_local_port (cf_transport_config (nt_config t)) = Some q \<and> unat q = unat p + i) \<and>
     routing_new N T (ws i) (nt_config t) = StartReturns (Inr (nt_node t, nt_commands t))"

lemma start_node_spec:
  assumes "start_node N T ws i first contacts (op_ip opts) (op_port opts) = Some (Inr (contact, t))"
  shows "task_for N T ws opts i first (set contacts) t \<and> contact = our_connection_info (dp_comm (nt_node t))"
  using assms
  by (auto simp: start_node_def node_config_def and_then_def task_for_def split: sum.splits option.splits prod.splits
      dest: local_port_spec)

lemma start_nodes_spec:
  "start_nodes N T ws is contacts (op_ip opts) (op_port opts) = Some (Inr ts) \<Longrightarrow>
    length ts = length is \<and> (\<forall>k < length is. task_for N T ws opts (is ! k) False (set contacts) (ts ! k))"
proof (induction "is" arbitrary: ts)
  case (Cons i "is")
  then obtain c t ts' where t: "start_node N T ws i False contacts (op_ip opts) (op_port opts) = Some (Inr (c, t))"
    and ts: "start_nodes N T ws is contacts (op_ip opts) (op_port opts) = Some (Inr ts')" "ts = t # ts'"
    by (auto simp: and_then_def split: option.splits sum.splits)
  then show ?case using Cons.IH [OF ts(1)] start_node_spec [OF t] by (auto simp: nth_Cons split: nat.splits)
qed simp

text \<open>The contacts that the nodes after the first one get.\<close>

definition later_contacts :: "options \<Rightarrow> ('c, 'a, 'd) node_task list \<Rightarrow> socket_addr set" where
  "later_contacts opts tasks =
     set (op_bootstrap_contacts opts) \<union>
       (if op_first opts then {our_connection_info (dp_comm (nt_node (hd tasks)))} else {})"

lemma minimal_main_spec:
  assumes "minimal_main N T ws opts = Some (Inr tasks)"
  shows "length tasks = max 1 (op_count opts) \<and>
    (\<forall>i < length tasks. \<exists>contacts. task_for N T ws opts i (op_first opts \<and> i = 0) contacts (tasks ! i) \<and>
       (0 < i \<longrightarrow> contacts = later_contacts opts tasks))"
proof (cases "op_count opts \<le> 1")
  case True
  then obtain c t where "start_node N T ws 0 (op_first opts) (op_bootstrap_contacts opts) (op_ip opts) (op_port opts) = Some (Inr (c, t))"
    "tasks = [t]"
    using assms
    by (cases "start_node N T ws 0 (op_first opts) (op_bootstrap_contacts opts) (op_ip opts) (op_port opts)")
      (auto simp: minimal_main_def start_single_node_def and_then_def split: sum.splits)
  then show ?thesis using start_node_spec True by fastforce
next
  case False
  show ?thesis
  proof (cases "op_first opts")
    case True
    then obtain c t ts where t: "start_node N T ws 0 True [] (op_ip opts) (op_port opts) = Some (Inr (c, t))"
      and ts: "start_nodes N T ws [1..<op_count opts] (op_bootstrap_contacts opts @ [c]) (op_ip opts) (op_port opts) = Some (Inr ts)"
        "tasks = t # ts"
      using assms False by (auto simp: minimal_main_def start_multiple_nodes_def and_then_def split: sum.splits option.splits)
    then show ?thesis
      using start_node_spec [OF t] start_nodes_spec [OF ts(1)] True False
      by (auto simp: later_contacts_def nth_Cons less_Suc_eq_0_disj split: nat.splits)
  next
    case no: False
    then have "start_nodes N T ws [0..<op_count opts] (op_bootstrap_contacts opts) (op_ip opts) (op_port opts) = Some (Inr tasks)"
      using assms False by (simp add: minimal_main_def start_multiple_nodes_def)
    from start_nodes_spec [OF this] show ?thesis using no False by (fastforce simp: later_contacts_def)
  qed
qed

lemma run_node_all:
  "RestartRequired \<notin> set events \<Longrightarrow>
    \<exists>lines. run_node index names (event_stream_new events) = (lines, event_stream_new []) \<and> length lines = length events"
proof (induction events arbitrary: names)
  case (Cons e events)
  then obtain lines where "run_node index (\<lambda>n. names (Suc n)) (event_stream_new events) = (lines, event_stream_new [])"
    "length lines = length events"
    by auto
  moreover obtain line where "minimal_handle_event index (names 0) e = (line, True)"
    using Cons.prems by (cases e) (auto simp: minimal_handle_event_def)
  ultimately show ?case
    using run_node.simps [of index names "event_stream_new (e # events)"]
    by (simp add: event_stream_next_def event_stream_new_def)
qed (simp add: run_node.simps event_stream_next_def event_stream_new_def)

section \<open>Properties\<close>

text \<open>C37. The example program starts the nodes it is asked for. When it has started them there are
  \<open>count\<close> of them, at least one; only the first one may be a genesis node; all others
  get its address as a contact, besides the given ones. The \<open>i\<close>-th node listens on the given
  port plus \<open>i\<close>, which never wraps around. Each of them is a sound start of a node.\<close>

theorem minimal_main_starts:
  assumes "minimal_main N T ws opts = Some (Inr tasks)"
    and "\<And>i. share_of_set (kt_crypto (no_kit N)) (fst (sw_key_set (ws i))) (snd (sw_key_set (ws i)))"
  shows "length tasks = max 1 (op_count opts) \<and>
    (\<forall>i < length tasks.
       (\<exists>contacts. task_for N T ws opts i (op_first opts \<and> i = 0) contacts (tasks ! i) \<and>
         (0 < i \<longrightarrow> contacts = later_contacts opts tasks)) \<and>
       node_reachable N \<lparr>sy_core = dp_core (nt_node (tasks ! i)), sy_commands = nt_commands (tasks ! i), sy_relocations = []\<rparr>)"
proof -
  have "node_reachable N \<lparr>sy_core = dp_core (nt_node t), sy_commands = nt_commands t, sy_relocations = []\<rparr>"
    if "task_for N T ws opts i first contacts t" for i first contacts t
    using that routing_new_starts [OF _ assms(2)] by (auto simp: task_for_def)
  then show ?thesis using minimal_main_spec [OF assms(1)] by blast
qed

text \<open>A network of two nodes.\<close>

definition second_node :: node where
  "second_node = \<lparr>nd_keypair = \<lparr>kp_secret = 1, kp_public = EdPk 5\<rparr>, nd_addr = 30\<rparr>"

definition second_approval :: "bls_public_key list routing_msg" where
  "second_approval = RoutingMsg (MessageId 4) (NodeAuth (EdPk 255) (EdSig 255)) DirectAndUnrouted AggNone
     (JoinResponse (Approval (BlsPk 1) (token_signed 1 first_auth)
       (token_signed 1 \<lparr>ns_peer = \<lparr>peer_name = 5, peer_addr = 30, peer_reachable = True\<rparr>, ns_state = Joined\<rparr>) [BlsPk 1])) (BlsPk 1)"

definition pair_join :: "bls_public_key list join_ops" where
  "pair_join = token_join\<lparr>jo_deserialize := (\<lambda>_. Inr (RoutingType \<lparr>di_dest = Dest 5, di_section_pk = BlsPk 1\<rparr> second_approval))\<rparr>"

definition pair_node :: "(bls_public_key list, unit, nat dkg_state) node_ops" where
  "pair_node = token_node\<lparr>no_join := pair_join\<rparr>"

definition pair_worlds :: "nat \<Rightarrow> bls_public_key list start_world" where
  "pair_worlds i = (token_start [Received 10 []])\<lparr>sw_keypairs := [nd_keypair second_node]\<rparr>"

definition pair_options :: options where
  "pair_options = \<lparr>op_bootstrap_contacts = [], op_first = True, op_ip = None, op_port = Some 65534, op_count = 2, op_verbosity = 0\<rparr>"

lemma pair_join_run:
  "join_run pair_join (BlsPk 1) (\<lambda>_. no_draws) [Received 10 []] second_node 10 =
     Return (Inr (second_node, approved_section first_section, []))"
proof -
  have "join_response_ok pair_join 5 second_approval (Approval (BlsPk 1) (token_signed 1 first_auth)
      (token_signed 1 \<lparr>ns_peer = \<lparr>peer_name = 5, peer_addr = 30, peer_reachable = True\<rparr>, ns_state = Joined\<rparr>) [BlsPk 1])"
    by (simp add: join_response_ok_def pair_join_def token_join_def bootstrap_verify_message_def message_verify_def
        verify_variant_def second_approval_def trust_status_def section_signed_verify_def self_verify_def verify_signed_def
        token_crypto_simps list_chain_simps ok_or_def and_then_def)
  then show ?thesis
    by (simp add: join_run_def join_with_def request_with_key_def send_join_requests_def single_src_def new_signed_def ok_or_def
        and_then_def join_loop.simps receive_join_response_Cons is_join_response_def on_join_response_def section_new_def
        pair_join_def token_join_def second_approval_def second_node_def node_name_def token_crypto_simps list_chain_simps
        approved_section_def first_section_def Let_def)
qed

lemma pair_keypairs:
  "gen_keypair (token_crypto :: bls_public_key list crypto_ops) (jo_range_inclusive pair_join []) MIN_ADULT_AGE [nd_keypair second_node] =
     Some (nd_keypair second_node)"
  "gen_keypair (token_crypto :: bls_public_key list crypto_ops) (jo_range_inclusive pair_join []) 255 [nd_keypair first_node] =
     Some (nd_keypair first_node)"
  by (simp_all add: pair_join_def token_join_def second_node_def first_node_def token_crypto_simps last_byte_def MIN_ADULT_AGE_def MIN_AGE_def)

lemma pair_first: "routing_new_first pair_node [nd_keypair first_node] 10 (PkSet 1) (SkShare 0) = Some (Inr first_core)"
  using first_core_new pair_keypairs(2) by (simp add: routing_new_first_def pair_node_def pair_join_def del: gen_keypair.simps)

lemma pair_start:
  "\<exists>t0 t1. minimal_main pair_node token_transport pair_worlds pair_options = Some (Inr [t0, t1])"
proof -
  have second: "node_new (nd_keypair second_node) 30 = second_node" by (simp add: node_new_def second_node_def)
  have crypto: "kt_crypto (no_kit pair_node) = token_crypto" and join: "no_join pair_node = pair_join"
    by (simp_all add: pair_node_def)
  have ports: "local_port 0 (Some 65534) = Inr (Some 65534)" "local_port (Suc 0) (Some 65534) = Inr (Some 65535)"
    by (simp_all add: local_port_def u16_try_from_def u16_checked_add_def)
  show ?thesis
    using pair_keypairs pair_join_run pair_first second
    by (simp add: minimal_main_def start_multiple_nodes_def start_node_def node_config_def and_then_def pair_options_def
        ports config_default_def routing_new_def start_keypair_def start_first_def start_joining_def pair_worlds_def token_start_def crypto join
        comm_new_def comm_bootstrap_def token_transport_def our_connection_info_def upt_rec del: gen_keypair.simps)
qed

theorem minimal_main_starts_witness:
  "\<exists>t0 t1. minimal_main pair_node token_transport pair_worlds pair_options = Some (Inr [t0, t1]) \<and>
     tc_local_port (cf_transport_config (nt_config t1)) \<noteq> None \<and> \<not> cf_first (nt_config t1) \<and>
     node_reachable pair_node \<lparr>sy_core = dp_core (nt_node t1), sy_commands = nt_commands t1, sy_relocations = []\<rparr>"
proof -
  obtain t0 t1 where start: "minimal_main pair_node token_transport pair_worlds pair_options = Some (Inr [t0, t1])"
    using pair_start by blast
  have "share_of_set (kt_crypto (no_kit pair_node)) (fst (sw_key_set (pair_worlds i))) (snd (sw_key_set (pair_worlds i)))" for i
    by (simp add: pair_node_def pair_worlds_def token_start_def share_of_set_def token_crypto_simps)
  from minimal_main_starts [OF start this] start show ?thesis
    by (auto simp: task_for_def pair_options_def dest!: spec [of _ "Suc 0"])
qed

text \<open>C30. A node never asks to be restarted: among the events of a running node there is no
  \<open>RestartRequired\<close>, whatever happens to its connections. The example program, which ends a node only on
  that event, prints every event of the node and ends none.\<close>

theorem restart_never_required:
  assumes "node_laws N" and "node_reachable N S"
  shows "RestartRequired \<notin> set (co_events (sy_core S)) \<and>
    (\<exists>lines. run_node index names (event_stream_new (co_events (sy_core S))) = (lines, event_stream_new []) \<and>
      length lines = length (co_events (sy_core S)))"
  using node_reachable_inv [OF assms] run_node_all by (simp add: system_inv_def announcements_def)

theorem restart_never_required_witness:
  "\<exists>line. run_node 0 (\<lambda>_. 255) (event_stream_new (co_events first_core)) = ([line], event_stream_new [])"
  using restart_never_required [OF token_node_laws first_reachable, of 0 "\<lambda>_. 255"]
  by (auto simp: first_system_def first_core_def send_event_def core_new_def length_Suc_conv)

end
