(* ===== verification/Stress_Run.thy ===== *)
theory Stress_Run
  imports Stress_Network Network_Stats Minimal_Node
begin

text \<open>
  The stress test of \<open>examples/stress.rs\<close> as a whole: the checks of \<open>main\<close>, its loop over the
  events of nodes, the churn and the probes, the task that starts a node, and the status report
  with its percentages. One turn of the loop takes the branch that is ready first; the
  sequence of the branches, the clock readings and the random draws are arguments.
\<close>

section \<open>Starting a node\<close>

definition stress_config :: "transport_ops \<Rightarrow> bool \<Rightarrow> socket_addr list \<Rightarrow> config" where
  "stress_config T first bootstrap_addrs =
     (config_default T)\<lparr>cf_first := first,
        cf_transport_config := (tp_default T)\<lparr>tc_hard_coded_contacts := set bootstrap_addrs, tc_local_ip := Some LOCALHOST\<rparr>\<rparr>"

text \<open>\<open>answers\<close> is the name, age and prefix of the node when the success is handled, \<open>events\<close> what
  its stream yields; \<open>None\<close> while the start has not returned.\<close>

definition add_node ::
  "('c, 'a, 'd) node_ops \<Rightarrow> transport_ops \<Rightarrow> 'c start_world \<Rightarrow> u64 \<Rightarrow> config \<Rightarrow> xor_name \<times> u8 \<times> pfx \<Rightarrow> event list
    \<Rightarrow> stress_event list option" where
  "add_node N T w nid config answers events =
     map_option (\<lambda>result.
         case result of
           Inl _ \<Rightarrow> [JoinFailure nid]
         | Inr (node, _) \<Rightarrow>
             (case answers of (name, age, p) \<Rightarrow> JoinSuccess nid (our_connection_info (dp_comm node)) name age p) #
             map (NodeEvent nid) events)
       (startup_result (routing_new N T w config))"

section \<open>The report\<close>

definition percent :: "(rat \<Rightarrow> rat) \<Rightarrow> nat \<Rightarrow> nat \<Rightarrow> rat" where
  "percent fl num den = (if den > 0 then fl (fl (100 * fl (of_nat num)) / fl (of_nat den)) else 0)"

datatype color = Green | Yellow | Red | Blue | Magenta

record theme =
  th_label :: color
  th_value :: color
  th_error :: color

definition theme_default :: theme where
  "theme_default = \<lparr>th_label = Magenta, th_value = Blue, th_error = Red\<rparr>"

definition theme_health :: "rat \<Rightarrow> color" where
  "theme_health health = (if health > 80 then Green else if health > 50 then Yellow else Red)"

definition section_health :: "(rat \<Rightarrow> rat) \<Rightarrow> xor_ops \<Rightarrow> 'a stress_network \<Rightarrow> (pfx \<times> color \<times> rat) list" where
  "section_health fl X net =
     map (\<lambda>(p, delivered, sent). (p, theme_health (percent fl delivered sent), percent fl delivered sent))
       (filter (\<lambda>(p, _). p \<in> set (map fst (su_sections (print_status X net)))) (tracker_status (sn_probe_tracker net)))"

record report =
  re_status :: status
  re_stats :: stats
  re_section_health :: "(pfx \<times> color \<times> rat) list"
  re_join_successes :: rat
  re_join_failures :: rat
  re_failure_style :: color
  re_relocation_successes :: rat

definition make_report :: "(rat \<Rightarrow> rat) \<Rightarrow> xor_ops \<Rightarrow> 'a stress_network \<Rightarrow> report" where
  "make_report fl X net =
     (let st = sn_stats net
      in \<lparr>re_status = print_status X net, re_stats = st, re_section_health = section_health fl X net,
          re_join_successes = percent fl (ss_join_successes st) (ss_join_attempts st),
          re_join_failures = percent fl (ss_join_failures st) (ss_join_attempts st),
          re_failure_style = (if ss_join_failures st = 0 then th_value theme_default else th_error theme_default),
          re_relocation_successes = percent fl (ss_relocation_successes st) (ss_relocation_attempts st)\<rparr>)"

text \<open>In nanoseconds.\<close>

definition MIN_PRINT_DELAY :: nat where
  "MIN_PRINT_DELAY = 500 * 1000000"

text \<open>The network with the time of the last print and what was printed when.\<close>

record 'a stress_run =
  sr_network :: "'a stress_network"
  sr_print_time :: int
  sr_prints :: "(int \<times> report) list"

definition try_print_status :: "(rat \<Rightarrow> rat) \<Rightarrow> xor_ops \<Rightarrow> int \<Rightarrow> 'a stress_run \<Rightarrow> 'a stress_run" where
  "try_print_status fl X now r =
     (if now - sr_print_time r > int MIN_PRINT_DELAY
      then r\<lparr>sr_print_time := now, sr_prints := sr_prints r @ [(now, make_report fl X (sr_network r))]\<rparr>
      else r)"

section \<open>The loop of main\<close>

datatype branch = FromNodes "stress_event option" | FromChurn "churn_event option" | ProbeTick

record turn_inputs =
  ti_now :: int
  ti_nows :: "nat \<Rightarrow> nat"
  ti_clock :: clock
  ti_clocks :: "nat \<Rightarrow> clock"
  ti_current :: "xor_name \<times> u8"
  ti_index :: nat
  ti_probe :: "u64 \<Rightarrow> xor_name \<Rightarrow> probe_error + bool"
  ti_draws :: "nat \<Rightarrow> xor_name"

datatype stress_failure = EventFailed stress_error | ProbesFailed probe_error

datatype 'a turn = Running "'a stress_run" | Finished "'a stress_run" | FailedRun stress_failure | TooManyNodes | Unreachable

definition stress_turn ::
  "(rat \<Rightarrow> rat) \<Rightarrow> xor_ops \<Rightarrow> 'a aggregator_ops \<Rightarrow> (bytes \<Rightarrow> signed_share option) \<Rightarrow> turn_inputs \<Rightarrow> branch \<Rightarrow> 'a stress_run \<Rightarrow> 'a turn" where
  "stress_turn fl X A decode ti br r =
     (let net = sr_network r;
          printed = (\<lambda>net'. Running (try_print_status fl X (ti_now ti) (r\<lparr>sr_network := net'\<rparr>)))
      in case br of
           FromNodes None \<Rightarrow> Finished r
         | FromNodes (Some event) \<Rightarrow>
             (case stress_handle_event A decode (ti_nows ti) (ti_clock ti) (ti_current ti) event net of
                (Inl e, _) \<Rightarrow> FailedRun (EventFailed e)
              | (Inr _, net') \<Rightarrow> printed net')
         | FromChurn (Some ChurnJoin) \<Rightarrow>
             (case create_node net of None \<Rightarrow> TooManyNodes | Some (_, net') \<Rightarrow> printed net')
         | FromChurn (Some ChurnDrop) \<Rightarrow>
             if joined_members net = [] then Running r else printed (remove_random_node (ti_index ti) net)
         | FromChurn None \<Rightarrow> Unreachable
         | ProbeTick \<Rightarrow>
             (case send_probes X A (ti_probe ti) (ti_nows ti) (ti_clocks ti) (ti_draws ti) net of
                (Inl e, _) \<Rightarrow> FailedRun (ProbesFailed e)
              | (Inr _, net') \<Rightarrow> printed net'))"

fun stress_loop ::
  "(rat \<Rightarrow> rat) \<Rightarrow> xor_ops \<Rightarrow> 'a aggregator_ops \<Rightarrow> (bytes \<Rightarrow> signed_share option) \<Rightarrow> (turn_inputs \<times> branch) list \<Rightarrow> 'a stress_run \<Rightarrow> 'a turn" where
  "stress_loop fl X A decode [] r = Running r"
| "stress_loop fl X A decode ((ti, br) # turns) r =
     (case stress_turn fl X A decode ti br r of
        Running r' \<Rightarrow> stress_loop fl X A decode turns r'
      | result \<Rightarrow> result)"

record stress_options =
  so_probe_frequency :: rat
  so_schedule :: "string list"

datatype 'e main_error = NoSchedule | BadProbeFrequency | ParseFailed 'e | ScheduleOverflow

text \<open>The parsed schedule and the state in which the loop starts: the network is made
  at the time \<open>now0\<close> and the genesis node at \<open>now1\<close>. \<open>ScheduleOverflow\<close> is the panic on a duration;
  the frequency is a finite number.\<close>

definition stress_start ::
  "'e parse_ops \<Rightarrow> (rat \<Rightarrow> rat) \<Rightarrow> xor_ops \<Rightarrow> int \<Rightarrow> int \<Rightarrow> stress_options \<Rightarrow> 'e main_error + churn_period list \<times> 'a turn" where
  "stress_start P fl X now0 now1 opts =
     (if so_schedule opts = [] then Inl NoSchedule
      else if so_probe_frequency opts \<le> 0 then Inl BadProbeFrequency
      else case schedule_parse P (so_schedule opts) of
             None \<Rightarrow> Inl ScheduleOverflow
           | Some (Inl e) \<Rightarrow> Inl (ParseFailed e)
           | Some (Inr schedule) \<Rightarrow>
               Inr (schedule,
                 case create_node stress_network_new of
                   None \<Rightarrow> TooManyNodes
                 | Some (_, net) \<Rightarrow>
                     Running (try_print_status fl X now1 \<lparr>sr_network = net, sr_print_time = now0 - int MIN_PRINT_DELAY, sr_prints = []\<rparr>)))"

definition stress_main ::
  "'e parse_ops \<Rightarrow> (rat \<Rightarrow> rat) \<Rightarrow> xor_ops \<Rightarrow> 'a aggregator_ops \<Rightarrow> (bytes \<Rightarrow> signed_share option) \<Rightarrow> int \<Rightarrow> int \<Rightarrow> (turn_inputs \<times> branch) list
    \<Rightarrow> stress_options \<Rightarrow> 'e main_error + 'a turn" where
  "stress_main P fl X A decode now0 now1 turns opts =
     and_then (stress_start P fl X now0 now1 opts) (\<lambda>(_, start).
     Inr (case start of Running r \<Rightarrow> stress_loop fl X A decode turns r | result \<Rightarrow> result))"

section \<open>The loop takes steps of the network\<close>

text \<open>What the nodes report when: the outcome of a join while it is under way, and the events of
  a node in their order; and the draw of the node to remove is one of the members.\<close>

definition branch_expected :: "turn_inputs \<Rightarrow> branch \<Rightarrow> 'a stress_network \<Rightarrow> bool" where
  "branch_expected ti br net \<longleftrightarrow>
     (case br of
        FromNodes (Some (JoinSuccess nid _ _ _ _)) \<Rightarrow> bt_get (sn_nodes net) nid = Some NodeJoining
      | FromNodes (Some (JoinFailure nid)) \<Rightarrow> bt_get (sn_nodes net) nid = Some NodeJoining
      | FromNodes (Some (NodeEvent nid event)) \<Rightarrow> event_expected nid event net
      | FromChurn (Some ChurnDrop) \<Rightarrow> joined_members net = [] \<or> ti_index ti < length (joined_members net)
      | _ \<Rightarrow> True)"

fun turns_expected ::
  "(rat \<Rightarrow> rat) \<Rightarrow> xor_ops \<Rightarrow> 'a aggregator_ops \<Rightarrow> (bytes \<Rightarrow> signed_share option) \<Rightarrow> (turn_inputs \<times> branch) list \<Rightarrow> 'a stress_run \<Rightarrow> bool" where
  "turns_expected fl X A decode [] r = True"
| "turns_expected fl X A decode ((ti, br) # turns) r =
     (branch_expected ti br (sr_network r) \<and>
      (case stress_turn fl X A decode ti br r of Running r' \<Rightarrow> turns_expected fl X A decode turns r' | _ \<Rightarrow> True))"

lemma try_print_network [simp]: "sr_network (try_print_status fl X now r) = sr_network r"
  by (simp add: try_print_status_def)

lemma stress_turn_result:
  assumes "stress_turn fl X A decode ti br r = Running r'" "branch_expected ti br (sr_network r)"
  shows "r' = r \<or> (\<exists>net'. stress_step X A (sr_network r) net' \<and> r' = try_print_status fl X (ti_now ti) (r\<lparr>sr_network := net'\<rparr>))"
proof (cases br)
  case (FromNodes ev)
  then obtain event net' where ev: "ev = Some event"
    and handled: "stress_handle_event A decode (ti_nows ti) (ti_clock ti) (ti_current ti) event (sr_network r) = (Inr (), net')"
    and r': "r' = try_print_status fl X (ti_now ti) (r\<lparr>sr_network := net'\<rparr>)"
    using assms(1) by (auto simp: stress_turn_def Let_def split: option.splits prod.splits sum.splits)
  have "stress_step X A (sr_network r) (snd (stress_handle_event A decode (ti_nows ti) (ti_clock ti) (ti_current ti) event (sr_network r)))"
    using assms(2) FromNodes ev
    by (cases event) (auto simp: branch_expected_def intro: join_success join_failure node_event)
  then show ?thesis using handled r' by auto
next
  case (FromChurn ev)
  then show ?thesis
    using assms
    by (auto simp: stress_turn_def branch_expected_def Let_def split: option.splits churn_event.splits if_splits
        intro: churn_join churn_drop)
next
  case ProbeTick
  then obtain net' where sent: "send_probes X A (ti_probe ti) (ti_nows ti) (ti_clocks ti) (ti_draws ti) (sr_network r) = (Inr (), net')"
    and r': "r' = try_print_status fl X (ti_now ti) (r\<lparr>sr_network := net'\<rparr>)"
    using assms(1) by (auto simp: stress_turn_def Let_def split: prod.splits sum.splits)
  have "stress_step X A (sr_network r) (snd (send_probes X A (ti_probe ti) (ti_nows ti) (ti_clocks ti) (ti_draws ti) (sr_network r)))"
    by (rule probes)
  then show ?thesis using sent r' by auto
qed

text \<open>Every report is about a state of the run, and follows the previous one after the delay.\<close>

definition run_inv :: "(rat \<Rightarrow> rat) \<Rightarrow> xor_ops \<Rightarrow> 'a aggregator_ops \<Rightarrow> 'a stress_run \<Rightarrow> bool" where
  "run_inv fl X A r \<longleftrightarrow>
     (stress_step X A)\<^sup>*\<^sup>* stress_network_new (sr_network r) \<and>
     sorted_wrt (\<lambda>a b. fst b - fst a > int MIN_PRINT_DELAY) (sr_prints r) \<and>
     (\<forall>(time, rep) \<in> set (sr_prints r). time \<le> sr_print_time r \<and>
        (\<exists>net. (stress_step X A)\<^sup>*\<^sup>* (stress_network_new :: 'a stress_network) net \<and> rep = make_report fl X net))"

lemma try_print_inv: "run_inv fl X A r \<Longrightarrow> run_inv fl X A (try_print_status fl X now r)"
  by (fastforce simp: run_inv_def try_print_status_def sorted_wrt_append)

lemma run_inv_step:
  "run_inv fl X A r \<Longrightarrow> stress_step X A (sr_network r) net' \<Longrightarrow> run_inv fl X A (r\<lparr>sr_network := net'\<rparr>)"
  by (auto simp: run_inv_def intro: rtranclp.rtrancl_into_rtrancl)

lemma stress_turn_inv:
  "stress_turn fl X A decode ti br r = Running r' \<Longrightarrow> branch_expected ti br (sr_network r) \<Longrightarrow> run_inv fl X A r \<Longrightarrow> run_inv fl X A r'"
  using stress_turn_result [of fl X A decode ti br r r'] try_print_inv run_inv_step by metis

lemma stress_loop_inv:
  "stress_loop fl X A decode turns r = result \<Longrightarrow> result = Running r' \<or> result = Finished r' \<Longrightarrow>
    turns_expected fl X A decode turns r \<Longrightarrow> run_inv fl X A r \<Longrightarrow> run_inv fl X A r'"
proof (induction turns arbitrary: r)
  case (Cons turn turns)
  obtain ti br where turn: "turn = (ti, br)" by (cases turn)
  show ?case
  proof (cases "stress_turn fl X A decode ti br r")
    case (Running r1)
    then show ?thesis using Cons turn stress_turn_inv [OF Running] by simp
  next
    case (Finished r1)
    then have "r1 = r" by (auto simp: stress_turn_def Let_def split: branch.splits option.splits sum.splits prod.splits churn_event.splits if_splits)
    then show ?thesis using Cons.prems turn Finished by auto
  qed (use Cons.prems turn in auto)
qed auto

lemma stress_start_inv:
  assumes "stress_start P fl X now0 now1 opts = Inr (schedule, Running r)"
  shows "run_inv fl X A r"
proof -
  obtain c net where net: "create_node stress_network_new = Some (c, net)"
    and r: "r = try_print_status fl X now1 \<lparr>sr_network = net, sr_print_time = now0 - int MIN_PRINT_DELAY, sr_prints = []\<rparr>"
    using assms by (auto simp: stress_start_def split: if_splits option.splits sum.splits)
  have "stress_step X A stress_network_new net" by (rule churn_join [OF net])
  then show ?thesis unfolding r by (intro try_print_inv) (auto simp: run_inv_def)
qed

section \<open>Percentages\<close>

lemma percent_spec:
  assumes "f64_rounding fl" "num \<le> den" "den \<le> 2 ^ 46"
  shows "0 \<le> percent fl num den \<and> percent fl num den \<le> 100 \<and> (percent fl num den = 100 \<longleftrightarrow> 0 < den \<and> num = den)"
proof (cases "den = 0")
  case False
  note fl = f64_roundingD [OF assms(1)]
  have exact: "fl (of_nat num) = of_nat num" "fl (of_nat den) = of_nat den" using fl(3) assms(2,3) by auto
  have "100 * num \<le> 2 ^ 53" using assms(2,3) by simp
  then have "fl (100 * of_nat num) = 100 * of_nat num" using fl(3) [of "100 * num"] by simp
  then have percent: "percent fl num den = fl (100 * of_nat num / of_nat den)" using False exact by (simp add: percent_def)
  have fixed: "fl 0 = 0" "fl 100 = 100" using fl(3) [of 0] fl(3) [of 100] by simp_all
  have upper: "100 * of_nat num / (of_nat den :: rat) \<le> 100" using assms(2) False by (simp add: divide_le_eq)
  show ?thesis
  proof (cases "num = den")
    case True
    then show ?thesis using False percent fixed by simp
  next
    case less: False
    let ?below = "of_nat (100 * 2 ^ 46 - 1) / 2 ^ 46 :: rat"
    have "of_nat num + 1 \<le> (of_nat den :: rat)" using less assms(2) by (metis Suc_leI le_neq_implies_less of_nat_Suc of_nat_le_iff add.commute)
    moreover have "(of_nat den :: rat) \<le> 2 ^ 46" using assms(3) by (metis of_nat_le_iff of_nat_numeral of_nat_power)
    ultimately have "100 * of_nat num / (of_nat den :: rat) \<le> ?below"
      using False by (simp add: divide_le_eq field_simps)
    then have "percent fl num den \<le> ?below" using fl(1) fl(2) [of "100 * 2 ^ 46 - 1" 46] percent by fastforce
    moreover have "?below < 100" by simp
    moreover have "0 \<le> percent fl num den" using fl(1) [of 0 "100 * of_nat num / of_nat den"] fixed percent by simp
    ultimately show ?thesis using less by auto
  qed
qed (use assms in \<open>simp add: percent_def\<close>)

lemma section_health_spec:
  assumes "f64_rounding fl" "list_all (\<lambda>(_, _, sent). sent \<le> 2 ^ 46) (tracker_status (sn_probe_tracker net))"
  shows "list_all (\<lambda>(_, _, health). 0 \<le> health \<and> health \<le> 100) (section_health fl X net)"
proof -
  have health: "0 \<le> percent fl delivered sent \<and> percent fl delivered sent \<le> 100"
    if "(p, delivered, sent) \<in> set (tracker_status (sn_probe_tracker net))" for p delivered sent
  proof -
    have "delivered \<le> sent" using that by (auto simp: tracker_status_def cache_count_def cache_len_def)
    moreover have "sent \<le> 2 ^ 46" using that assms(2) unfolding list_all_iff by fast
    ultimately show ?thesis using percent_spec [OF assms(1)] by blast
  qed
  show ?thesis unfolding list_all_iff section_health_def by (auto dest: health)
qed

section \<open>Who starts a network\<close>

definition reports_join :: "branch \<Rightarrow> bool" where
  "reports_join br \<longleftrightarrow> (case br of FromNodes (Some (JoinSuccess _ _ _ _ _)) \<Rightarrow> True | _ \<Rightarrow> False)"

lemma node_event_successes:
  "ss_join_successes (sn_stats (snd (handle_node_event A decode nows t current nid event net))) = ss_join_successes (sn_stats net)"
  by (cases event)
    (auto simp: handle_node_event_def update_joined_def count_change_def Let_def
      split: option.split stress_node.split node_elder_change.split dst_location.split)

lemma stress_turn_successes:
  assumes "stress_turn fl X A decode ti br r = Running r'"
  shows "ss_join_successes (sn_stats (sr_network r')) = ss_join_successes (sn_stats (sr_network r)) + (if reports_join br then 1 else 0)"
proof (cases br)
  case (FromNodes ev)
  then obtain event net' where ev: "ev = Some event"
    and handled: "stress_handle_event A decode (ti_nows ti) (ti_clock ti) (ti_current ti) event (sr_network r) = (Inr (), net')"
    and "sr_network r' = net'"
    using assms by (auto simp: stress_turn_def Let_def split: option.splits prod.splits sum.splits)
  then show ?thesis
    using FromNodes node_event_successes [of A decode "ti_nows ti" "ti_clock ti" "ti_current ti" _ _ "sr_network r"]
    by (cases event) (auto simp: reports_join_def stress_handle_event_def, metis snd_conv)
next
  case (FromChurn ev)
  then show ?thesis
    using assms
    by (auto simp: stress_turn_def reports_join_def create_node_def new_node_id_def remove_random_node_def Let_def
        split: option.splits churn_event.splits if_splits)
next
  case ProbeTick
  then show ?thesis
    using assms by (auto simp: stress_turn_def reports_join_def send_probes_def Let_def split: prod.splits sum.splits)
qed

lemma stress_loop_successes:
  "stress_loop fl X A decode turns r = Running r' \<Longrightarrow>
    ss_join_successes (sn_stats (sr_network r')) =
      ss_join_successes (sn_stats (sr_network r)) + length (filter (\<lambda>(_, br). reports_join br) turns)"
proof (induction turns arbitrary: r)
  case (Cons turn turns)
  obtain ti br where turn: "turn = (ti, br)" by (cases turn)
  then obtain r1 where first: "stress_turn fl X A decode ti br r = Running r1" and "stress_loop fl X A decode turns r1 = Running r'"
    using Cons.prems by (cases "stress_turn fl X A decode ti br r") auto
  then show ?case using Cons.IH stress_turn_successes [OF first] turn by simp
qed simp

lemma joined_members_length: "length (joined_members net) = count_nodes node_joined (sn_nodes net)"
proof -
  have "length (List.map_filter (\<lambda>(nid, node). case node of NodeJoined m \<Rightarrow> Some (nid, m) | NodeJoining \<Rightarrow> None) m) = count_nodes node_joined m"
    for m :: "(u64, stress_node) btree_map"
    by (induction m) (auto simp: map_filter_simps count_nodes_def split: stress_node.split)
  then show ?thesis by (simp add: joined_members_def)
qed

text \<open>The contact is the oldest member.\<close>

lemma get_bootstrap_addrs_spec:
  "joined_members net = [] \<and> get_bootstrap_addrs net = [] \<or>
   (\<exists>m \<in> set (map snd (joined_members net)). get_bootstrap_addrs net = [mb_addr m] \<and>
      (\<forall>m' \<in> set (map snd (joined_members net)). mb_age m' \<le> mb_age m))"
proof (cases "sort_by (\<lambda>lhs rhs. ord_cmp (mb_age rhs) (mb_age lhs)) (map snd (joined_members net))")
  case Nil
  then have "joined_members net = []" by (metis length_sort_by length_map length_0_conv list.size(3))
  then show ?thesis by (simp add: get_bootstrap_addrs_def)
next
  case (Cons m ms)
  have members: "set (map snd (joined_members net)) = insert m (set ms)" using Cons by (metis set_sort_by list.simps(15))
  have "sorted_wrt (\<lambda>a b. ord_cmp (mb_age b) (mb_age a) \<noteq> Greater) (m # ms)"
    using total_cmp.sorted_sort_by [OF total_cmp_flip [OF total_cmp_key [OF ord.total_cmp_axioms, of mb_age]], of "map snd (joined_members net)"]
      Cons by simp
  then have "mb_age m' \<le> mb_age m" if "m' \<in> insert m (set ms)" for m'
    using that by (force simp: ord_cmp_def split: if_splits)
  moreover have "get_bootstrap_addrs net = [mb_addr m]" using Cons by (simp add: get_bootstrap_addrs_def)
  ultimately show ?thesis unfolding members by blast
qed

lemma create_node_spec:
  assumes "create_node net = Some ((nid, first, contacts), net')"
  shows "nid = sn_next_id net \<and> contacts = get_bootstrap_addrs net \<and> (first \<longleftrightarrow> joined_members net = []) \<and>
    sn_nodes net' = bt_insert nid NodeJoining (sn_nodes net)"
  using assms get_bootstrap_addrs_spec [of net]
  by (auto simp: create_node_def new_node_id_def Let_def split: if_splits)

section \<open>Properties\<close>

text \<open>C38. A run of the stress test reports consistent numbers. Whatever the nodes, the churn and
  the probes do, in each status report every attempt to join has succeeded,
  failed or is under way, every node that joined was dropped or is still counted, in total and by
  age, and every started relocation has ended or is under way; and two reports are more than
  \<open>MIN_PRINT_DELAY\<close> apart.\<close>

theorem stress_main_consistent:
  assumes "stress_main P fl X A decode now0 now1 turns opts = Inr (Running r)"
    and "stress_start P fl X now0 now1 opts = Inr (schedule, Running r0)" and "turns_expected fl X A decode turns r0"
  shows "sorted_wrt (\<lambda>a b. fst b - fst a > int MIN_PRINT_DELAY) (sr_prints r) \<and>
    list_all (\<lambda>(_, rep).
      ss_join_attempts (re_stats rep) =
        ss_join_successes (re_stats rep) + ss_join_failures (re_stats rep) + su_joining (re_status rep) \<and>
      ss_join_successes (re_stats rep) = ss_drops (re_stats rep) + su_active (re_status rep) + su_relocating (re_status rep) \<and>
      ss_relocation_attempts (re_stats rep) = ss_relocation_successes (re_stats rep) + su_relocating (re_status rep) \<and>
      sum_list (su_ages (re_status rep)) = su_active (re_status rep) + su_relocating (re_status rep)) (sr_prints r)"
proof -
  have "stress_loop fl X A decode turns r0 = Running r" using assms(1,2) by (simp add: stress_main_def and_then_def)
  then have inv: "run_inv fl X A r" using stress_loop_inv [OF _ _ assms(3) stress_start_inv [OF assms(2)]] by blast
  have balanced: "ss_join_attempts (re_stats rep) =
        ss_join_successes (re_stats rep) + ss_join_failures (re_stats rep) + su_joining (re_status rep) \<and>
      ss_join_successes (re_stats rep) = ss_drops (re_stats rep) + su_active (re_status rep) + su_relocating (re_status rep) \<and>
      ss_relocation_attempts (re_stats rep) = ss_relocation_successes (re_stats rep) + su_relocating (re_status rep) \<and>
      sum_list (su_ages (re_status rep)) = su_active (re_status rep) + su_relocating (re_status rep)"
    if printed: "(time, rep) \<in> set (sr_prints r)" for time rep
  proof -
    obtain net where "(stress_step X A)\<^sup>*\<^sup>* stress_network_new net" "rep = make_report fl X net"
      using inv printed unfolding run_inv_def by blast
    then show ?thesis using stress_books_balance [of X A net] by (simp add: make_report_def Let_def)
  qed
  have "sorted_wrt (\<lambda>a b. fst b - fst a > int MIN_PRINT_DELAY) (sr_prints r)" using inv unfolding run_inv_def by blast
  then show ?thesis unfolding list_all_iff using balanced by fast
qed

text \<open>A run in which the genesis node reports its success.\<close>

definition token_parse :: "unit parse_ops" where
  "token_parse = \<lparr>parse_duration = (\<lambda>_. Some (Inr 1)), parse_usize = (\<lambda>_. Inr 1)\<rparr>"

definition token_options :: stress_options where
  "token_options = \<lparr>so_probe_frequency = 1, so_schedule = [''10'', ''1'', ''1'']\<rparr>"

definition token_turn :: "int \<Rightarrow> turn_inputs" where
  "token_turn now = \<lparr>ti_now = now, ti_nows = (\<lambda>_. 0), ti_clock = token_clock, ti_clocks = (\<lambda>_. token_clock), ti_current = (255, 255),
     ti_index = 0, ti_probe = (\<lambda>_ _. Inr False), ti_draws = (\<lambda>_. 0)\<rparr>"

definition token_network :: "unit stress_network" where
  "token_network = stress_network_new\<lparr>sn_next_id := 1, sn_nodes := [(0, NodeJoining)],
     sn_stats := (sn_stats (stress_network_new :: unit stress_network))\<lparr>ss_join_attempts := 1\<rparr>\<rparr>"

definition token_run :: "unit stress_run" where
  "token_run = \<lparr>sr_network = token_network, sr_print_time = 1, sr_prints = [(1, make_report (\<lambda>x. x) bit_ops token_network)]\<rparr>"

lemma token_start_run:
  "stress_start token_parse (\<lambda>x. x) bit_ops 0 1 token_options = Inr ([\<lparr>cp_duration = 1, cp_joins = 1, cp_drops = 1\<rparr>], Running token_run)"
proof -
  have "create_node (stress_network_new :: unit stress_network) = Some ((0, True, []), token_network)"
    by (simp add: create_node_def new_node_id_def get_bootstrap_addrs_def joined_members_def stress_network_new_def token_network_def
        map_filter_def)
  then show ?thesis
    by (simp add: stress_start_def token_options_def token_parse_def schedule_parse_def parse_period_def chunk_usize_def and_then_def
        try_print_status_def token_run_def)
qed

theorem stress_main_consistent_witness:
  "\<exists>r :: unit stress_run. stress_main token_parse (\<lambda>x. x) bit_ops token_aggregator (\<lambda>_. None) 0 1
      [(token_turn 1000000000, FromNodes (Some (JoinSuccess 0 10 255 255 [])))] token_options = Inr (Running r) \<and>
     length (sr_prints r) = 2 \<and> fst (sr_prints r ! 1) - fst (sr_prints r ! 0) > int MIN_PRINT_DELAY"
proof -
  let ?turns = "[(token_turn 1000000000, FromNodes (Some (JoinSuccess 0 10 255 255 [])))]"
  let ?net = "snd (stress_handle_event token_aggregator (\<lambda>_. None) (\<lambda>_. 0) token_clock (255, 255) (JoinSuccess 0 10 255 255 []) token_network)"
  let ?r = "\<lparr>sr_network = ?net, sr_print_time = 1000000000, sr_prints = sr_prints token_run @ [(1000000000, make_report (\<lambda>x. x) bit_ops ?net)]\<rparr>"
  have turn: "stress_turn (\<lambda>x. x) bit_ops token_aggregator (\<lambda>_. None) (token_turn 1000000000)
      (FromNodes (Some (JoinSuccess 0 10 255 255 []))) token_run = Running ?r"
    by (simp add: stress_turn_def token_turn_def stress_handle_event_def try_print_status_def token_run_def MIN_PRINT_DELAY_def)
  then have main: "stress_main token_parse (\<lambda>x. x) bit_ops token_aggregator (\<lambda>_. None) 0 1 ?turns token_options = Inr (Running ?r)"
    by (simp add: stress_main_def token_start_run and_then_def)
  have "turns_expected (\<lambda>x. x) bit_ops token_aggregator (\<lambda>_. None) ?turns token_run"
    using turn by (simp add: branch_expected_def token_run_def token_network_def)
  from stress_main_consistent [OF main token_start_run this] main show ?thesis
    by (intro exI [of _ ?r]) (simp add: token_run_def)
qed

text \<open>The percentages of a report are what they claim to be. With at most \<open>2 ^ 46\<close> nodes and
  probes, rounding never takes a percentage out of the range from 0 to 100, and the share of successful joins
  is reported as 100 only when every attempt succeeded.\<close>

theorem stress_percentages:
  assumes "f64_rounding fl" and "(stress_step X A)\<^sup>*\<^sup>* stress_network_new net"
    and "ss_join_attempts (sn_stats net) \<le> 2 ^ 46" and "ss_relocation_attempts (sn_stats net) \<le> 2 ^ 46"
    and "list_all (\<lambda>(_, _, sent). sent \<le> 2 ^ 46) (tracker_status (sn_probe_tracker net))"
  shows "list_all (\<lambda>p. 0 \<le> p \<and> p \<le> 100)
      [re_join_successes (make_report fl X net), re_join_failures (make_report fl X net), re_relocation_successes (make_report fl X net)] \<and>
    list_all (\<lambda>(_, _, health). 0 \<le> health \<and> health \<le> 100) (re_section_health (make_report fl X net)) \<and>
    (re_join_successes (make_report fl X net) = 100 \<longleftrightarrow>
      0 < ss_join_attempts (sn_stats net) \<and> ss_join_successes (sn_stats net) = ss_join_attempts (sn_stats net))"
  using stress_books_balance [OF assms(2)] assms section_health_spec [OF assms(1,5)] percent_spec [OF assms(1)]
  by (simp add: make_report_def Let_def)

theorem stress_percentages_witness:
  "re_join_successes (make_report (\<lambda>x. x) bit_ops token_members) = 100"
  using stress_percentages [of "\<lambda>x. x" bit_ops token_aggregator token_members] token_members_reached
  by (simp add: f64_rounding_def mono_def token_members_def stress_network_new_def tracker_status_def)

text \<open>C39. When the stress test starts a network. Along every run of its loop in which the nodes report in order, a
  churn event starts a node under a fresh identifier. The node is started as a genesis node, without contacts, exactly when
  as many nodes were dropped as have reported that they joined, and otherwise with the
  oldest member as its contact. So every node that is started before the first report of a success
  starts a network of its own, and so does the next one after all members were dropped.\<close>

theorem genesis_start_iff:
  assumes "stress_start P fl X now0 now1 opts = Inr (schedule, Running r0)" and "turns_expected fl X A decode turns r0"
    and "stress_loop fl X A decode turns r0 = Running r"
    and "stress_turn fl X A decode ti (FromChurn (Some ChurnJoin)) r = Running r'"
  shows "\<exists>nid first contacts. create_node (sr_network r) = Some ((nid, first, contacts), sr_network r') \<and>
    bt_get (sn_nodes (sr_network r)) nid = None \<and> bt_get (sn_nodes (sr_network r')) nid = Some NodeJoining \<and>
    (first \<longleftrightarrow> length (filter (\<lambda>(_, br). reports_join br) turns) = ss_drops (sn_stats (sr_network r))) \<and>
    (if first then contacts = []
     else \<exists>m \<in> set (map snd (joined_members (sr_network r))). contacts = [mb_addr m] \<and>
       (\<forall>m' \<in> set (map snd (joined_members (sr_network r))). mb_age m' \<le> mb_age m)) \<and>
    (list_all (\<lambda>(_, br). \<not> reports_join br) turns \<longrightarrow> first)"
proof -
  let ?net = "sr_network r"
  have "(stress_step X A)\<^sup>*\<^sup>* stress_network_new ?net"
    using stress_loop_inv [OF assms(3) _ assms(2) stress_start_inv [OF assms(1)]] by (simp add: run_inv_def)
  then have inv: "stress_inv ?net" by (induction rule: rtranclp_induct) (auto intro: stress_new_inv stress_step_inv)
  have "ss_join_successes (sn_stats (sr_network r0)) = 0"
    using assms(1)
    by (auto simp: stress_start_def create_node_def new_node_id_def stress_network_new_def Let_def split: if_splits option.splits sum.splits)
  then have joined: "length (filter (\<lambda>(_, br). reports_join br) turns) = ss_drops (sn_stats ?net) + length (joined_members ?net)"
    using stress_loop_successes [OF assms(3)] inv by (simp add: joined_members_length stress_inv_def)
  obtain nid first contacts where created: "create_node ?net = Some ((nid, first, contacts), sr_network r')"
    using assms(4) by (auto simp: stress_turn_def Let_def split: option.splits)
  note spec = create_node_spec [OF created]
  have "bt_inv (sn_nodes ?net)" "nid \<notin> set (bt_keys (sn_nodes ?net))" using inv spec by (auto simp: stress_inv_def)
  then have "bt_get (sn_nodes ?net) nid = None" "bt_get (sn_nodes (sr_network r')) nid = Some NodeJoining"
    using spec by (simp_all add: map_of_eq_None_iff)
  moreover have "list_all (\<lambda>(_, br). \<not> reports_join br) turns \<Longrightarrow> length (filter (\<lambda>(_, br). reports_join br) turns) = 0"
    by (auto simp: list_all_iff filter_empty_conv)
  ultimately show ?thesis
    using created spec joined get_bootstrap_addrs_spec [of ?net]
    by (intro exI [of _ nid] exI [of _ first] exI [of _ contacts]) auto
qed

theorem genesis_start_iff_witness:
  "\<exists>net. create_node token_network = Some ((1, True, []), net) \<and>
     bt_get (sn_nodes net) 0 = Some NodeJoining \<and> bt_get (sn_nodes net) 1 = Some NodeJoining"
proof -
  have "sn_next_id token_network \<noteq> - 1" by (simp add: token_network_def)
  then obtain c net where "create_node token_network = Some (c, net)" by (auto simp: create_node_def new_node_id_def Let_def)
  then obtain r' where turn: "stress_turn (\<lambda>x. x) bit_ops token_aggregator (\<lambda>_. None) (token_turn 2) (FromChurn (Some ChurnJoin)) token_run = Running r'"
    by (simp add: stress_turn_def token_run_def)
  from genesis_start_iff [OF token_start_run _ _ turn, of "[]"] obtain nid first contacts where
    created: "create_node token_network = Some ((nid, first, contacts), sr_network r')" and "first" "contacts = []"
    by (auto simp: token_run_def)
  then show ?thesis using create_node_spec [OF created] by (auto simp: token_network_def)
qed

end
