(* ===== verification/Spec2Isabelle.thy ===== *)
theory Spec2Isabelle
  imports Dkg_Voter Relocation Routing_Messages Section_Sync Section_Trust Debug_Output Stress_Run
begin

text \<open>
  A verification library for the routing layer of a sharded peer to peer network: the crate
  \<open>sn_routing\<close> under \<open>src/src\<close>, with the programs \<open>src/examples/stress.rs\<close> and
  \<open>src/examples/minimal.rs\<close>.
  Paths below are relative to \<open>src/src\<close>.

  \<^bold>\<open>The program.\<close> Nodes have 256 bit names. A section is the set of nodes whose names
  match a prefix; a few of its members, the elders, hold shares of a section key and act for
  the section when a supermajority of them signs. A node joins by asking the elders, solving a
  resource proof and being proposed and agreed on; churn makes sections choose new
  elders, generate keys for them (DKG), relocate members to other sections, and split. A
  node is one state, \<open>Core\<close>, behind a lock. What arrives from the network becomes a command;
  the dispatcher executes a command on the core, which returns further commands,
  each spawned as a task of its own.

  \<^bold>\<open>The theories\<close>, from the bottom up.

  \<^item> \<open>Routing_Prelude\<close>: machine integers, \<open>Ordering\<close> and comparators, \<open>sort_by\<close>,
    \<open>BTreeMap\<close> as a sorted association list, \<open>Result\<close> as a sum type. \<open>Xor_Space\<close>: names and
    prefixes of the crate \<open>xor_name\<close>. \<open>Wire_Types\<close>: the messages of \<open>sn_messaging\<close>
    and the errors of \<open>error.rs\<close>. \<open>Stand_Ins\<close>: concrete functions for the parameters.
  \<^item> \<open>Quorum\<close> (\<open>lib.rs\<close>, the threshold of \<open>dkg/dkg_msgs_utils.rs\<close>): two supermajorities share
    an honest member, and agreement on a failed key generation excludes its success.
  \<^item> \<open>Item_Cache\<close> (\<open>cache/\<close>), \<open>Message_Filter\<close> (\<open>message_filter.rs\<close>), \<open>Prefix_Map\<close>
    (\<open>network/prefix_map.rs\<close>, which \<open>network/mod.rs\<close> comments out in favour of the map of
    \<open>sn_messaging\<close>), \<open>Bounded_Queue\<close> (\<open>VecDeque\<close> as a bounded history),
    \<open>End_Users\<close> (\<open>routing/enduser_registry.rs\<close>), \<open>Split_Barrier\<close>
    (\<open>routing/split_barrier.rs\<close>): the containers. The cache stays within its bound and drops the
    oldest, the filter is the abstract set of recently seen messages, the prefix map
    holds no entry that longer entries cover and finds the longest match, the barrier loses and invents
    nothing.
  \<^item> \<open>Peers_Nodes\<close> (\<open>peer.rs\<close>, \<open>node.rs\<close>, \<open>section/node_state.rs\<close>, \<open>ed25519.rs\<close>),
    \<open>Section_Authority\<close>, \<open>Section_Peers\<close>, \<open>Section_Keys\<close>, \<open>Section_State\<close> (\<open>section/\<close>),
    \<open>Network_Knowledge\<close>, \<open>Network_Stats\<close> (\<open>network/\<close>): what a node knows. Members
    move forward through their states whatever the order of updates, the best members become
    elders, a split divides the members, everything known is signed by a key of
    the chain, and the estimate of the size of the network is a bound. \<open>Section_Sync\<close>: what two elders
    that merge each other's section agree on.
  \<^item> \<open>Relocation\<close> (\<open>relocation.rs\<close>), \<open>Routing_Messages\<close> (\<open>messages/\<close>): who is relocated;
    creating, accumulating and verifying messages, with the round trip.
  \<^item> \<open>Dkg_Failures\<close>, \<open>Dkg_Session\<close>, \<open>Dkg_Voter\<close> (\<open>dkg/\<close>): the key generation sessions. A
    session announces an outcome at most once and none after it has concluded, its failure proofs verify when the votes blame the
    same participants, every call of the voter keeps its sessions sound, and early messages are replayed. For a
    key generator that answers only finitely many messages every call of the voter returns (\<open>voter_returns\<close>).
  \<^item> \<open>Commands\<close> (\<open>routing/command.rs\<close>, \<open>dkg/commands.rs\<close>, \<open>dkg/proposal.rs\<close>),
    \<open>Delivery_Group\<close>, \<open>Core_State\<close>, \<open>Core_Sending\<close>, \<open>Core_Decisions\<close>, \<open>Core_Update\<close>,
    \<open>Core_Agreement\<close>, \<open>Core_Handling\<close> (\<open>routing/core/\<close>): the core and all its handlers. The
    record \<open>core\<close> has the fields of the struct; what a node sends on its event channel is the
    list \<open>co_events\<close>. A handler is a function in the monad \<open>comp\<close>: it passes the state on
    also when it returns an error, as the code keeps what was changed before a \<open>?\<close>.
  \<^item> \<open>Core_Evolution\<close> and \<open>Command_Flow\<close> hold one lemma for each handler.
    \<open>evolves\<close> relates the states before and after: the section went through steps of its own
    state machine and the key generation through calls of its own, the invariants of keys,
    barrier, registry and network knowledge are kept, a relocation moves only
    forward, and no restart is asked for. \<open>accounted\<close> relates the commands returned: a handler returns a command to relocate
    exactly when it enters the state of a relocation in progress.
  \<^item> \<open>Comm_Send\<close> (\<open>routing/comm.rs\<close>), \<open>Bootstrap_Join\<close> (\<open>routing/bootstrap/mod.rs\<close>,
    \<open>join.rs\<close>), \<open>Bootstrap_Relocate\<close> (\<open>relocate.rs\<close>), \<open>Dispatcher\<close>
    (\<open>routing/dispatcher.rs\<close>, \<open>routing/mod.rs\<close>): sending to a group, joining, joining again after
    a relocation, and the execution of commands.
  \<^item> \<open>Node_System\<close>: a running node as a step relation over its core, the spawned commands and the
    running relocations. A step runs any one of the commands, so that every
    interleaving of the tasks is a run. \<open>Node_Stand_Ins\<close>: a concrete node.
  \<^item> \<open>Join_Protocol\<close>: the two sides of joining together, the messages of one being what the
    other receives. \<open>Section_Trust\<close>: what a message can make an elder believe about other
    sections, and that a forged description of a section is believed.
  \<^item> \<open>Node_Start\<close> (\<open>routing/comm.rs\<close>, \<open>routing/dispatcher.rs\<close>, \<open>Routing::new\<close> of
    \<open>routing/mod.rs\<close>): the endpoint, the dispatcher and the start of a node. What a start
    returns is a reachable state of \<open>Node_System\<close> in which the backlog has been handled in its order, and a long backlog
    keeps it from returning. \<open>Debug_Output\<close> (the \<open>Debug\<close> implementations of \<open>routing/command.rs\<close>, \<open>event.rs\<close>,
    \<open>routing/comm.rs\<close>, \<open>node.rs\<close>, \<open>section/section_keys.rs\<close>): secrets do not get into the log of commands.
  \<^item> \<open>Minimal_Node\<close> (\<open>src/examples/minimal.rs\<close>, \<open>routing/event_stream.rs\<close>): the nodes a program starts
    and the events it reads. \<open>Stress_Network\<close> and \<open>Stress_Run\<close> (\<open>src/examples/stress.rs\<close>): the
    register of nodes, the probes and the schedule, then the loop of \<open>main\<close> and the reports, whose
    numbers are consistent in every run, and when a node is started as the first of a network.

  The present theory has the properties of a whole node: its state stays sound, and so does its key
  generation, each of its
  steps refines the state machine of the section, it relocates at most once at a time,
  and a relocation that fails is never taken up again.

  \<^bold>\<open>Interfaces.\<close> \<open>total_cmp\<close> (comparators; interpreted by \<open>ord_cmp\<close>), \<open>xor_space\<close> (documented
  behaviour of names and prefixes; by \<open>bit_ops\<close>), \<open>byzantine_quorum\<close> (by
  \<open>supermajority\<close>), \<open>recent_queue\<close> (by the bounded queue and by the backlog of key generation),
  \<open>dedup\<close> (by the incoming and the outgoing filter), \<open>prefix_table\<close> and \<open>section_table\<close> (what the
  network knowledge asks of the prefix map; by the prefix map), \<open>session_relation\<close> (what every call of a key generation session
  keeps; by the effect of a session).

  \<^bold>\<open>Parameters.\<close> Code of other crates is an argument: \<open>xor_ops\<close> (\<open>xor_name\<close>), \<open>crypto_ops\<close>
  (\<open>threshold_crypto\<close>, \<open>ed25519_dalek\<close>, hashing), \<open>chain_ops\<close> (\<open>secured_linked_list\<close>), \<open>keygen_ops\<close>
  (\<open>bls_dkg\<close>), \<open>aggregator_ops\<close> (the signature aggregator), \<open>wire_ops\<close> and \<open>join_ops\<close>
  (serialisation, resource proof), \<open>transport_ops\<close> (\<open>qp2p\<close>), \<open>debug_ops\<close> (the texts of values), \<open>parse_ops\<close>
  (numbers in the schedule), with \<open>kit\<close>, \<open>node_ops\<close> and \<open>world\<close> grouping them. What is relied
  on is named: \<open>chain_laws\<close>, \<open>share_of_set\<close>, \<open>ed_laws\<close>, \<open>genuine_keypair\<close>, \<open>genuine_share\<close>, \<open>signed_laws\<close>,
  \<open>keygen_progress\<close>, \<open>kit_laws\<close>, \<open>node_laws\<close>, \<open>join_laws\<close>, \<open>f64_rounding\<close>. The witnesses instantiate all of them.
  Clock readings, random draws and the order in which sends complete are arguments as well, so the
  properties hold for all of them.

  \<^bold>\<open>Loops and panics.\<close> There is no fuel. Loops recurse on their data or carry a termination
  proof: the bootstrap loops consume the events that arrive until the channel closes, \<open>Return\<close> being
  their result and \<open>Searching\<close> a search for a key pair with a suitable name that the draws given
  do not complete. \<open>None\<close> and \<open>Panicked\<close> are the panics of the source, or a call of the key generation that does not
  return. A start that has not returned is \<open>StartPending\<close>, or \<open>ChannelFull\<close> when it waits for room in the channel of events. Integers keep their width where it matters (ages, identifiers, ports, byte
  arithmetic of the relocation check); durations are nanoseconds in \<open>nat\<close>. Floating point
  occurs in \<open>Network_Stats\<close> and \<open>Stress_Run\<close>, with the rounding as an argument.

  \<^bold>\<open>Where the model differs.\<close> A call of the key generation that never returns would hold the lock of the core for ever; in the model
  it leaves the state unchanged and gives no commands. The underflow of \<open>has_failure_agreement\<close> for an empty set of candidates
  is the value \<open>None\<close>, which a handler takes as a failed verification, while a debug build panics. The messages that a node forwards to its running relocation are
  a list without a bound, while the channel takes one and the sender waits. The commands that test reachability or
  connectivity take the lock more than once; here each is one step. The network knowledge of a node uses the prefix map of \<open>network/prefix_map.rs\<close> where
  the crate links that of \<open>sn_messaging\<close>.

  \<^bold>\<open>Not modelled.\<close> The transport (\<open>qp2p\<close>); locks, as each operation runs alone; the channels, except
  that the one for events is full after \<open>EVENT_CHANNEL_SIZE\<close> events that nobody reads; accessors that only
  return a field; derived implementations of \<open>Debug\<close> and the texts of errors; the command line
  parser, the log files and the layout of the printed text of the programs; the tests.
\<close>

section \<open>A node\<close>

text \<open>C3. Whatever a node receives, whatever its user calls, and in whatever order the spawned
  commands run, the state of the node stays sound. Its section is one the section's own state
  machine reaches: the authority provider is signed with the last key of the chain and every
  member carries a valid signature by a key of the chain. The shares of section keys are
  stored under their own keys and within the capacity of the cache, the split barrier holds no
  two halves of the same split, the two maps of the client registry mirror each other, and
  what is known of other sections is signed by the keys it names.\<close>

theorem node_stays_sound:
  assumes "node_laws N" and "node_reachable N S"
  shows "section_reachable (kt_env (no_kit N)) (co_section (sy_core S)) \<and>
    section_inv (kt_env (no_kit N)) (co_section (sy_core S)) \<and>
    keys_inv (kt_crypto (no_kit N)) (co_section_keys_provider (sy_core S)) \<and>
    barrier_inv (kt_xor (no_kit N)) (co_split_barrier (sy_core S)) \<and>
    registry_inv (kt_env (no_kit N)) (co_end_users (sy_core S)) \<and>
    network_signed (kt_crypto (no_kit N)) (co_network (sy_core S))"
  using node_reachable_inv [OF assms] by (simp add: system_inv_def core_inv_def)

theorem node_stays_sound_witness: "section_inv token_env first_section"
  using node_stays_sound [OF token_node_laws first_reachable] by (simp add: first_system_def)

text \<open>C4. The key generation of a node stays sound. In every reachable state each session of its voter is one in which the node
  holds the index of its own name and the failure votes counted are by distinct participants, with one session for each key and
  early messages within the capacity of the backlog. Every call that a handler makes of the voter and that returns keeps this: the handler stores
  the voter it returns and turns the commands it returns into commands of the node. An outcome among them is for candidates
  that include the node, under its index, with a secret share that belongs to the key unless the node is alone; an agreement on failure carries
  enough votes by distinct participants. The call for a failure observation always returns.\<close>

theorem node_key_generation_sound:
  fixes N :: "('c, 'a, 'g dkg_state) node_ops" and S :: "('c, 'a, 'g dkg_state) system"
  assumes "node_laws N"
    and "kt_dkg (no_kit N) = source_dkg G (kt_crypto (no_kit N)) (kt_alloc (no_kit N)) draws"
    and "node_reachable N S"
  shows "let K = no_kit N; cr = kt_crypto K; s = sy_core S; kp = nd_keypair (co_node s); d = co_dkg_voter s;
      translate = into_commands cr (co_node s) (core_last_key K s)
    in voter_inv cr kp (ds_voter d) \<and>
      (\<forall>c v t. voter_start G cr (ds_draws d 0) kp key ec (ds_voter d) (ds_counter d) = Some (c, v, t) \<longrightarrow>
          voter_inv cr kp v \<and> list_all (announcement_ok cr kp) c \<and>
          handle_dkg_start K key ec s =
            (translate c, s\<lparr>co_dkg_voter := d\<lparr>ds_voter := v, ds_counter := t, ds_draws := \<lambda>n. ds_draws d (Suc n)\<rparr>\<rparr>)) \<and>
      (\<forall>c v t. voter_process_message G cr kp key m (ds_voter d) (ds_counter d) = Some (c, v, t) \<longrightarrow>
          voter_inv cr kp v \<and> list_all (announcement_ok cr kp) c \<and>
          handle_dkg_message K key m s = (translate c, s\<lparr>co_dkg_voter := d\<lparr>ds_voter := v, ds_counter := t\<rparr>\<rparr>)) \<and>
      (\<forall>c v t. voter_handle_timeout G cr kp token (ds_voter d) (ds_counter d) = Some (c, v, t) \<longrightarrow>
          voter_inv cr kp v \<and> list_all (announcement_ok cr kp) c \<and>
          core_handle_timeout K token s = (translate c, s\<lparr>co_dkg_voter := d\<lparr>ds_voter := v, ds_counter := t\<rparr>\<rparr>)) \<and>
      (\<exists>c v. voter_process_failure cr key np sg (ds_voter d) = Some (c, v) \<and>
          voter_inv cr kp v \<and> list_all (announcement_ok cr kp) (case c of None \<Rightarrow> [] | Some c \<Rightarrow> [c]) \<and>
          handle_dkg_failure_observation K key np sg s =
            (option_into_commands cr (co_node s) (core_last_key K s) c, s\<lparr>co_dkg_voter := d\<lparr>ds_voter := v\<rparr>\<rparr>))"
proof -
  let ?K = "no_kit N" and ?d = "co_dkg_voter (sy_core S)" and ?kp = "nd_keypair (co_node (sy_core S))"
  have "100 \<le> kt_alloc ?K 100" using assms(1) by (simp add: node_laws_def kit_laws_def)
  moreover have "(dkg_step (kt_dkg ?K) ?kp)\<^sup>*\<^sup>* (dg_default (kt_dkg ?K)) ?d"
    using node_reachable_inv [OF assms(1,3)] by (simp add: system_inv_def core_inv_def)
  ultimately have inv: "voter_inv (kt_crypto ?K) ?kp (ds_voter ?d)"
    using source_dkg_steps by (simp only: assms(2))
  note keeps = voter_start_keeps [OF inv] voter_process_message_keeps [OF inv] voter_handle_timeout_keeps [OF inv]
  note handlers = handle_dkg_start_def handle_dkg_message_def core_handle_timeout_def handle_dkg_failure_observation_def
    source_dkg_def returned_def assms(2)
  obtain c v where failure: "voter_process_failure (kt_crypto ?K) key np sg (ds_voter ?d) = Some (c, v)" "voter_inv (kt_crypto ?K) ?kp v"
    "list_all (announcement_ok (kt_crypto ?K) ?kp) (case c of None \<Rightarrow> [] | Some c \<Rightarrow> [c])"
    using voter_process_failure_keeps [OF inv] by blast
  show ?thesis
    unfolding Let_def
    by (intro conjI allI impI inv exI [of _ c] exI [of _ v] failure) (auto simp: handlers failure(1) dest: keeps)
qed

text \<open>A first node that gets a message of a session it does not know yet.\<close>

theorem node_key_generation_sound_witness:
  "\<exists>v. handle_dkg_message token_kit \<lparr>dk_hash = [], dk_generation = 1\<rparr> (DkgMsg 3) first_core =
      (Inr [], first_core\<lparr>co_dkg_voter := (co_dkg_voter first_core)\<lparr>ds_voter := v\<rparr>\<rparr>) \<and>
    voter_inv (token_crypto :: bls_public_key list crypto_ops) (nd_keypair first_node) v \<and>
    length (vd_list (bl_queue (dv_backlog v))) = 1"
proof -
  let ?key = "\<lparr>dk_hash = [], dk_generation = 1\<rparr>"
  have dkg: "kt_dkg (no_kit token_node) =
      source_dkg token_keygen (kt_crypto (no_kit token_node)) (kt_alloc (no_kit token_node)) (\<lambda>_. (PkSet 0, SkShare 0))"
    by (simp add: token_kit_def token_env_def)
  have d: "co_dkg_voter first_core = \<lparr>ds_voter = dkg_voter_default (\<lambda>n. n), ds_counter = 0, ds_draws = (\<lambda>_. (PkSet 0, SkShare 0))\<rparr>"
    by (simp add: first_core_def send_event_def core_new_def token_kit_def source_dkg_def)
  have node: "co_node first_core = first_node" by (simp add: first_core_def send_event_def core_new_def)
  define v :: "nat dkg_voter" where "v = (dkg_voter_default (\<lambda>n. n))\<lparr>dv_backlog := backlog_push (dv_backlog (dkg_voter_default (\<lambda>n. n) :: nat dkg_voter)) ?key (DkgMsg 3)\<rparr>"
  have call: "voter_process_message token_keygen (token_crypto :: bls_public_key list crypto_ops) (nd_keypair first_node) ?key (DkgMsg 3)
      (dkg_voter_default (\<lambda>n. n)) 0 = Some ([], v, 0)"
    by (simp add: voter_process_message_def dkg_voter_default_def v_def)
  have "length (vd_list (bl_queue (dv_backlog v))) = 1"
    by (simp add: v_def dkg_voter_default_def backlog_push_def backlog_new_def vd_with_capacity_def vd_push_back_def BACKLOG_CAPACITY_def Let_def)
  then show ?thesis
    using node_key_generation_sound [OF token_node_laws dkg first_reachable, of ?key "\<lparr>ec_elders = [], ec_prefix = []\<rparr>" "DkgMsg 3" 0 "[]"
        "\<lparr>df_public_key = EdPk 1, df_signature = EdSig 1\<rparr>"] call
    by (intro exI [of _ v]) (simp add: first_system_def Let_def d node into_commands_def)
qed

text \<open>C5. Every step of a node refines the state machine of the section. Either the node keeps
  its keys and name and its section goes through merges, updates of the elders and updates of
  members only, or the one relocation that was running ends and the node has a new section,
  built from a signed authority provider under the genesis key it had when it left.\<close>

theorem node_step_refines_section:
  assumes "node_laws N" and "node_reachable N S" and "system_step N S S'"
  shows "((section_step (kt_env (no_kit N)))\<^sup>*\<^sup>* (co_section (sy_core S)) (co_section (sy_core S')) \<and>
      co_node (sy_core S') = co_node (sy_core S)) \<or>
    (\<exists>task chain sa. sy_relocations S = [task] \<and> sy_relocations S' = [] \<and>
      section_new (kt_env (no_kit N)) (rt_genesis_key task) chain sa = Inr (co_section (sy_core S')))"
  using system_step_section [OF assms(1) node_reachable_inv [OF assms(1,2)] assms(3)] .

theorem node_step_refines_section_witness:
  "(section_step token_env)\<^sup>*\<^sup>* first_section first_section \<and> system_step token_node first_system
     (first_system\<lparr>sy_commands := [SetJoinsAllowed False]\<rparr>)"
proof -
  have "system_step token_node first_system (first_system\<lparr>sy_commands := sy_commands first_system @ [SetJoinsAllowed False]\<rparr>)"
    by (rule call_interface [of _ _ "SetJoinsAllowedCall False"]) (simp add: routing_call_def)
  then have step: "system_step token_node first_system (first_system\<lparr>sy_commands := [SetJoinsAllowed False]\<rparr>)"
    by (simp add: first_system_def)
  show ?thesis
    using node_step_refines_section [OF token_node_laws first_reachable step] step by (simp add: first_system_def)
qed

text \<open>C6. A node is relocated at most once at a time: among its running relocations and its
  commands to relocate there is at most one, and only while its state says that a relocation is
  in progress. Every relocation is announced to the user exactly once when it starts, and
  every announced relocation but the current one has ended with an announcement.\<close>

theorem one_relocation_at_a_time:
  assumes "node_laws N" and "node_reachable N S"
  shows "relocations (sy_commands S) + length (sy_relocations S) \<le> (if in_progress (sy_core S) then 1 else 0) \<and>
    length (filter is_started (co_events (sy_core S))) =
      length (filter is_relocated (co_events (sy_core S))) + (if co_relocate_state (sy_core S) = None then 0 else 1)"
  using node_reachable_inv [OF assms] by (simp add: system_inv_def announcements_def)

theorem one_relocation_at_a_time_witness:
  "length (sy_relocations relocating_system) = 1 \<and> length (filter is_started (co_events (sy_core relocating_system))) = 1"
  using one_relocation_at_a_time [OF token_node_laws relocating_reachable]
  by (simp add: relocating_system_def relocating_core_def first_core_def send_event_def core_new_def)

text \<open>C26. A relocation that fails is final. Once the relocation of a node has ended without
  success, the node stays in the state of a relocation in progress and never relocates again,
  whatever it receives later.\<close>

theorem failed_relocation_is_final:
  assumes "node_laws N" and "in_progress (sy_core S)" and "relocations (sy_commands S) = 0" and "sy_relocations S = []"
    and "(system_step N)\<^sup>*\<^sup>* S S'"
  shows "in_progress (sy_core S') \<and> relocations (sy_commands S') = 0 \<and> sy_relocations S' = []"
proof -
  have "relocation_lost S" using assms(2-4) by (simp add: relocation_lost_def)
  with assms(5) have "relocation_lost S'"
    by (induction rule: rtranclp_induct) (auto dest: system_step_lost [OF assms(1)])
  then show ?thesis by (simp add: relocation_lost_def)
qed

theorem failed_relocation_is_final_witness:
  "node_reachable token_node failed_system \<and> in_progress (sy_core (failed_system\<lparr>sy_commands := [SetJoinsAllowed True]\<rparr>))"
proof -
  have "system_step token_node failed_system (failed_system\<lparr>sy_commands := sy_commands failed_system @ [SetJoinsAllowed True]\<rparr>)"
    by (rule call_interface [of _ _ "SetJoinsAllowedCall True"]) (simp add: routing_call_def)
  then have "(system_step token_node)\<^sup>*\<^sup>* failed_system (failed_system\<lparr>sy_commands := [SetJoinsAllowed True]\<rparr>)"
    by (auto simp: failed_system_def)
  then show ?thesis
    using failed_relocation_is_final [OF token_node_laws] failed_reachable
    by (simp add: failed_system_def relocating_core_def in_progress_def reloc_rank_def)
qed

end
